theory Spec2Isabelle
  imports Complex_Main "HOL-Library.Word"
begin

unbundle bit_operations_syntax

section \<open>PolyParser: the data model of src/main.cpp\<close>

text \<open>
  The program decodes two binary formats of a bridge-building game (a level layout and a
  save slot) and re-encodes layouts. This theory embeds the codec functions of
  \<^verbatim>\<open>src/main.cpp\<close> as HOL functions and proves the properties the specification states
  about them.

  Conventions of the embedding.
  \<^item> A byte is an \<open>8 word\<close>; \<open>int32_t\<close>/\<open>int\<close> is a \<open>32 word\<close> read as signed with
    \<open>sint\<close>; \<open>uint16_t\<close> is a \<open>16 word\<close>. Scalars are little-endian, as the
    \<^verbatim>\<open>reinterpret_cast\<close> reads of the source are on the hosts it is built for.
  \<^item> A \<^verbatim>\<open>std::string\<close> is the list of its bytes; a source literal is written
    \<open>ascii ''...''\<close>.
  \<^item> A C \<^verbatim>\<open>float\<close> is carried as its 32-bit pattern (\<open>cfloat\<close>): the codec only moves
    these four bytes. The one place that computes with floats,
    \<^verbatim>\<open>fixPistonNormalizedValue\<close>, is embedded on the bit patterns with the arithmetic of
    IEEE 754 binary32 (every operation rounded to nearest, ties to even, as a build
    computes that evaluates \<^verbatim>\<open>float\<close> expressions in \<^verbatim>\<open>float\<close> and does not fuse the
    multiplication and the addition of \<^verbatim>\<open>lerp\<close>). The decoders
    take the correction as the parameter \<open>fixp\<close>, so that what they say about the bytes
    does not depend on float arithmetic; the program is their instance at
    \<open>fixPistonNormalizedValue\<close>.
  \<^item> An enum field read by a cast from \<^verbatim>\<open>readInt32()\<close> keeps the integer.
  \<^item> A reader is a function from the stream state to either an error with the state at
    the failure, or a value with the new state. \<^verbatim>\<open>exit(1)\<close>, a failed \<^verbatim>\<open>assert\<close> and an
    uncaught C++ exception are errors. The source never tests the stream after a read, so
    a read past the end leaves its destination indeterminate there; the model stops with
    \<open>EndOfInput\<close> instead, and results are about streams long enough for every read.
  \<^item> Log output is not modelled; the calls of \<^verbatim>\<open>U::intc\<close> inside log statements are,
    because they run the sanity guard, which counts offenses and may end the process.
\<close>

type_synonym byte = "8 word"
type_synonym int32 = "32 word"
type_synonym cfloat = "32 word"
type_synonym cstring = "byte list"

definition ascii :: "string \<Rightarrow> cstring" where
  "ascii = map of_char"

datatype error =
    EndOfInput
  | ExcessiveUnusualNumbers
  | ByteArrayLength
  | AssertionFailed
  | CannotPeekTypeEntry
  | BadTypeName
  | UnknownTypeEntry
  | BadLength
  | BadUtf16

record rstate =
  input :: "byte list"
  cursor :: nat
  unusualNumbers :: nat

type_synonym 'a res = "(error \<times> rstate) + ('a \<times> rstate)"
type_synonym 'a rd = "rstate \<Rightarrow> 'a res"

text \<open>\<^verbatim>\<open>int unusualNumbers = 1;\<close> (line 45): the state a run starts in.\<close>

definition start :: "byte list \<Rightarrow> rstate" where
  "start bs = \<lparr>input = bs, cursor = 0, unusualNumbers = 1\<rparr>"

definition ret :: "'a \<Rightarrow> 'a rd" where
  "ret x s = Inr (x, s)"

definition fail :: "error \<Rightarrow> 'a rd" where
  "fail e s = Inl (e, s)"

definition bnd :: "'a rd \<Rightarrow> ('a \<Rightarrow> 'b rd) \<Rightarrow> 'b rd" where
  "bnd m f s = (case m s of Inl e \<Rightarrow> Inl e | Inr (x, s') \<Rightarrow> f x s')"

text \<open>\<^verbatim>\<open>for (int i = 0; i < count; i++) xs.push_back(read());\<close>\<close>

fun rep :: "nat \<Rightarrow> 'a rd \<Rightarrow> 'a list rd" where
  "rep 0 m = ret []"
| "rep (Suc n) m = bnd m (\<lambda>x. bnd (rep n m) (\<lambda>xs. ret (x # xs)))"

definition loop :: "int32 \<Rightarrow> 'a rd \<Rightarrow> 'a list rd" where
  "loop count m = rep (nat (sint count)) m"

subsection \<open>Little-endian scalars\<close>

definition word16_le :: "byte list \<Rightarrow> 16 word" where
  "word16_le bs = horner_sum ucast (2 ^ 8) bs"

definition word32_le :: "byte list \<Rightarrow> 32 word" where
  "word32_le bs = horner_sum ucast (2 ^ 8) bs"

definition word64_le :: "byte list \<Rightarrow> 64 word" where
  "word64_le bs = horner_sum ucast (2 ^ 8) bs"

definition bytes16 :: "16 word \<Rightarrow> byte list" where
  "bytes16 w = [ucast w, ucast (drop_bit 8 w)]"

definition bytes32 :: "32 word \<Rightarrow> byte list" where
  "bytes32 w = [ucast w, ucast (drop_bit 8 w), ucast (drop_bit 16 w), ucast (drop_bit 24 w)]"

subsection \<open>The sanity guard: \<^verbatim>\<open>Utils::ensureReasonable\<close>, \<^verbatim>\<open>Utils::intc\<close>\<close>

definition ensureReasonable :: "int \<Rightarrow> int \<Rightarrow> int \<Rightarrow> int \<Rightarrow> int \<Rightarrow> unit rd" where
  "ensureReasonable v mn mx warnMin warnMax s =
     (if v < mn then
        (if 3 \<le> unusualNumbers s then Inl (ExcessiveUnusualNumbers, s)
         else Inr ((), s\<lparr>unusualNumbers := unusualNumbers s + 1\<rparr>))
      else if v > mx then
        (if 3 \<le> unusualNumbers s then Inl (ExcessiveUnusualNumbers, s)
         else Inr ((), s\<lparr>unusualNumbers := unusualNumbers s + 1\<rparr>))
      else if v < warnMin then
        (if 3 \<le> unusualNumbers s then Inl (ExcessiveUnusualNumbers, s) else Inr ((), s))
      else if v > warnMax then
        (if 3 \<le> unusualNumbers s then Inl (ExcessiveUnusualNumbers, s) else Inr ((), s))
      else Inr ((), s))"

text \<open>\<^verbatim>\<open>intc(value)\<close> with the default envelope \<^verbatim>\<open>min = -1000, max = 10000, warnMin = 0,
  warnMax = 4096\<close>; its result is a string for the log.\<close>

definition intc :: "int \<Rightarrow> unit rd" where
  "intc v = ensureReasonable v (- 1000) 10000 0 4096"

text \<open>A run of the guard over a list of checks \<open>(value, min, max, warnMin, warnMax)\<close>,
  in order, as the calls of one process are.\<close>

fun guardAll :: "(int \<times> int \<times> int \<times> int \<times> int) list \<Rightarrow> unit rd" where
  "guardAll [] = ret ()"
| "guardAll ((v, mn, mx, wmn, wmx) # cs) =
     bnd (ensureReasonable v mn mx wmn wmx) (\<lambda>_. guardAll cs)"

text \<open>A check lies inside its envelope when none of the four tests of the guard fires; it
  is a hard offense when the value lies outside \<open>[min, max]\<close>.\<close>

definition inEnvelope :: "int \<times> int \<times> int \<times> int \<times> int \<Rightarrow> bool" where
  "inEnvelope c = (case c of (v, mn, mx, wmn, wmx) \<Rightarrow> mn \<le> v \<and> v \<le> mx \<and> wmn \<le> v \<and> v \<le> wmx)"

definition hardOffense :: "int \<times> int \<times> int \<times> int \<times> int \<Rightarrow> bool" where
  "hardOffense c = (case c of (v, mn, mx, wmn, wmx) \<Rightarrow> v < mn \<or> mx < v)"

subsection \<open>The primitive readers of \<^verbatim>\<open>Deserializer\<close>\<close>

definition readBytes :: "nat \<Rightarrow> byte list rd" where
  "readBytes n s =
     (if cursor s + n \<le> length (input s)
      then Inr (take n (drop (cursor s) (input s)), s\<lparr>cursor := cursor s + n\<rparr>)
      else Inl (EndOfInput, s))"

definition readByte :: "byte rd" where
  "readByte = bnd (readBytes 1) (\<lambda>bs. ret (hd bs))"

definition readInt8 :: "byte rd" where
  "readInt8 = bnd (readBytes 1) (\<lambda>bs. ret (hd bs))"

definition readBool :: "bool rd" where
  "readBool = bnd readInt8 (\<lambda>b. ret (b \<noteq> 0))"

definition readInt16 :: "16 word rd" where
  "readInt16 = bnd (readBytes 2) (\<lambda>bs. ret (word16_le bs))"

definition readUInt16 :: "16 word rd" where
  "readUInt16 = bnd (readBytes 2) (\<lambda>bs. ret (word16_le bs))"

definition readInt32 :: "int32 rd" where
  "readInt32 = bnd (readBytes 4) (\<lambda>bs. ret (word32_le bs))"

definition readFloat :: "cfloat rd" where
  "readFloat = bnd (readBytes 4) (\<lambda>bs. ret (word32_le bs))"

definition readString :: "cstring rd" where
  "readString = bnd readUInt16 (\<lambda>len. readBytes (unat len))"

text \<open>The recurring shape \<^verbatim>\<open>count = readInt32(); log(intc(count)); for (...) push_back(read())\<close>,
  and the same loop where the count is not logged.\<close>

definition counted :: "'a rd \<Rightarrow> 'a list rd" where
  "counted m = bnd readInt32 (\<lambda>count. bnd (intc (sint count)) (\<lambda>_. loop count m))"

definition countedQuiet :: "'a rd \<Rightarrow> 'a list rd" where
  "countedQuiet m = bnd readInt32 (\<lambda>count. loop count m)"

subsection \<open>The primitive writers of \<^verbatim>\<open>Serializer\<close>\<close>

definition writeInt32 :: "int32 \<Rightarrow> byte list" where
  "writeInt32 v = bytes32 v"

definition writeUInt16 :: "16 word \<Rightarrow> byte list" where
  "writeUInt16 v = bytes16 v"

text \<open>\<^verbatim>\<open>writeUInt16((short)value.length()); file.write(value.c_str(), value.length());\<close>\<close>

definition writeString :: "cstring \<Rightarrow> byte list" where
  "writeString v = writeUInt16 (of_nat (length v)) @ v"

definition writeFloat :: "cfloat \<Rightarrow> byte list" where
  "writeFloat v = bytes32 v"

definition writeBool :: "bool \<Rightarrow> byte list" where
  "writeBool v = [if v then 1 else 0]"

definition writeByte :: "byte \<Rightarrow> byte list" where
  "writeByte v = [v]"

text \<open>\<^verbatim>\<open>writeInt32((int)xs.size())\<close>\<close>

definition writeCount :: "'a list \<Rightarrow> byte list" where
  "writeCount xs = writeInt32 (of_nat (length xs))"

subsection \<open>The bridge structs\<close>

record Vec3 =
  vec3_x :: cfloat
  vec3_y :: cfloat
  vec3_z :: cfloat

record Vec2 =
  vec2_x :: cfloat
  vec2_y :: cfloat

record BridgeJoint =
  joint_pos :: Vec3
  joint_is_anchor :: bool
  joint_is_split :: bool
  joint_guid :: cstring

record BridgeEdge =
  edge_material_type :: int32
  edge_node_a_guid :: cstring
  edge_node_b_guid :: cstring
  edge_joint_a_part :: int32
  edge_joint_b_part :: int32
  edge_guid :: cstring

record BridgeSpring =
  spring_normalized_value :: cfloat
  spring_node_a_guid :: cstring
  spring_node_b_guid :: cstring
  spring_guid :: cstring

record BridgeSplitJoint =
  splitjoint_guid :: cstring
  splitjoint_state :: int32

record Piston =
  piston_normalized_value :: cfloat
  piston_node_a_guid :: cstring
  piston_node_b_guid :: cstring
  piston_guid :: cstring

record HydraulicsControllerPhase =
  hcp_hydraulics_phase_guid :: cstring
  hcp_piston_guids :: "cstring list"
  hcp_bridge_split_joints :: "BridgeSplitJoint list"
  hcp_disable_new_additions :: bool

record Bridge =
  bridge_version :: int32
  bridge_joints :: "BridgeJoint list"
  bridge_edges :: "BridgeEdge list"
  bridge_springs :: "BridgeSpring list"
  bridge_pistons :: "Piston list"
  bridge_anchors :: "BridgeJoint list"
  bridge_phases :: "HydraulicsControllerPhase list"

text \<open>\<^verbatim>\<open>Bridge bridge{};\<close>: version 0 and empty vectors.\<close>

definition emptyBridge :: Bridge where
  "emptyBridge = \<lparr>bridge_version = 0, bridge_joints = [], bridge_edges = [],
     bridge_springs = [], bridge_pistons = [], bridge_anchors = [], bridge_phases = []\<rparr>"

definition MAX_VERSION :: int32 where
  "MAX_VERSION = 26"

definition MAX_BRIDGE_VERSION :: int32 where
  "MAX_BRIDGE_VERSION = 11"

subsection \<open>C \<^verbatim>\<open>float\<close> arithmetic and the piston correction (lines 797-809, 974-985)\<close>

text \<open>The sign bit and the other 31 bits (exponent and fraction) of a pattern.\<close>

definition f_sign :: "cfloat \<Rightarrow> bool" where
  "f_sign b = bit b 31"

definition f_mag :: "cfloat \<Rightarrow> nat" where
  "f_mag b = unat (take_bit 31 b)"

definition is_nan :: "cfloat \<Rightarrow> bool" where
  "is_nan b \<longleftrightarrow> 0x7F800000 < f_mag b"

definition is_inf :: "cfloat \<Rightarrow> bool" where
  "is_inf b \<longleftrightarrow> f_mag b = 0x7F800000"

text \<open>
  The value of a finite pattern, in units of \<open>2 ^ - 149\<close>: below \<open>2 ^ 23\<close> the 31 bits are a
  subnormal fraction; otherwise the upper 8 bits are the biased exponent \<open>e\<close>, the lower 23
  bits the fraction, and the value is \<open>(2 ^ 23 + fraction) * 2 ^ (e - 150)\<close>. (The pattern of
  infinity gets \<open>2 ^ 128\<close>, which suits the comparisons.)
\<close>

definition mag_num :: "nat \<Rightarrow> nat" where
  "mag_num n = (if n < 2 ^ 23 then n else (2 ^ 23 + n mod 2 ^ 23) * 2 ^ (n div 2 ^ 23 - 1))"

definition mag_val :: "nat \<Rightarrow> real" where
  "mag_val n = real (mag_num n) / 2 ^ 149"

definition valof :: "cfloat \<Rightarrow> real" where
  "valof b = (if f_sign b then - mag_val (f_mag b) else mag_val (f_mag b))"

text \<open>
  \<^verbatim>\<open>a < b\<close> on floats: false when either is a NaN, otherwise the order of the sign and
  magnitude integers (the two zeros are equal, the infinities are the ends).
\<close>

definition f_key :: "cfloat \<Rightarrow> int" where
  "f_key b = (if f_sign b then - int (f_mag b) else int (f_mag b))"

definition flt :: "cfloat \<Rightarrow> cfloat \<Rightarrow> bool" where
  "flt a b \<longleftrightarrow> \<not> is_nan a \<and> \<not> is_nan b \<and> f_key a < f_key b"

text \<open>
  Rounding. \<open>rhe\<close> rounds a real to the nearest integer, a tie to the even one.
  \<open>fround_mag a\<close> is the pattern of the binary32 number nearest to \<open>a \<ge> 0\<close>: \<open>expo 254 a\<close> is the
  biased exponent less one (0 in the subnormal range), the significand is rounded at that
  scale, a carry out of the significand moves to the next exponent by the addition, and a
  result at or above the pattern of infinity is infinity.
\<close>

definition rhe :: "real \<Rightarrow> int" where
  "rhe x = (if x - of_int \<lfloor>x\<rfloor> < 1 / 2 then \<lfloor>x\<rfloor>
            else if 1 / 2 < x - of_int \<lfloor>x\<rfloor> then \<lfloor>x\<rfloor> + 1
            else if even \<lfloor>x\<rfloor> then \<lfloor>x\<rfloor> else \<lfloor>x\<rfloor> + 1)"

fun expo :: "nat \<Rightarrow> real \<Rightarrow> nat" where
  "expo 0 a = 0"
| "expo (Suc j) a = (if 2 ^ Suc j \<le> a * 2 ^ 126 then Suc j else expo j a)"

definition fround_mag :: "real \<Rightarrow> nat" where
  "fround_mag a = min 0x7F800000
     (expo 254 a * 2 ^ 23 + nat (rhe (a * 2 ^ 149 / 2 ^ expo 254 a)))"

definition f_pack :: "bool \<Rightarrow> nat \<Rightarrow> cfloat" where
  "f_pack s n = (if s then 0x80000000 else 0) OR of_nat n"

text \<open>
  The operations \<^verbatim>\<open>+\<close>, \<^verbatim>\<open>-\<close>, \<^verbatim>\<open>*\<close>, \<^verbatim>\<open>/\<close> and \<^verbatim>\<open>std::abs\<close>. An operation on a NaN, and an
  invalid operation, give a NaN; the model returns the default quiet NaN where hardware
  may keep the payload of an operand. An exact zero sum is \<open>+0\<close> unless both operands are
  negative.
\<close>

definition f_nan :: cfloat where
  "f_nan = 0x7FC00000"

definition fneg :: "cfloat \<Rightarrow> cfloat" where
  "fneg b = b XOR 0x80000000"

definition f_abs :: "cfloat \<Rightarrow> cfloat" where
  "f_abs v = v AND 0x7FFFFFFF"

definition fadd :: "cfloat \<Rightarrow> cfloat \<Rightarrow> cfloat" where
  "fadd a b =
     (if is_nan a \<or> is_nan b then f_nan
      else if is_inf a then (if is_inf b \<and> f_sign a \<noteq> f_sign b then f_nan else a)
      else if is_inf b then b
      else if valof a + valof b = 0 then f_pack (f_sign a \<and> f_sign b) 0
      else f_pack (valof a + valof b < 0) (fround_mag \<bar>valof a + valof b\<bar>))"

definition fsub :: "cfloat \<Rightarrow> cfloat \<Rightarrow> cfloat" where
  "fsub a b = fadd a (fneg b)"

definition fmul :: "cfloat \<Rightarrow> cfloat \<Rightarrow> cfloat" where
  "fmul a b =
     (if is_nan a \<or> is_nan b then f_nan
      else if (is_inf a \<and> f_mag b = 0) \<or> (f_mag a = 0 \<and> is_inf b) then f_nan
      else if is_inf a \<or> is_inf b then f_pack (f_sign a \<noteq> f_sign b) 0x7F800000
      else f_pack (f_sign a \<noteq> f_sign b) (fround_mag \<bar>valof a * valof b\<bar>))"

definition fdiv :: "cfloat \<Rightarrow> cfloat \<Rightarrow> cfloat" where
  "fdiv a b =
     (if is_nan a \<or> is_nan b then f_nan
      else if (is_inf a \<and> is_inf b) \<or> (f_mag a = 0 \<and> f_mag b = 0) then f_nan
      else if is_inf a \<or> f_mag b = 0 then f_pack (f_sign a \<noteq> f_sign b) 0x7F800000
      else if is_inf b then f_pack (f_sign a \<noteq> f_sign b) 0
      else f_pack (f_sign a \<noteq> f_sign b) (fround_mag (\<bar>valof a\<bar> / \<bar>valof b\<bar>)))"

text \<open>\<^verbatim>\<open>clamp01\<close>, \<^verbatim>\<open>lerp\<close> (lines 974-985) and \<^verbatim>\<open>fixPistonNormalizedValue\<close> (lines 797-809).
  The literals: \<^verbatim>\<open>0.25f\<close> is \<open>0x3E800000\<close>, \<^verbatim>\<open>0.5f\<close> is \<open>0x3F000000\<close>, \<^verbatim>\<open>0.75f\<close> is
  \<open>0x3F400000\<close>, \<^verbatim>\<open>1.0f\<close> is \<open>0x3F800000\<close>.\<close>

definition clamp01 :: "cfloat \<Rightarrow> cfloat" where
  "clamp01 v = (if flt v 0 then 0 else if flt 0x3F800000 v then 0x3F800000 else v)"

definition lerp :: "cfloat \<Rightarrow> cfloat \<Rightarrow> cfloat \<Rightarrow> cfloat" where
  "lerp a b t = fadd a (fmul (fsub b a) t)"

definition fixPistonNormalizedValue :: "cfloat \<Rightarrow> cfloat" where
  "fixPistonNormalizedValue v =
     (if flt v 0x3E800000 then lerp 0x3F800000 0x3F000000 (clamp01 (fdiv v 0x3E800000))
      else if flt 0x3F400000 v
      then lerp 0x3F000000 0x3F800000 (clamp01 (fdiv (fsub v 0x3F400000) 0x3E800000))
      else lerp 0 0x3F000000 (clamp01 (fdiv (f_abs (fsub v 0x3F000000)) 0x3E800000)))"

subsection \<open>\<^verbatim>\<open>Deserializer\<close>: the bridge (lines 885-1113)\<close>

definition readVec3 :: "Vec3 rd" where
  "readVec3 = bnd readFloat (\<lambda>x. bnd readFloat (\<lambda>y. bnd readFloat (\<lambda>z.
     ret \<lparr>vec3_x = x, vec3_y = y, vec3_z = z\<rparr>)))"

definition readVec2 :: "Vec2 rd" where
  "readVec2 = bnd readFloat (\<lambda>x. bnd readFloat (\<lambda>y. ret \<lparr>vec2_x = x, vec2_y = y\<rparr>))"

definition deserializeAnchor :: "BridgeJoint rd" where
  "deserializeAnchor = bnd readVec3 (\<lambda>p. bnd readBool (\<lambda>a. bnd readBool (\<lambda>sp.
     bnd readString (\<lambda>g.
       ret \<lparr>joint_pos = p, joint_is_anchor = a, joint_is_split = sp, joint_guid = g\<rparr>))))"

definition deserializeJoint :: "BridgeJoint rd" where
  "deserializeJoint = bnd readVec3 (\<lambda>p. bnd readBool (\<lambda>a. bnd readBool (\<lambda>sp.
     bnd readString (\<lambda>g.
       ret \<lparr>joint_pos = p, joint_is_anchor = a, joint_is_split = sp, joint_guid = g\<rparr>))))"

definition deserializeEdge :: "int32 \<Rightarrow> BridgeEdge rd" where
  "deserializeEdge version =
     bnd readInt32 (\<lambda>m. bnd readString (\<lambda>a. bnd readString (\<lambda>b.
     bnd readInt32 (\<lambda>pa. bnd readInt32 (\<lambda>pb.
     bnd (if sint version \<ge> 11 then readString else ret []) (\<lambda>g.
       ret \<lparr>edge_material_type = m, edge_node_a_guid = a, edge_node_b_guid = b,
            edge_joint_a_part = pa, edge_joint_b_part = pb, edge_guid = g\<rparr>))))))"

definition deserializeSpring :: "BridgeSpring rd" where
  "deserializeSpring = bnd readFloat (\<lambda>v. bnd readString (\<lambda>a. bnd readString (\<lambda>b.
     bnd readString (\<lambda>g.
       ret \<lparr>spring_normalized_value = v, spring_node_a_guid = a, spring_node_b_guid = b,
            spring_guid = g\<rparr>))))"

definition deserializePiston :: "(cfloat \<Rightarrow> cfloat) \<Rightarrow> int32 \<Rightarrow> Piston rd" where
  "deserializePiston fixp version =
     bnd readFloat (\<lambda>v. bnd readString (\<lambda>a. bnd readString (\<lambda>b. bnd readString (\<lambda>g.
       ret \<lparr>piston_normalized_value = (if sint version < 8 then fixp v else v),
            piston_node_a_guid = a, piston_node_b_guid = b, piston_guid = g\<rparr>))))"

definition deserializeSplitJoint :: "BridgeSplitJoint rd" where
  "deserializeSplitJoint = bnd readString (\<lambda>g. bnd readInt32 (\<lambda>st.
     ret \<lparr>splitjoint_guid = g, splitjoint_state = st\<rparr>))"

definition deserializeHydraulicControllerPhase :: "int32 \<Rightarrow> HydraulicsControllerPhase rd" where
  "deserializeHydraulicControllerPhase version =
     bnd readString (\<lambda>g.
     bnd (countedQuiet readString) (\<lambda>pistons.
     bnd (if sint version > 2 then countedQuiet deserializeSplitJoint
          else bnd (countedQuiet readString) (\<lambda>_. ret [])) (\<lambda>joints.
     bnd (if sint version > 9 then readBool else ret False) (\<lambda>d.
       ret \<lparr>hcp_hydraulics_phase_guid = g, hcp_piston_guids = pistons,
            hcp_bridge_split_joints = joints, hcp_disable_new_additions = d\<rparr>))))"

definition deserializeBridge :: "(cfloat \<Rightarrow> cfloat) \<Rightarrow> Bridge rd" where
  "deserializeBridge fixp =
     bnd readInt32 (\<lambda>version.
     bnd (ensureReasonable (sint version) 0 100 0 50) (\<lambda>_.
     bnd (intc (sint version)) (\<lambda>_.
     if sint version < 2 then ret (emptyBridge\<lparr>bridge_version := version\<rparr>)
     else
       bnd (counted deserializeJoint) (\<lambda>joints.
       bnd (counted (deserializeEdge version)) (\<lambda>edges.
       bnd (if sint version \<ge> 7 then counted deserializeSpring else ret []) (\<lambda>springs.
       bnd (counted (deserializePiston fixp version)) (\<lambda>pistons.
       bnd (counted (deserializeHydraulicControllerPhase version)) (\<lambda>phases.
       bnd (if sint version = 5 then bnd (countedQuiet readString) (\<lambda>_. ret ())
            else ret ()) (\<lambda>_.
       bnd (if sint version \<ge> 6 then counted deserializeAnchor else ret []) (\<lambda>anchors.
       bnd (if sint version \<ge> 4 \<and> sint version < 9 then bnd readBool (\<lambda>_. ret ())
            else ret ()) (\<lambda>_.
         ret \<lparr>bridge_version = version, bridge_joints = joints, bridge_edges = edges,
              bridge_springs = springs, bridge_pistons = pistons, bridge_anchors = anchors,
              bridge_phases = phases\<rparr>)))))))))))"

subsection \<open>\<^verbatim>\<open>SimpleBridgeDeserializer::deserializeBridge\<close> (lines 2100-2292)\<close>

text \<open>
  The save-slot path decodes the bridge from a byte buffer (\<open>input\<close>) at \<^verbatim>\<open>offset\<close>
  (\<open>cursor\<close>). Its private \<^verbatim>\<open>readInt32\<close>, \<^verbatim>\<open>readFloat\<close>, \<^verbatim>\<open>readUInt16\<close>,
  \<^verbatim>\<open>readString\<close> and \<^verbatim>\<open>readVector3\<close> read the same encodings as the readers above and
  are modelled by them; \<^verbatim>\<open>readBool\<close> reinterprets one byte as \<^verbatim>\<open>bool\<close>, modelled as
  non-zero. The buffer is not bounds-checked in the source; the model stops with
  \<open>EndOfInput\<close>. The loops over edges and over hydraulics-controller phases fill a local
  variable that is never pushed onto the bridge.
\<close>

definition simple_joint :: "BridgeJoint rd" where
  "simple_joint = bnd readVec3 (\<lambda>p. bnd readBool (\<lambda>a. bnd readBool (\<lambda>sp.
     bnd readString (\<lambda>g.
       ret \<lparr>joint_pos = p, joint_is_anchor = a, joint_is_split = sp, joint_guid = g\<rparr>))))"

definition simple_edge :: "unit rd" where
  "simple_edge = bnd readInt32 (\<lambda>m. bnd readString (\<lambda>a. bnd readString (\<lambda>b.
     bnd readInt32 (\<lambda>pa. bnd readInt32 (\<lambda>pb. ret ())))))"

definition simple_spring :: "BridgeSpring rd" where
  "simple_spring = bnd readFloat (\<lambda>v. bnd readString (\<lambda>a. bnd readString (\<lambda>b.
     bnd readString (\<lambda>g.
       ret \<lparr>spring_normalized_value = v, spring_node_a_guid = a, spring_node_b_guid = b,
            spring_guid = g\<rparr>))))"

definition simple_piston :: "(cfloat \<Rightarrow> cfloat) \<Rightarrow> int32 \<Rightarrow> Piston rd" where
  "simple_piston fixp version =
     bnd readFloat (\<lambda>v. bnd readString (\<lambda>a. bnd readString (\<lambda>b. bnd readString (\<lambda>g.
       ret \<lparr>piston_normalized_value = (if sint version < 8 then fixp v else v),
            piston_node_a_guid = a, piston_node_b_guid = b, piston_guid = g\<rparr>))))"

definition simple_phase :: "int32 \<Rightarrow> unit rd" where
  "simple_phase version =
     bnd readString (\<lambda>g.
     bnd (countedQuiet readString) (\<lambda>pistons.
     bnd (if sint version > 2
          then bnd (countedQuiet (bnd readString (\<lambda>g. bnd readInt32 (\<lambda>st.
                 ret \<lparr>splitjoint_guid = g, splitjoint_state = st\<rparr>)))) (\<lambda>_. ret ())
          else bnd (countedQuiet readString) (\<lambda>_. ret ())) (\<lambda>_.
     bnd (if sint version > 9 then readBool else ret False) (\<lambda>d. ret ()))))"

definition simple_deserializeBridge :: "(cfloat \<Rightarrow> cfloat) \<Rightarrow> Bridge rd" where
  "simple_deserializeBridge fixp =
     bnd readInt32 (\<lambda>version.
     bnd (intc (sint version)) (\<lambda>_.
     if sint version < 2 then ret (emptyBridge\<lparr>bridge_version := version\<rparr>)
     else
       bnd (counted simple_joint) (\<lambda>joints.
       bnd (counted simple_edge) (\<lambda>_.
       bnd (if sint version \<ge> 7 then counted simple_spring else ret []) (\<lambda>springs.
       bnd (counted (simple_piston fixp version)) (\<lambda>pistons.
       bnd (counted (simple_phase version)) (\<lambda>_.
       bnd (if sint version = 5 then bnd (countedQuiet readString) (\<lambda>_. ret ())
            else ret ()) (\<lambda>_.
       bnd (if sint version \<ge> 6 then counted simple_joint else ret []) (\<lambda>anchors.
       bnd (if sint version \<ge> 4 \<and> sint version < 9 then bnd readBool (\<lambda>_. ret ())
            else ret ()) (\<lambda>_.
         ret \<lparr>bridge_version = version, bridge_joints = joints, bridge_edges = [],
              bridge_springs = springs, bridge_pistons = pistons, bridge_anchors = anchors,
              bridge_phases = []\<rparr>))))))))))"

subsection \<open>\<^verbatim>\<open>Serializer::serializeBridgeBinary\<close> (lines 1755-1826)\<close>

definition writeVector3 :: "Vec3 \<Rightarrow> byte list" where
  "writeVector3 v = writeFloat (vec3_x v) @ writeFloat (vec3_y v) @ writeFloat (vec3_z v)"

definition writeVector2 :: "Vec2 \<Rightarrow> byte list" where
  "writeVector2 v = writeFloat (vec2_x v) @ writeFloat (vec2_y v)"

definition serializeJoint :: "BridgeJoint \<Rightarrow> byte list" where
  "serializeJoint j = writeVector3 (joint_pos j) @ writeBool (joint_is_anchor j) @
     writeBool (joint_is_split j) @ writeString (joint_guid j)"

definition serializeEdge :: "BridgeEdge \<Rightarrow> byte list" where
  "serializeEdge e = writeInt32 (edge_material_type e) @ writeString (edge_node_a_guid e) @
     writeString (edge_node_b_guid e) @ writeInt32 (edge_joint_a_part e) @
     writeInt32 (edge_joint_b_part e)"

definition serializeSpring :: "BridgeSpring \<Rightarrow> byte list" where
  "serializeSpring sp = writeFloat (spring_normalized_value sp) @
     writeString (spring_node_a_guid sp) @ writeString (spring_node_b_guid sp) @
     writeString (spring_guid sp)"

definition serializePiston :: "Piston \<Rightarrow> byte list" where
  "serializePiston p = writeFloat (piston_normalized_value p) @
     writeString (piston_node_a_guid p) @ writeString (piston_node_b_guid p) @
     writeString (piston_guid p)"

definition serializeSplitJoint :: "BridgeSplitJoint \<Rightarrow> byte list" where
  "serializeSplitJoint j = writeString (splitjoint_guid j) @ writeInt32 (splitjoint_state j)"

definition serializePhase :: "HydraulicsControllerPhase \<Rightarrow> byte list" where
  "serializePhase ph = writeString (hcp_hydraulics_phase_guid ph) @
     writeCount (hcp_piston_guids ph) @ concat (map writeString (hcp_piston_guids ph)) @
     writeCount (hcp_bridge_split_joints ph) @
     concat (map serializeSplitJoint (hcp_bridge_split_joints ph)) @
     writeBool (hcp_disable_new_additions ph)"

definition serializeBridgeBinary :: "Bridge \<Rightarrow> byte list" where
  "serializeBridgeBinary bridge =
     writeInt32 MAX_BRIDGE_VERSION @
     writeCount (bridge_joints bridge) @ concat (map serializeJoint (bridge_joints bridge)) @
     writeCount (bridge_edges bridge) @ concat (map serializeEdge (bridge_edges bridge)) @
     writeCount (bridge_springs bridge) @ concat (map serializeSpring (bridge_springs bridge)) @
     writeCount (bridge_pistons bridge) @ concat (map serializePiston (bridge_pistons bridge)) @
     writeCount (bridge_phases bridge) @ concat (map serializePhase (bridge_phases bridge)) @
     writeCount (bridge_anchors bridge) @ concat (map serializeJoint (bridge_anchors bridge))"

subsection \<open>Mod data: \<^verbatim>\<open>Utils::splitString\<close>, \<^verbatim>\<open>readByteArray\<close>, \<^verbatim>\<open>deserializePTFModData\<close>\<close>

record Mod =
  mod_name :: cstring
  mod_version :: cstring
  mod_settings :: cstring

record ModSaveData =
  msd_data :: "byte list"
  msd_name :: cstring
  msd_version :: cstring

record ModData =
  mods :: "Mod list"
  mod_save_data :: "ModSaveData list"

text \<open>
  \<^verbatim>\<open>splitString(string, delimiter)\<close> (lines 581-592) cuts at every occurrence of the
  delimiter, found left to right. \<open>splitFrom d ds cur s\<close> is the loop for the delimiter
  \<open>d # ds\<close>, with \<open>cur\<close> the bytes of the current part read so far. (With an empty
  delimiter the source loops forever; every call passes the two-byte delimiter below.)
\<close>

fun splitFrom :: "byte \<Rightarrow> byte list \<Rightarrow> byte list \<Rightarrow> byte list \<Rightarrow> byte list list" where
  "splitFrom d ds cur [] = [cur]"
| "splitFrom d ds cur (x # xs) =
     (if x = d \<and> take (length ds) xs = ds
      then cur # splitFrom d ds [] (drop (length ds) xs)
      else splitFrom d ds (cur @ [x]) xs)"

definition splitString :: "cstring \<Rightarrow> cstring \<Rightarrow> cstring list" where
  "splitString string delimiter = splitFrom (hd delimiter) (tl delimiter) [] string"

text \<open>The literal \<^verbatim>\<open>"\u058D"\<close>: the UTF-8 bytes of U+058D.\<close>

definition modDelimiter :: cstring where
  "modDelimiter = [0xD6, 0x8D]"

text \<open>\<^verbatim>\<open>!parts.empty() ? parts[0] : ""\<close>, \<^verbatim>\<open>parts.size() >= 2 ? parts[1] : ""\<close>, ...\<close>

definition part :: "cstring list \<Rightarrow> nat \<Rightarrow> cstring" where
  "part ps i = (if i < length ps then ps ! i else [])"

definition readByteArray :: "byte list rd" where
  "readByteArray = bnd readInt32 (\<lambda>len.
     if sint len > 0 then bnd (loop len (readBytes 1)) (\<lambda>bs. ret (concat bs))
     else fail ByteArrayLength)"

definition tellg :: "nat rd" where
  "tellg s = Inr (cursor s, s)"

definition seekg_end :: "unit rd" where
  "seekg_end s = Inr ((), s\<lparr>cursor := length (input s)\<rparr>)"

definition seekg :: "nat \<Rightarrow> unit rd" where
  "seekg p s = Inr ((), s\<lparr>cursor := p\<rparr>)"

text \<open>The body of the first loop (lines 1604-1614): the mod that a mod string stands for.\<close>

definition modOfString :: "cstring \<Rightarrow> Mod" where
  "modOfString string =
     \<lparr>mod_name = part (splitString string modDelimiter) 0,
      mod_version = part (splitString string modDelimiter) 1,
      mod_settings = part (splitString string modDelimiter) 2\<rparr>"

definition deserializeMod :: "Mod rd" where
  "deserializeMod = bnd readString (\<lambda>string. ret (modOfString string))"

text \<open>One turn of the second loop: \<open>None\<close> is the \<^verbatim>\<open>continue\<close> of an empty name.\<close>

definition deserializeModSaveData :: "ModSaveData option rd" where
  "deserializeModSaveData = bnd readString (\<lambda>modIdentifier.
     if part (splitString modIdentifier modDelimiter) 0 = [] then ret None
     else bnd readByteArray (\<lambda>customModSaveData.
       ret (Some \<lparr>msd_data = customModSaveData,
                  msd_name = part (splitString modIdentifier modDelimiter) 0,
                  msd_version = part (splitString modIdentifier modDelimiter) 1\<rparr>)))"

text \<open>The statements after the end-of-stream probe (lines 1624-1649).\<close>

definition deserializeExtraSaveData :: "Mod list \<Rightarrow> ModData rd" where
  "deserializeExtraSaveData ms =
     bnd readInt32 (\<lambda>extraSaveDataCount.
     if extraSaveDataCount = 0 then ret \<lparr>mods = ms, mod_save_data = []\<rparr>
     else bnd (intc (sint extraSaveDataCount)) (\<lambda>_.
          bnd (loop extraSaveDataCount deserializeModSaveData) (\<lambda>ds.
            ret \<lparr>mods = ms, mod_save_data = List.map_filter id ds\<rparr>)))"

definition deserializePTFModData :: "ModData rd" where
  "deserializePTFModData =
     bnd readInt16 (\<lambda>count.
     bnd (intc (sint count)) (\<lambda>_.
     bnd (rep (nat (sint count)) deserializeMod) (\<lambda>ms.
     bnd tellg (\<lambda>p.
     bnd seekg_end (\<lambda>_.
     bnd tellg (\<lambda>e.
     if p = e then ret \<lparr>mods = ms, mod_save_data = []\<rparr>
     else bnd (seekg p) (\<lambda>_. deserializeExtraSaveData ms)))))))"

subsection \<open>\<^verbatim>\<open>SlotDeserializer\<close> (lines 2294-2744)\<close>

datatype EntryType =
    InvalidType | String | Guid | Integer | FloatingPoint | Boolean | Null | StartOfNode
  | EndOfNodeType | InternalReference | ExternalReferenceByIndex | ExternalReferenceByGuid
  | StartOfArrayType | EndOfArrayType | PrimitiveArrayType | EndOfStreamType
  | ExternalReferenceByString

type_synonym EntryTypeReturn = "EntryType \<times> cstring"

text \<open>\<^verbatim>\<open>file.get()\<close>: the next byte, or \<open>None\<close> for \<^verbatim>\<open>EOF\<close>.\<close>

definition file_get :: "byte option rd" where
  "file_get s =
     (if cursor s < length (input s)
      then Inr (Some (input s ! cursor s), s\<lparr>cursor := cursor s + 1\<rparr>)
      else Inr (None, s))"

definition slot_readInt :: "int32 rd" where
  "slot_readInt = bnd (readBytes 4) (\<lambda>bs. ret (word32_le bs))"

text \<open>
  \<^verbatim>\<open>std::wstring_convert<std::codecvt_utf8_utf16<char16_t>, char16_t>::to_bytes\<close> is the
  standard library's conversion of UTF-16 to UTF-8; it throws on an unpaired surrogate.
  It is modelled by the Unicode definition of the two encodings.
\<close>

definition utf8_encode :: "nat \<Rightarrow> byte list" where
  "utf8_encode cp =
     (if cp < 0x80 then [of_nat cp]
      else if cp < 0x800 then [of_nat (0xC0 + cp div 64), of_nat (0x80 + cp mod 64)]
      else if cp < 0x10000 then
        [of_nat (0xE0 + cp div 4096), of_nat (0x80 + cp div 64 mod 64), of_nat (0x80 + cp mod 64)]
      else
        [of_nat (0xF0 + cp div 262144), of_nat (0x80 + cp div 4096 mod 64),
         of_nat (0x80 + cp div 64 mod 64), of_nat (0x80 + cp mod 64)])"

fun utf16_to_utf8 :: "nat list \<Rightarrow> byte list option" where
  "utf16_to_utf8 [] = Some []"
| "utf16_to_utf8 (u # us) =
     (if 0xD800 \<le> u \<and> u < 0xDC00 then
        (case us of
           [] \<Rightarrow> None
         | l # r \<Rightarrow>
             if 0xDC00 \<le> l \<and> l < 0xE000
             then map_option ((@) (utf8_encode (0x10000 + (u - 0xD800) * 1024 + (l - 0xDC00))))
                    (utf16_to_utf8 r)
             else None)
      else if 0xDC00 \<le> u \<and> u < 0xE000 then None
      else map_option ((@) (utf8_encode u)) (utf16_to_utf8 us))"

text \<open>The \<^verbatim>\<open>char16_t\<close> units of a byte buffer filled by \<^verbatim>\<open>file.read((char*)&str[0], length * 2)\<close>.\<close>

fun units_le :: "byte list \<Rightarrow> nat list" where
  "units_le (a # b # r) = unat (word16_le [a, b]) # units_le r"
| "units_le _ = []"

text \<open>
  \<^verbatim>\<open>new char[num2]\<close> and \<^verbatim>\<open>std::u16string(length, 0)\<close> throw for a negative length
  (\<open>BadLength\<close>). For a length of \<open>2^30\<close> or more \<^verbatim>\<open>length * 2\<close> overflows \<^verbatim>\<open>int\<close> in the
  source; the model asks for that many bytes.
\<close>

definition slot_readString :: "cstring rd" where
  "slot_readString = bnd file_get (\<lambda>num.
     case num of
       None \<Rightarrow> ret []
     | Some d \<Rightarrow>
         if d = 0 then
           bnd slot_readInt (\<lambda>num2.
             if sint num2 < 0 then fail BadLength else readBytes (nat (sint num2)))
         else if d = 1 then
           bnd slot_readInt (\<lambda>len.
             if sint len < 0 then fail BadLength
             else bnd (readBytes (2 * nat (sint len))) (\<lambda>bs.
               case utf16_to_utf8 (units_le bs) of
                 None \<Rightarrow> fail BadUtf16
               | Some str \<Rightarrow> ret str))
         else ret [])"

text \<open>The \<^verbatim>\<open>switch\<close> of \<^verbatim>\<open>peekEntryType\<close> over \<^verbatim>\<open>BinaryEntryType\<close>, case by case.\<close>

datatype tagkind = Named EntryType | Unnamed EntryType | NotPeekable | UnknownTag

definition entryOfTag :: "byte \<Rightarrow> tagkind" where
  "entryOfTag bt =
     (if bt = 0x01 \<or> bt = 0x03 then Named StartOfNode
      else if bt = 0x02 \<or> bt = 0x04 then Unnamed StartOfNode
      else if bt = 0x05 then Unnamed EndOfNodeType
      else if bt = 0x06 then Unnamed StartOfArrayType
      else if bt = 0x07 then Unnamed EndOfArrayType
      else if bt = 0x08 then Unnamed PrimitiveArrayType
      else if bt = 0x09 then Named InternalReference
      else if bt = 0x0A then Unnamed InternalReference
      else if bt = 0x0B then Named ExternalReferenceByIndex
      else if bt = 0x0C then Unnamed ExternalReferenceByIndex
      else if bt = 0x0D then Named ExternalReferenceByGuid
      else if bt = 0x0E then Unnamed ExternalReferenceByGuid
      else if bt = 0x0F then Named Integer
      else if bt = 0x10 then Unnamed Integer
      else if bt = 0x11 then Named Integer
      else if bt = 0x12 then Unnamed Integer
      else if bt = 0x13 then Named Integer
      else if bt = 0x14 then Unnamed Integer
      else if bt = 0x15 then Named Integer
      else if bt = 0x16 then Unnamed Integer
      else if bt = 0x17 then Named Integer
      else if bt = 0x18 then Unnamed Integer
      else if bt = 0x19 then Named Integer
      else if bt = 0x1A then Unnamed Integer
      else if bt = 0x1B then Named Integer
      else if bt = 0x1C then Unnamed Integer
      else if bt = 0x1D then Named Integer
      else if bt = 0x1E then Unnamed Integer
      else if bt = 0x1F then Named FloatingPoint
      else if bt = 0x20 then Unnamed FloatingPoint
      else if bt = 0x21 then Named FloatingPoint
      else if bt = 0x22 then Unnamed FloatingPoint
      else if bt = 0x23 then Named FloatingPoint
      else if bt = 0x24 then Unnamed FloatingPoint
      else if bt = 0x25 then Named String
      else if bt = 0x26 then Unnamed String
      else if bt = 0x27 then Named String
      else if bt = 0x28 then Unnamed String
      else if bt = 0x29 then Named Guid
      else if bt = 0x2A then Unnamed Guid
      else if bt = 0x2B then Named Boolean
      else if bt = 0x2C then Unnamed Boolean
      else if bt = 0x2D then Named Null
      else if bt = 0x2E then Unnamed Null
      else if bt = 0x2F \<or> bt = 0x30 then NotPeekable
      else if bt = 0x31 then Unnamed EndOfStreamType
      else if bt = 0x32 then Named ExternalReferenceByString
      else if bt = 0x33 then Unnamed ExternalReferenceByString
      else UnknownTag)"

definition peekEntryType :: "EntryTypeReturn rd" where
  "peekEntryType = bnd file_get (\<lambda>c.
     case c of
       None \<Rightarrow> ret (EndOfStreamType, [])
     | Some bt \<Rightarrow>
         (case entryOfTag bt of
            Named t \<Rightarrow> bnd slot_readString (\<lambda>name. ret (t, name))
          | Unnamed t \<Rightarrow> ret (t, [])
          | NotPeekable \<Rightarrow> fail CannotPeekTypeEntry
          | UnknownTag \<Rightarrow> ret (InvalidType, [])))"

text \<open>\<^verbatim>\<open>std::getline(ss, item, ',')\<close> until it fails: the parts between commas, without a
  last empty part.\<close>

definition getlines :: "cstring \<Rightarrow> cstring list" where
  "getlines s = (let ps = splitFrom 0x2C [] [] s in if last ps = [] then butlast ps else ps)"

type_synonym TypeEntryReturn = "cstring \<times> cstring"

definition readTypeEntry :: "TypeEntryReturn rd" where
  "readTypeEntry = bnd file_get (\<lambda>num.
     case num of
       None \<Rightarrow> ret ([], [])
     | Some bt \<Rightarrow>
         if bt = 0x2F then
           bnd slot_readInt (\<lambda>key. bnd slot_readString (\<lambda>type_name.
             if length (getlines type_name) \<noteq> 2 then fail BadTypeName
             else ret (getlines type_name ! 0, drop 1 (getlines type_name ! 1))))
         else if bt = 0x30 then ret ([], [])
         else fail UnknownTypeEntry)"

definition slot_readBool :: "bool rd" where
  "slot_readBool = bnd file_get (\<lambda>c. ret (c = Some 1))"

text \<open>\<^verbatim>\<open>readLong\<close>: eight \<^verbatim>\<open>file.get()\<close>, each cast to \<^verbatim>\<open>uint64_t\<close> (\<^verbatim>\<open>EOF\<close> is \<open>-1\<close>),
  shifted and or-ed.\<close>

definition get64 :: "64 word rd" where
  "get64 = bnd file_get (\<lambda>c. ret (case c of None \<Rightarrow> - 1 | Some b \<Rightarrow> ucast b))"

definition readLong :: "64 word rd" where
  "readLong =
     bnd get64 (\<lambda>b0. bnd get64 (\<lambda>b1. bnd get64 (\<lambda>b2. bnd get64 (\<lambda>b3.
     bnd get64 (\<lambda>b4. bnd get64 (\<lambda>b5. bnd get64 (\<lambda>b6. bnd get64 (\<lambda>b7.
       ret (b0 OR push_bit 8 b1 OR push_bit 16 b2 OR push_bit 24 b3 OR push_bit 32 b4 OR
            push_bit 40 b5 OR push_bit 48 b6 OR push_bit 56 b7)))))))))"

definition enterNode :: "unit rd" where
  "enterNode = bnd peekEntryType (\<lambda>et.
     if fst et = StartOfNode
     then bnd readTypeEntry (\<lambda>type. bnd slot_readInt (\<lambda>id. ret ()))
     else ret ())"

definition c_assert :: "bool \<Rightarrow> unit rd" where
  "c_assert b = (if b then ret () else fail AssertionFailed)"

record SaveSlot =
  slot_version :: int32
  slot_physicsVersion :: int32
  slot_slotId :: int32
  slot_displayName :: cstring
  slot_fileName :: cstring
  slot_budget :: int32
  slot_lastWriteTimeTicks :: "64 word"
  slot_bridge :: Bridge
  slot_unlimitedMaterials :: bool
  slot_unlimitedBudget :: bool
  slot_thumbnail :: "byte list option"

text \<open>
  The bridge payload: \<^verbatim>\<open>num * num2\<close> bytes are read into a fresh buffer and decoded by a
  \<^verbatim>\<open>SimpleBridgeDeserializer\<close> that starts at offset 0 of it; the guard's counter is the
  process-wide one.
\<close>

definition readPrimitiveArray :: "byte list rd" where
  "readPrimitiveArray = bnd slot_readInt (\<lambda>num. bnd slot_readInt (\<lambda>num2.
     if sint (num * num2) < 0 then fail BadLength else readBytes (nat (sint (num * num2)))))"

definition onBuffer :: "byte list \<Rightarrow> 'a rd \<Rightarrow> 'a rd" where
  "onBuffer buf m s =
     (case m \<lparr>input = buf, cursor = 0, unusualNumbers = unusualNumbers s\<rparr> of
        Inl (e, t) \<Rightarrow> Inl (e, s\<lparr>unusualNumbers := unusualNumbers t\<rparr>)
      | Inr (x, t) \<Rightarrow> Inr (x, s\<lparr>unusualNumbers := unusualNumbers t\<rparr>))"

definition readThumbnail :: "byte list option rd" where
  "readThumbnail = bnd peekEntryType (\<lambda>et.
     bnd (c_assert (snd et = ascii ''m_Thumb'')) (\<lambda>_.
     if fst et = Null then ret None
     else
       bnd file_get (\<lambda>_. bnd slot_readInt (\<lambda>_. bnd slot_readInt (\<lambda>node_id.
       bnd peekEntryType (\<lambda>et.
       bnd (c_assert (fst et = PrimitiveArrayType)) (\<lambda>_.
       bnd slot_readInt (\<lambda>num. bnd slot_readInt (\<lambda>num2.
       bnd (ensureReasonable (sint (num * num2)) 0 10000000 0 10000000) (\<lambda>_.
       bnd (if sint (num * num2) < 0 then fail BadLength
            else readBytes (nat (sint (num * num2)))) (\<lambda>thumbnail_data.
       bnd peekEntryType (\<lambda>et.
       bnd (c_assert (fst et = EndOfNodeType)) (\<lambda>_.
         ret (Some thumbnail_data))))))))))))))"

text \<open>
  \<^verbatim>\<open>deserializeSlot\<close> is one function in the source. It is cut here into its consecutive
  stages: the scalar fields, which fill \<^verbatim>\<open>SaveSlot slot;\<close> one by one, the bridge
  container, the thumbnail (above), and the two flags with the end of the root node.
\<close>

definition emptySlot :: SaveSlot where
  "emptySlot = \<lparr>slot_version = 0, slot_physicsVersion = 0, slot_slotId = 0,
     slot_displayName = [], slot_fileName = [], slot_budget = 0, slot_lastWriteTimeTicks = 0,
     slot_bridge = emptyBridge, slot_unlimitedMaterials = False, slot_unlimitedBudget = False,
     slot_thumbnail = None\<rparr>"

definition slotVersion :: "int32 rd" where
  "slotVersion =
     bnd peekEntryType (\<lambda>et.
     bnd (c_assert (fst et = Integer)) (\<lambda>_.
     bnd (c_assert (snd et = ascii ''m_Version'')) (\<lambda>_.
     bnd slot_readInt (\<lambda>version.
     bnd (intc (sint version)) (\<lambda>_. ret version)))))"

definition slotPhysicsVersion :: "int32 rd" where
  "slotPhysicsVersion =
     bnd peekEntryType (\<lambda>et.
     bnd (c_assert (fst et = Integer)) (\<lambda>_.
     bnd (c_assert (snd et = ascii ''m_PhysicsVersion'')) (\<lambda>_.
     bnd slot_readInt (\<lambda>physics_version.
     bnd (intc (sint physics_version)) (\<lambda>_. ret physics_version)))))"

definition slotId :: "int32 rd" where
  "slotId =
     bnd peekEntryType (\<lambda>et.
     bnd (c_assert (fst et = Integer)) (\<lambda>_.
     bnd (c_assert (snd et = ascii ''m_SlotID'')) (\<lambda>_.
     bnd slot_readInt (\<lambda>slot_id.
     bnd (intc (sint slot_id)) (\<lambda>_. ret slot_id)))))"

definition slotDisplayName :: "cstring rd" where
  "slotDisplayName =
     bnd peekEntryType (\<lambda>et.
     bnd (c_assert (fst et = String)) (\<lambda>_.
     bnd (c_assert (snd et = ascii ''m_DisplayName'')) (\<lambda>_. slot_readString)))"

definition slotFilename :: "cstring rd" where
  "slotFilename =
     bnd peekEntryType (\<lambda>et.
     bnd (c_assert (fst et = String)) (\<lambda>_.
     bnd (c_assert (snd et = ascii ''m_SlotFilename'')) (\<lambda>_. slot_readString)))"

definition slotBudget :: "int32 rd" where
  "slotBudget =
     bnd peekEntryType (\<lambda>et.
     bnd (c_assert (fst et = Integer)) (\<lambda>_.
     bnd (c_assert (snd et = ascii ''m_Budget'')) (\<lambda>_.
     bnd slot_readInt (\<lambda>budget.
     bnd (ensureReasonable (sint budget) 0 10000000 0 10000000) (\<lambda>_. ret budget)))))"

definition slotLastWriteTime :: "64 word rd" where
  "slotLastWriteTime =
     bnd peekEntryType (\<lambda>et.
     bnd (c_assert (fst et = Integer)) (\<lambda>_.
     bnd (c_assert (snd et = ascii ''m_LastWriteTimeTicks'')) (\<lambda>_. readLong)))"

definition slotScalars :: "SaveSlot rd" where
  "slotScalars =
     bnd slotVersion (\<lambda>version.
     bnd slotPhysicsVersion (\<lambda>physics_version.
     bnd slotId (\<lambda>slot_id.
     bnd slotDisplayName (\<lambda>slot_name.
     bnd slotFilename (\<lambda>slot_filename.
     bnd slotBudget (\<lambda>budget.
     bnd slotLastWriteTime (\<lambda>last_write_time.
       ret (emptySlot\<lparr>slot_version := version, slot_physicsVersion := physics_version,
            slot_slotId := slot_id, slot_displayName := slot_name,
            slot_fileName := slot_filename, slot_budget := budget,
            slot_lastWriteTimeTicks := last_write_time\<rparr>))))))))"

definition slotBridge :: "(cfloat \<Rightarrow> cfloat) \<Rightarrow> Bridge rd" where
  "slotBridge fixp =
     bnd enterNode (\<lambda>_.
     bnd peekEntryType (\<lambda>et.
     bnd (c_assert (fst et = PrimitiveArrayType)) (\<lambda>_.
     bnd readPrimitiveArray (\<lambda>bridge_data.
     bnd (ensureReasonable (int (length bridge_data)) 0 100000000 0 100000000) (\<lambda>_.
     bnd (onBuffer bridge_data (simple_deserializeBridge fixp)) (\<lambda>bridge.
     bnd peekEntryType (\<lambda>et.
     bnd (c_assert (fst et = EndOfNodeType)) (\<lambda>_. ret bridge))))))))"

definition slotFlag :: "cstring \<Rightarrow> bool rd" where
  "slotFlag name =
     bnd peekEntryType (\<lambda>et.
     bnd (c_assert (snd et = name)) (\<lambda>_.
     bnd (c_assert (fst et = Boolean)) (\<lambda>_. slot_readBool)))"

definition deserializeSlot :: "(cfloat \<Rightarrow> cfloat) \<Rightarrow> SaveSlot rd" where
  "deserializeSlot fixp =
     bnd enterNode (\<lambda>_.
     bnd slotScalars (\<lambda>slot.
     bnd (slotBridge fixp) (\<lambda>bridge.
     bnd readThumbnail (\<lambda>thumbnail.
     bnd (slotFlag (ascii ''m_UsingUnlimitedMaterials'')) (\<lambda>unlimited_materials.
     bnd (slotFlag (ascii ''m_UsingUnlimitedBudget'')) (\<lambda>unlimited_budget.
     bnd peekEntryType (\<lambda>et.
     bnd (c_assert (fst et = EndOfNodeType)) (\<lambda>_.
       ret (slot\<lparr>slot_bridge := bridge, slot_thumbnail := thumbnail,
            slot_unlimitedMaterials := unlimited_materials,
            slot_unlimitedBudget := unlimited_budget\<rparr>)))))))))"

subsection \<open>The layout structs\<close>

record Quaternion =
  quat_x :: cfloat
  quat_y :: cfloat
  quat_z :: cfloat
  quat_w :: cfloat

record Color =
  color_r :: cfloat
  color_g :: cfloat
  color_b :: cfloat
  color_a :: cfloat

record HydraulicPhase =
  hp_time_delay :: cfloat
  hp_guid :: cstring

record ZAxisVehicle =
  zav_pos :: Vec2
  zav_prefab_name :: cstring
  zav_guid :: cstring
  zav_time_delay :: cfloat
  zav_speed :: cfloat
  zav_rot :: Quaternion
  zav_rotation_degrees :: cfloat

record Vehicle =
  veh_display_name :: cstring
  veh_pos :: Vec2
  veh_rot :: Quaternion
  veh_prefab_name :: cstring
  veh_target_speed :: cfloat
  veh_mass :: cfloat
  veh_braking_force_multiplier :: cfloat
  veh_strength_method :: int32
  veh_acceleration :: cfloat
  veh_max_slope :: cfloat
  veh_desired_acceleration :: cfloat
  veh_shocks_multiplier :: cfloat
  veh_rotation_degrees :: cfloat
  veh_time_delay :: cfloat
  veh_idle_on_downhill :: bool
  veh_flipped :: bool
  veh_ordered_checkpoints :: bool
  veh_guid :: cstring
  veh_checkpoint_guids :: "cstring list"

record VehicleStopTrigger =
  vst_pos :: Vec2
  vst_rot :: Quaternion
  vst_height :: cfloat
  vst_rotation_degrees :: cfloat
  vst_flipped :: bool
  vst_prefab_name :: cstring
  vst_stop_vehicle_guid :: cstring

record ThemeObject =
  tob_pos :: Vec2
  tob_prefab_name :: cstring
  tob_unknown_value :: bool

record EventUnit =
  eu_guid :: cstring

record EventStage =
  es_units :: "EventUnit list"

record EventTimeline =
  etl_checkpoint_guid :: cstring
  etl_stages :: "EventStage list"

record Checkpoint =
  cp_pos :: Vec2
  cp_prefab_name :: cstring
  cp_vehicle_guid :: cstring
  cp_vehicle_restart_phase_guid :: cstring
  cp_trigger_timeline :: bool
  cp_stop_vehicle :: bool
  cp_reverse_vehicle_on_restart :: bool
  cp_guid :: cstring

record Platform =
  pf_pos :: Vec2
  pf_width :: cfloat
  pf_height :: cfloat
  pf_flipped :: bool
  pf_solid :: bool

record TerrainIsland =
  ti_pos :: Vec3
  ti_prefab_name :: cstring
  ti_height_added :: cfloat
  ti_right_edge_water_height :: cfloat
  ti_terrain_island_type :: int32
  ti_variant_index :: int32
  ti_flipped :: bool
  ti_lock_position :: bool

record Ramp =
  ramp_pos :: Vec2
  ramp_control_points :: "Vec2 list"
  ramp_height :: cfloat
  ramp_num_segments :: int32
  ramp_spline_type :: int32
  ramp_flipped_vertical :: bool
  ramp_flipped_horizontal :: bool
  ramp_hide_legs :: bool
  ramp_flipped_legs :: bool
  ramp_line_points :: "Vec2 list"

record VehicleRestartPhase =
  vrp_time_delay :: cfloat
  vrp_guid :: cstring
  vrp_vehicle_guid :: cstring

record FlyingObject =
  fo_pos :: Vec3
  fo_scale :: Vec3
  fo_prefab_name :: cstring

record Rock =
  rock_pos :: Vec3
  rock_scale :: Vec3
  rock_prefab_name :: cstring
  rock_flipped :: bool

record WaterBlock =
  wb_pos :: Vec3
  wb_width :: cfloat
  wb_height :: cfloat
  wb_lock_position :: bool

record Budget =
  budget_cash :: int32
  budget_road :: int32
  budget_wood :: int32
  budget_steel :: int32
  budget_hydraulics :: int32
  budget_rope :: int32
  budget_cable :: int32
  budget_bungee_rope :: int32
  budget_spring :: int32
  budget_allow_wood :: bool
  budget_allow_steel :: bool
  budget_allow_hydraulics :: bool
  budget_allow_rope :: bool
  budget_allow_cable :: bool
  budget_allow_spring :: bool
  budget_allow_reinforced_road :: bool

record Settings =
  settings_hydraulics_controller_enabled :: bool
  settings_unbreakable :: bool

record CustomShape =
  cs_pos :: Vec3
  cs_rot :: Quaternion
  cs_scale :: Vec3
  cs_flipped :: bool
  cs_dynamic :: bool
  cs_collides_with_road :: bool
  cs_collides_with_nodes :: bool
  cs_collides_with_split_nodes :: bool
  cs_rotation_degrees :: cfloat
  cs_color :: Color
  cs_mass :: cfloat
  cs_bounciness :: cfloat
  cs_pin_motor_strength :: cfloat
  cs_pin_target_velocity :: cfloat
  cs_points_local_space :: "Vec2 list"
  cs_static_pins :: "Vec3 list"
  cs_dynamic_anchor_guids :: "cstring list"

record Workshop =
  ws_id :: cstring
  ws_leaderboard_id :: cstring
  ws_title :: cstring
  ws_description :: cstring
  ws_autoplay :: bool
  ws_tags :: "cstring list"

record SupportPillar =
  sp_pos :: Vec3
  sp_scale :: Vec3
  sp_prefab_name :: cstring

record Pillar =
  pillar_pos :: Vec3
  pillar_height :: cfloat
  pillar_prefab_name :: cstring

record Layout =
  layout_version :: int32
  layout_stubKey :: cstring
  layout_anchors :: "BridgeJoint list"
  layout_phases :: "HydraulicPhase list"
  layout_bridge :: Bridge
  layout_zAxisVehicles :: "ZAxisVehicle list"
  layout_vehicles :: "Vehicle list"
  layout_vehicleStopTriggers :: "VehicleStopTrigger list"
  layout_themeObjects_OBSOLETE :: "ThemeObject list"
  layout_eventTimelines :: "EventTimeline list"
  layout_checkpoints :: "Checkpoint list"
  layout_platforms :: "Platform list"
  layout_terrainStretches :: "TerrainIsland list"
  layout_ramps :: "Ramp list"
  layout_vehicleRestartPhases :: "VehicleRestartPhase list"
  layout_flyingObjects :: "FlyingObject list"
  layout_rocks :: "Rock list"
  layout_waterBlocks :: "WaterBlock list"
  layout_budget :: Budget
  layout_settings :: Settings
  layout_customShapes :: "CustomShape list"
  layout_workshop :: Workshop
  layout_supportPillars :: "SupportPillar list"
  layout_pillars :: "Pillar list"
  layout_isModded :: bool
  layout_modData :: ModData

text \<open>\<^verbatim>\<open>Layout layout;\<close>: every member is value-initialised.\<close>

definition emptyLayout :: Layout where
  "emptyLayout = \<lparr>layout_version = 0, layout_stubKey = [], layout_anchors = [],
     layout_phases = [], layout_bridge = emptyBridge, layout_zAxisVehicles = [],
     layout_vehicles = [], layout_vehicleStopTriggers = [], layout_themeObjects_OBSOLETE = [],
     layout_eventTimelines = [], layout_checkpoints = [], layout_platforms = [],
     layout_terrainStretches = [], layout_ramps = [], layout_vehicleRestartPhases = [],
     layout_flyingObjects = [], layout_rocks = [], layout_waterBlocks = [],
     layout_budget = \<lparr>budget_cash = 0, budget_road = 0, budget_wood = 0, budget_steel = 0,
       budget_hydraulics = 0, budget_rope = 0, budget_cable = 0, budget_bungee_rope = 0,
       budget_spring = 0, budget_allow_wood = False, budget_allow_steel = False,
       budget_allow_hydraulics = False, budget_allow_rope = False, budget_allow_cable = False,
       budget_allow_spring = False, budget_allow_reinforced_road = False\<rparr>,
     layout_settings = \<lparr>settings_hydraulics_controller_enabled = False,
       settings_unbreakable = False\<rparr>,
     layout_customShapes = [],
     layout_workshop = \<lparr>ws_id = [], ws_leaderboard_id = [], ws_title = [],
       ws_description = [], ws_autoplay = False, ws_tags = []\<rparr>,
     layout_supportPillars = [], layout_pillars = [], layout_isModded = False,
     layout_modData = \<lparr>mods = [], mod_save_data = []\<rparr>\<rparr>"

subsection \<open>\<^verbatim>\<open>Deserializer::deserializeLayout\<close> and its readers (lines 633-796, 870-1596)\<close>

text \<open>
  The float constants of the source, as bit patterns: \<^verbatim>\<open>0.0f\<close>, \<^verbatim>\<open>0.5f\<close>, \<^verbatim>\<open>1.0f\<close>,
  \<^verbatim>\<open>40.0f\<close> and \<^verbatim>\<open>-1.348f\<close>. \<^verbatim>\<open>std::abs\<close> of a float is \<open>f_abs\<close>. The colour
  conversion \<^verbatim>\<open>(float)byte / 255.0f\<close> is float arithmetic and is the parameter \<open>ofByte\<close>
  of the readers, as \<open>fixp\<close> is for the piston correction.
\<close>

definition f_zero :: cfloat where "f_zero = 0"
definition f_half :: cfloat where "f_half = 0x3F000000"
definition f_one :: cfloat where "f_one = 0x3F800000"
definition f_forty :: cfloat where "f_forty = 0x42200000"
definition f_pin_z :: cfloat where "f_pin_z = 0xBFAC8B44"


definition zeroQuaternion :: Quaternion where
  "zeroQuaternion = \<lparr>quat_x = 0, quat_y = 0, quat_z = 0, quat_w = 0\<rparr>"

definition zeroColor :: Color where
  "zeroColor = \<lparr>color_r = 0, color_g = 0, color_b = 0, color_a = 0\<rparr>"

text \<open>\<^verbatim>\<open>version = -version\<close> on \<^verbatim>\<open>int\<close>: two's-complement negation, which maps
  \<open>-2^31\<close> to itself (the overflow is undefined in C++ and wraps on the targets).\<close>

definition getVersion :: "(int32 \<times> bool) rd" where
  "getVersion = bnd readInt32 (\<lambda>version.
     if sint version < 0 then ret (- version, True) else ret (version, False))"

definition getStubKey :: "cstring rd" where
  "getStubKey = readString"

definition readColor :: "(byte \<Rightarrow> cfloat) \<Rightarrow> Color rd" where
  "readColor ofByte = bnd readByte (\<lambda>r. bnd readByte (\<lambda>g. bnd readByte (\<lambda>b.
     ret \<lparr>color_r = ofByte r, color_g = ofByte g, color_b = ofByte b, color_a = f_one\<rparr>)))"

definition readQuaternion :: "Quaternion rd" where
  "readQuaternion = bnd readFloat (\<lambda>x. bnd readFloat (\<lambda>y. bnd readFloat (\<lambda>z.
     bnd readFloat (\<lambda>w. ret \<lparr>quat_x = x, quat_y = y, quat_z = z, quat_w = w\<rparr>))))"

definition deserializeAnchors :: "BridgeJoint list rd" where
  "deserializeAnchors = counted deserializeAnchor"

definition deserializePhase :: "HydraulicPhase rd" where
  "deserializePhase = bnd readFloat (\<lambda>t. bnd readString (\<lambda>g.
     ret \<lparr>hp_time_delay = t, hp_guid = g\<rparr>))"

definition deserializePhases :: "HydraulicPhase list rd" where
  "deserializePhases = counted deserializePhase"

definition deserializeZAxisVehicle :: "int32 \<Rightarrow> ZAxisVehicle rd" where
  "deserializeZAxisVehicle version =
     bnd readVec2 (\<lambda>p. bnd readString (\<lambda>n. bnd readString (\<lambda>g. bnd readFloat (\<lambda>t.
     bnd (if sint version \<ge> 8 then readFloat else ret f_zero) (\<lambda>sp.
     bnd (if sint version \<ge> 26
          then bnd readQuaternion (\<lambda>q. bnd readFloat (\<lambda>d. ret (q, d)))
          else ret (zeroQuaternion, f_zero)) (\<lambda>rd.
       ret \<lparr>zav_pos = p, zav_prefab_name = n, zav_guid = g, zav_time_delay = t,
            zav_speed = sp, zav_rot = fst rd, zav_rotation_degrees = snd rd\<rparr>))))))"

definition deserializeZAxisVehicles :: "int32 \<Rightarrow> ZAxisVehicle list rd" where
  "deserializeZAxisVehicles version = counted (deserializeZAxisVehicle version)"

definition read3Floats :: "(cfloat \<times> cfloat \<times> cfloat) rd" where
  "read3Floats = bnd readFloat (\<lambda>a. bnd readFloat (\<lambda>b. bnd readFloat (\<lambda>c. ret (a, b, c))))"

definition read3Bools :: "(bool \<times> bool \<times> bool) rd" where
  "read3Bools = bnd readBool (\<lambda>a. bnd readBool (\<lambda>b. bnd readBool (\<lambda>c. ret (a, b, c))))"

text \<open>\<^verbatim>\<open>deserializeVehicle\<close>; \<open>read3Floats\<close> stands for three consecutive
  \<^verbatim>\<open>readFloat()\<close> statements, \<open>read3Bools\<close> for three \<^verbatim>\<open>readBool()\<close>.\<close>

definition deserializeVehicle :: "Vehicle rd" where
  "deserializeVehicle =
     bnd readString (\<lambda>dn. bnd readVec2 (\<lambda>p. bnd readQuaternion (\<lambda>q. bnd readString (\<lambda>pn.
     bnd read3Floats (\<lambda>f1. bnd readInt32 (\<lambda>sm. bnd read3Floats (\<lambda>f2.
     bnd read3Floats (\<lambda>f3. bnd read3Bools (\<lambda>bs. bnd readString (\<lambda>g.
     bnd (countedQuiet readString) (\<lambda>cps.
       ret \<lparr>veh_display_name = dn, veh_pos = p, veh_rot = q, veh_prefab_name = pn,
            veh_target_speed = fst f1, veh_mass = fst (snd f1),
            veh_braking_force_multiplier = snd (snd f1), veh_strength_method = sm,
            veh_acceleration = fst f2, veh_max_slope = fst (snd f2),
            veh_desired_acceleration = snd (snd f2), veh_shocks_multiplier = fst f3,
            veh_rotation_degrees = fst (snd f3), veh_time_delay = snd (snd f3),
            veh_idle_on_downhill = fst bs, veh_flipped = fst (snd bs),
            veh_ordered_checkpoints = snd (snd bs), veh_guid = g,
            veh_checkpoint_guids = cps\<rparr>)))))))))))"

definition deserializeVehicles :: "Vehicle list rd" where
  "deserializeVehicles = counted deserializeVehicle"

definition deserializeVehicleStopTrigger :: "VehicleStopTrigger rd" where
  "deserializeVehicleStopTrigger =
     bnd readVec2 (\<lambda>p. bnd readQuaternion (\<lambda>q. bnd readFloat (\<lambda>h. bnd readFloat (\<lambda>d.
     bnd readBool (\<lambda>f. bnd readString (\<lambda>n. bnd readString (\<lambda>g.
       ret \<lparr>vst_pos = p, vst_rot = q, vst_height = h, vst_rotation_degrees = d,
            vst_flipped = f, vst_prefab_name = n, vst_stop_vehicle_guid = g\<rparr>)))))))"

definition deserializeVehicleStopTriggers :: "VehicleStopTrigger list rd" where
  "deserializeVehicleStopTriggers = counted deserializeVehicleStopTrigger"

definition deserializeThemeObject_OBSOLETE :: "ThemeObject rd" where
  "deserializeThemeObject_OBSOLETE = bnd readVec2 (\<lambda>p. bnd readString (\<lambda>n. bnd readBool (\<lambda>u.
     ret \<lparr>tob_pos = p, tob_prefab_name = n, tob_unknown_value = u\<rparr>)))"

definition deserializeThemeObjects_OBSOLETE :: "ThemeObject list rd" where
  "deserializeThemeObjects_OBSOLETE = counted deserializeThemeObject_OBSOLETE"

text \<open>Below version 7 three strings are read and the last non-empty one is kept.\<close>

definition deserializeEventUnit :: "int32 \<Rightarrow> EventUnit rd" where
  "deserializeEventUnit version =
     (if sint version \<ge> 7 then bnd readString (\<lambda>g. ret \<lparr>eu_guid = g\<rparr>)
      else bnd readString (\<lambda>t1. bnd readString (\<lambda>t2. bnd readString (\<lambda>t3.
        ret \<lparr>eu_guid = (if t3 \<noteq> [] then t3 else if t2 \<noteq> [] then t2 else t1)\<rparr>))))"

definition deserializeEventStage :: "int32 \<Rightarrow> EventStage rd" where
  "deserializeEventStage version =
     bnd (countedQuiet (deserializeEventUnit version)) (\<lambda>us. ret \<lparr>es_units = us\<rparr>)"

definition deserializeEventTimeline :: "int32 \<Rightarrow> EventTimeline rd" where
  "deserializeEventTimeline version =
     bnd readString (\<lambda>g. bnd (countedQuiet (deserializeEventStage version)) (\<lambda>sts.
       ret \<lparr>etl_checkpoint_guid = g, etl_stages = sts\<rparr>))"

definition deserializeEventTimelines :: "int32 \<Rightarrow> EventTimeline list rd" where
  "deserializeEventTimelines version = counted (deserializeEventTimeline version)"

definition deserializeCheckpoint :: "Checkpoint rd" where
  "deserializeCheckpoint =
     bnd readVec2 (\<lambda>p. bnd readString (\<lambda>n. bnd readString (\<lambda>vg. bnd readString (\<lambda>rg.
     bnd readBool (\<lambda>tt. bnd readBool (\<lambda>sv. bnd readBool (\<lambda>rv. bnd readString (\<lambda>g.
       ret \<lparr>cp_pos = p, cp_prefab_name = n, cp_vehicle_guid = vg,
            cp_vehicle_restart_phase_guid = rg, cp_trigger_timeline = tt,
            cp_stop_vehicle = sv, cp_reverse_vehicle_on_restart = rv, cp_guid = g\<rparr>))))))))"

definition deserializeCheckpoints :: "Checkpoint list rd" where
  "deserializeCheckpoints = counted deserializeCheckpoint"

definition deserializePlatform :: "int32 \<Rightarrow> Platform rd" where
  "deserializePlatform version =
     bnd readVec2 (\<lambda>p. bnd readFloat (\<lambda>w. bnd readFloat (\<lambda>h. bnd readBool (\<lambda>f.
     bnd (if sint version \<ge> 22 then readBool else bnd readInt32 (\<lambda>_. ret False)) (\<lambda>so.
       ret \<lparr>pf_pos = p, pf_width = w, pf_height = h, pf_flipped = f, pf_solid = so\<rparr>)))))"

definition deserializePlatforms :: "int32 \<Rightarrow> Platform list rd" where
  "deserializePlatforms version = counted (deserializePlatform version)"

definition deserializeTerrainStretch :: "int32 \<Rightarrow> TerrainIsland rd" where
  "deserializeTerrainStretch version =
     bnd readVec3 (\<lambda>p. bnd readString (\<lambda>n. bnd readFloat (\<lambda>ha. bnd readFloat (\<lambda>wh.
     bnd readInt32 (\<lambda>ty. bnd readInt32 (\<lambda>vi. bnd readBool (\<lambda>f.
     bnd (if sint version \<ge> 6 then readBool else ret False) (\<lambda>lp.
       ret \<lparr>ti_pos = p, ti_prefab_name = n, ti_height_added = ha,
            ti_right_edge_water_height = wh, ti_terrain_island_type = ty,
            ti_variant_index = vi, ti_flipped = f, ti_lock_position = lp\<rparr>))))))))"

definition deserializeTerrainIslands :: "int32 \<Rightarrow> TerrainIsland list rd" where
  "deserializeTerrainIslands version = counted (deserializeTerrainStretch version)"

definition deserializeRamp :: "int32 \<Rightarrow> Ramp rd" where
  "deserializeRamp version =
     bnd readVec2 (\<lambda>p. bnd (countedQuiet readVec2) (\<lambda>cps. bnd readFloat (\<lambda>h.
     bnd readInt32 (\<lambda>ns. bnd readInt32 (\<lambda>st. bnd readBool (\<lambda>fv. bnd readBool (\<lambda>fh.
     bnd (if sint version \<ge> 23 then readBool else ret False) (\<lambda>hl.
     bnd (if sint version \<ge> 25 then readBool
          else if sint version \<ge> 22 then bnd readBool (\<lambda>_. ret False)
          else bnd readInt32 (\<lambda>_. ret False)) (\<lambda>fl.
     bnd (if sint version \<ge> 13 then countedQuiet readVec2 else ret []) (\<lambda>lps.
       ret \<lparr>ramp_pos = p, ramp_control_points = cps, ramp_height = f_abs h,
            ramp_num_segments = ns, ramp_spline_type = st, ramp_flipped_vertical = fv,
            ramp_flipped_horizontal = fh, ramp_hide_legs = hl, ramp_flipped_legs = fl,
            ramp_line_points = lps\<rparr>))))))))))"

definition deserializeRamps :: "int32 \<Rightarrow> Ramp list rd" where
  "deserializeRamps version = counted (deserializeRamp version)"

definition deserializeVehicleRestartPhase :: "VehicleRestartPhase rd" where
  "deserializeVehicleRestartPhase = bnd readFloat (\<lambda>t. bnd readString (\<lambda>g. bnd readString (\<lambda>vg.
     ret \<lparr>vrp_time_delay = t, vrp_guid = g, vrp_vehicle_guid = vg\<rparr>)))"

definition deserializeVehicleRestartPhases :: "VehicleRestartPhase list rd" where
  "deserializeVehicleRestartPhases = counted deserializeVehicleRestartPhase"

definition deserializeFlyingObject :: "FlyingObject rd" where
  "deserializeFlyingObject = bnd readVec3 (\<lambda>p. bnd readVec3 (\<lambda>sc. bnd readString (\<lambda>n.
     ret \<lparr>fo_pos = p, fo_scale = sc, fo_prefab_name = n\<rparr>)))"

definition deserializeFlyingObjects :: "FlyingObject list rd" where
  "deserializeFlyingObjects = counted deserializeFlyingObject"

definition deserializeRock :: "Rock rd" where
  "deserializeRock = bnd readVec3 (\<lambda>p. bnd readVec3 (\<lambda>sc. bnd readString (\<lambda>n. bnd readBool (\<lambda>f.
     ret \<lparr>rock_pos = p, rock_scale = sc, rock_prefab_name = n, rock_flipped = f\<rparr>))))"

definition deserializeRocks :: "Rock list rd" where
  "deserializeRocks = counted deserializeRock"

definition deserializeWaterBlock :: "int32 \<Rightarrow> WaterBlock rd" where
  "deserializeWaterBlock version =
     bnd readVec3 (\<lambda>p. bnd readFloat (\<lambda>w. bnd readFloat (\<lambda>h.
     bnd (if sint version \<ge> 12 then readBool else ret False) (\<lambda>lp.
       ret \<lparr>wb_pos = p, wb_width = w, wb_height = h, wb_lock_position = lp\<rparr>))))"

definition deserializeWaterBlocks :: "int32 \<Rightarrow> WaterBlock list rd" where
  "deserializeWaterBlocks version = counted (deserializeWaterBlock version)"

definition read4Ints :: "(int32 \<times> int32 \<times> int32 \<times> int32) rd" where
  "read4Ints = bnd readInt32 (\<lambda>a. bnd readInt32 (\<lambda>b. bnd readInt32 (\<lambda>c. bnd readInt32 (\<lambda>d.
     ret (a, b, c, d)))))"

definition read4Bools :: "(bool \<times> bool \<times> bool \<times> bool) rd" where
  "read4Bools = bnd readBool (\<lambda>a. bnd readBool (\<lambda>b. bnd readBool (\<lambda>c. bnd readBool (\<lambda>d.
     ret (a, b, c, d)))))"

text \<open>\<^verbatim>\<open>deserializeBudget\<close>: the cash, guarded with its own envelope, then road, wood,
  steel, hydraulics (\<open>read4Ints\<close>), rope, cable, spring, bungee rope (\<open>read4Ints\<close>),
  and the seven permissions (\<open>read4Bools\<close>, \<open>read3Bools\<close>).\<close>

definition deserializeBudget :: "Budget rd" where
  "deserializeBudget =
     bnd readInt32 (\<lambda>cash.
     bnd (ensureReasonable (sint cash) 0 100000000 0 100000000) (\<lambda>_.
     bnd read4Ints (\<lambda>m1. bnd read4Ints (\<lambda>m2. bnd read4Bools (\<lambda>a1.
     bnd read3Bools (\<lambda>a2.
       ret \<lparr>budget_cash = cash, budget_road = fst m1, budget_wood = fst (snd m1),
            budget_steel = fst (snd (snd m1)), budget_hydraulics = snd (snd (snd m1)),
            budget_rope = fst m2, budget_cable = fst (snd m2),
            budget_bungee_rope = snd (snd (snd m2)), budget_spring = fst (snd (snd m2)),
            budget_allow_wood = fst a1, budget_allow_steel = fst (snd a1),
            budget_allow_hydraulics = fst (snd (snd a1)),
            budget_allow_rope = snd (snd (snd a1)), budget_allow_cable = fst a2,
            budget_allow_spring = fst (snd a2),
            budget_allow_reinforced_road = snd (snd a2)\<rparr>))))))"

definition deserializeSettings :: "Settings rd" where
  "deserializeSettings = bnd readBool (\<lambda>h. bnd readBool (\<lambda>u.
     ret \<lparr>settings_hydraulics_controller_enabled = h, settings_unbreakable = u\<rparr>))"

definition shapeFlags :: "int32 \<Rightarrow> (bool \<times> bool \<times> bool \<times> bool \<times> bool) rd" where
  "shapeFlags version = bnd readBool (\<lambda>f. bnd readBool (\<lambda>d. bnd readBool (\<lambda>cr. bnd readBool (\<lambda>cn.
     bnd (if sint version \<ge> 25 then readBool else ret False) (\<lambda>csn.
       ret (f, d, cr, cn, csn))))))"

definition shapePhysics :: "int32 \<Rightarrow> (cfloat \<times> cfloat \<times> cfloat \<times> cfloat) rd" where
  "shapePhysics version =
     bnd (if sint version \<ge> 11 then readFloat else bnd readFloat (\<lambda>_. ret f_forty)) (\<lambda>m.
     bnd (if sint version \<ge> 14 then readFloat else ret f_half) (\<lambda>b.
     bnd (if sint version \<ge> 24 then bnd readFloat (\<lambda>ms. bnd readFloat (\<lambda>tv. ret (ms, tv)))
          else ret (f_zero, f_zero)) (\<lambda>pin.
       ret (m, b, fst pin, snd pin))))"

text \<open>\<^verbatim>\<open>deserializeCustomShape\<close>; \<open>shapeFlags\<close> reads the four or five flags,
  \<open>shapePhysics\<close> the mass, the bounciness and the pin fields with their defaults.\<close>

definition deserializeCustomShape :: "(byte \<Rightarrow> cfloat) \<Rightarrow> int32 \<Rightarrow> CustomShape rd" where
  "deserializeCustomShape ofByte version =
     bnd readVec3 (\<lambda>p. bnd readQuaternion (\<lambda>q. bnd readVec3 (\<lambda>sc.
     bnd (shapeFlags version) (\<lambda>fl.
     bnd readFloat (\<lambda>rd.
     bnd (if sint version \<ge> 10 then readColor ofByte
          else bnd readInt32 (\<lambda>_. ret zeroColor)) (\<lambda>col.
     bnd (shapePhysics version) (\<lambda>ph.
     bnd (countedQuiet readVec2) (\<lambda>pts.
     bnd (countedQuiet (bnd readVec3 (\<lambda>pos. ret (pos\<lparr>vec3_z := f_pin_z\<rparr>)))) (\<lambda>pins.
     bnd (countedQuiet readString) (\<lambda>das.
       ret \<lparr>cs_pos = p, cs_rot = q, cs_scale = sc, cs_flipped = fst fl,
            cs_dynamic = fst (snd fl), cs_collides_with_road = fst (snd (snd fl)),
            cs_collides_with_nodes = fst (snd (snd (snd fl))),
            cs_collides_with_split_nodes = snd (snd (snd (snd fl))),
            cs_rotation_degrees = rd, cs_color = col, cs_mass = fst ph,
            cs_bounciness = fst (snd ph), cs_pin_motor_strength = fst (snd (snd ph)),
            cs_pin_target_velocity = snd (snd (snd ph)), cs_points_local_space = pts,
            cs_static_pins = pins, cs_dynamic_anchor_guids = das\<rparr>))))))))))"

definition deserializeCustomShapes :: "(byte \<Rightarrow> cfloat) \<Rightarrow> int32 \<Rightarrow> CustomShape list rd" where
  "deserializeCustomShapes ofByte version = counted (deserializeCustomShape ofByte version)"

definition deserializeWorkshop :: "int32 \<Rightarrow> Workshop rd" where
  "deserializeWorkshop version =
     bnd readString (\<lambda>i.
     bnd (if sint version \<ge> 16 then readString else ret []) (\<lambda>lb.
     bnd readString (\<lambda>t. bnd readString (\<lambda>d. bnd readBool (\<lambda>a.
     bnd (counted readString) (\<lambda>tags.
       ret \<lparr>ws_id = i, ws_leaderboard_id = lb, ws_title = t, ws_description = d,
            ws_autoplay = a, ws_tags = tags\<rparr>))))))"

definition deserializeSupportPillar :: "SupportPillar rd" where
  "deserializeSupportPillar = bnd readVec3 (\<lambda>p. bnd readVec3 (\<lambda>sc. bnd readString (\<lambda>n.
     ret \<lparr>sp_pos = p, sp_scale = sc, sp_prefab_name = n\<rparr>)))"

definition deserializeSupportPillars :: "SupportPillar list rd" where
  "deserializeSupportPillars = counted deserializeSupportPillar"

definition deserializePillar :: "Pillar rd" where
  "deserializePillar = bnd readVec3 (\<lambda>p. bnd readFloat (\<lambda>h. bnd readString (\<lambda>n.
     ret \<lparr>pillar_pos = p, pillar_height = h, pillar_prefab_name = n\<rparr>)))"

definition deserializePillars :: "Pillar list rd" where
  "deserializePillars = counted deserializePillar"

text \<open>
  \<^verbatim>\<open>deserializeLayout\<close> is one function that fills \<^verbatim>\<open>Layout layout;\<close> member by member.
  It is cut here into consecutive stages, each taking the layout filled so far:
  \<open>layoutHead\<close> (lines 638-692: version, guard, stub key, anchors, hydraulic phases, bridge),
  \<open>layoutMiddle\<close> (lines 694-741: vehicles to water blocks), \<open>layoutTail\<close> (lines 743-781:
  legacy garbage, budget, settings, custom shapes, workshop, pillars), and the final test
  of the modded flag (lines 783-795).
\<close>

definition legacyBridge :: "(cfloat \<Rightarrow> cfloat) \<Rightarrow> Bridge rd" where
  "legacyBridge fixp =
     bnd (counted deserializeJoint) (\<lambda>joints.
     bnd (counted (deserializeEdge (bridge_version emptyBridge))) (\<lambda>edges.
     bnd (counted (deserializePiston fixp (bridge_version emptyBridge))) (\<lambda>pistons.
       ret (emptyBridge\<lparr>bridge_joints := joints, bridge_edges := edges,
            bridge_pistons := pistons\<rparr>))))"

definition layoutHead :: "(cfloat \<Rightarrow> cfloat) \<Rightarrow> Layout rd" where
  "layoutHead fixp =
     bnd getVersion (\<lambda>vm.
     bnd (ensureReasonable (sint (fst vm)) 0 100 0 50) (\<lambda>_.
     bnd (intc (sint (fst vm))) (\<lambda>_.
     bnd getStubKey (\<lambda>stubKey.
     bnd (if sint (fst vm) \<ge> 19 then deserializeAnchors else ret []) (\<lambda>anchors.
     bnd (if sint (fst vm) \<ge> 5 then deserializePhases else ret []) (\<lambda>phases.
     bnd (if sint (fst vm) > 4 then deserializeBridge fixp else legacyBridge fixp) (\<lambda>bridge.
       ret (emptyLayout\<lparr>layout_version := fst vm, layout_isModded := snd vm,
            layout_stubKey := stubKey, layout_anchors := anchors, layout_phases := phases,
            layout_bridge := bridge\<rparr>))))))))"

definition layoutMiddle :: "Layout \<Rightarrow> Layout rd" where
  "layoutMiddle layout =
     bnd (if sint (layout_version layout) \<ge> 7
          then deserializeZAxisVehicles (layout_version layout) else ret []) (\<lambda>zs.
     bnd deserializeVehicles (\<lambda>vs.
     bnd deserializeVehicleStopTriggers (\<lambda>sts.
     bnd (if sint (layout_version layout) < 20
          then deserializeThemeObjects_OBSOLETE else ret []) (\<lambda>tos.
     bnd (deserializeEventTimelines (layout_version layout)) (\<lambda>tls.
     bnd deserializeCheckpoints (\<lambda>cps.
     bnd (deserializeTerrainIslands (layout_version layout)) (\<lambda>tis.
     bnd (deserializePlatforms (layout_version layout)) (\<lambda>pfs.
     bnd (deserializeRamps (layout_version layout)) (\<lambda>rps.
     bnd (if sint (layout_version layout) < 5
          then deserializePhases else ret (layout_phases layout)) (\<lambda>phases.
     bnd deserializeVehicleRestartPhases (\<lambda>vrps.
     bnd deserializeFlyingObjects (\<lambda>fos.
     bnd deserializeRocks (\<lambda>rocks.
     bnd (deserializeWaterBlocks (layout_version layout)) (\<lambda>wbs.
       ret (layout\<lparr>layout_zAxisVehicles := zs, layout_vehicles := vs,
            layout_vehicleStopTriggers := sts, layout_themeObjects_OBSOLETE := tos,
            layout_eventTimelines := tls, layout_checkpoints := cps,
            layout_terrainStretches := tis, layout_platforms := pfs, layout_ramps := rps,
            layout_phases := phases, layout_vehicleRestartPhases := vrps,
            layout_flyingObjects := fos, layout_rocks := rocks,
            layout_waterBlocks := wbs\<rparr>)))))))))))))))"

definition legacyGarbage :: "unit rd" where
  "legacyGarbage =
     bnd (countedQuiet (bnd readString (\<lambda>_. countedQuiet readString))) (\<lambda>_. ret ())"

definition layoutTail :: "(byte \<Rightarrow> cfloat) \<Rightarrow> Layout \<Rightarrow> Layout rd" where
  "layoutTail ofByte layout =
     bnd (if sint (layout_version layout) < 5 then legacyGarbage else ret ()) (\<lambda>_.
     bnd deserializeBudget (\<lambda>budget.
     bnd deserializeSettings (\<lambda>settings.
     bnd (if sint (layout_version layout) \<ge> 9
          then deserializeCustomShapes ofByte (layout_version layout) else ret []) (\<lambda>shapes.
     bnd (if sint (layout_version layout) \<ge> 15
          then deserializeWorkshop (layout_version layout)
          else ret (layout_workshop layout)) (\<lambda>workshop.
     bnd (if sint (layout_version layout) \<ge> 17
          then deserializeSupportPillars else ret []) (\<lambda>sps.
     bnd (if sint (layout_version layout) \<ge> 18 then deserializePillars else ret []) (\<lambda>ps.
       ret (layout\<lparr>layout_budget := budget, layout_settings := settings,
            layout_customShapes := shapes, layout_workshop := workshop,
            layout_supportPillars := sps, layout_pillars := ps\<rparr>))))))))"

definition deserializeLayout :: "(cfloat \<Rightarrow> cfloat) \<Rightarrow> (byte \<Rightarrow> cfloat) \<Rightarrow> Layout rd" where
  "deserializeLayout fixp ofByte =
     bnd (layoutHead fixp) (\<lambda>layout.
     bnd (layoutMiddle layout) (\<lambda>layout.
     bnd (layoutTail ofByte layout) (\<lambda>layout.
     if \<not> layout_isModded layout then ret layout
     else bnd deserializePTFModData (\<lambda>modData.
       ret (layout\<lparr>layout_modData := modData\<rparr>)))))"

subsection \<open>\<^verbatim>\<open>Serializer::serializeLayout\<close> (lines 1671-2097)\<close>

text \<open>
  The bytes the write calls emit, in order. \<^verbatim>\<open>writeColor\<close> computes
  \<^verbatim>\<open>(uint8_t)(value.r * 255.0f)\<close> in float arithmetic: the parameter \<open>toByte\<close>.
\<close>

definition writeColor :: "(cfloat \<Rightarrow> byte) \<Rightarrow> Color \<Rightarrow> byte list" where
  "writeColor toByte c = writeByte (toByte (color_r c)) @ writeByte (toByte (color_g c)) @
     writeByte (toByte (color_b c))"

definition writeQuaternion :: "Quaternion \<Rightarrow> byte list" where
  "writeQuaternion q = writeFloat (quat_x q) @ writeFloat (quat_y q) @ writeFloat (quat_z q) @
     writeFloat (quat_w q)"

text \<open>\<^verbatim>\<open>findVehicleByGuid\<close>: the first vehicle of the layout with that GUID. It ends the
  process when there is none; it is only called with the GUID of a vehicle of the layout.\<close>

definition findVehicleByGuid :: "Vehicle list \<Rightarrow> Vehicle \<Rightarrow> Vehicle" where
  "findVehicleByGuid vehicles vehicle =
     (case find (\<lambda>v. veh_guid v = veh_guid vehicle) vehicles of
        Some v \<Rightarrow> v
      | None \<Rightarrow> vehicle)"

definition serializeAnchorsBinary :: "Layout \<Rightarrow> byte list" where
  "serializeAnchorsBinary layout =
     writeCount (layout_anchors layout) @ concat (map serializeJoint (layout_anchors layout))"

definition serializeHydraulicsPhasesBinary :: "Layout \<Rightarrow> byte list" where
  "serializeHydraulicsPhasesBinary layout =
     writeCount (layout_phases layout) @
     concat (map (\<lambda>phase. writeFloat (hp_time_delay phase) @ writeString (hp_guid phase))
       (layout_phases layout))"

definition serializePreBridgeBinary :: "Layout \<Rightarrow> byte list" where
  "serializePreBridgeBinary layout =
     writeInt32 MAX_VERSION @ writeString (layout_stubKey layout) @
     serializeAnchorsBinary layout @ serializeHydraulicsPhasesBinary layout"

definition serializeZAxisVehicle :: "ZAxisVehicle \<Rightarrow> byte list" where
  "serializeZAxisVehicle vehicle =
     writeVector2 (zav_pos vehicle) @ writeString (zav_prefab_name vehicle) @
     writeString (zav_guid vehicle) @ writeFloat (zav_time_delay vehicle) @
     writeFloat (zav_speed vehicle) @ writeQuaternion (zav_rot vehicle) @
     writeFloat (zav_rotation_degrees vehicle)"

definition serializeVehicle :: "Vehicle list \<Rightarrow> Vehicle \<Rightarrow> byte list" where
  "serializeVehicle vehicles vehicle =
     writeString (veh_display_name vehicle) @ writeVector2 (veh_pos vehicle) @
     writeQuaternion (veh_rot vehicle) @ writeString (veh_prefab_name vehicle) @
     writeFloat (veh_target_speed vehicle) @ writeFloat (veh_mass vehicle) @
     writeFloat (veh_braking_force_multiplier vehicle) @
     writeInt32 (veh_strength_method vehicle) @ writeFloat (veh_acceleration vehicle) @
     writeFloat (veh_max_slope vehicle) @ writeFloat (veh_desired_acceleration vehicle) @
     writeFloat (veh_shocks_multiplier vehicle) @ writeFloat (veh_rotation_degrees vehicle) @
     writeFloat (veh_time_delay vehicle) @ writeBool (veh_idle_on_downhill vehicle) @
     writeBool (veh_flipped vehicle) @ writeBool (veh_ordered_checkpoints vehicle) @
     writeString (veh_guid vehicle) @
     writeCount (veh_checkpoint_guids (findVehicleByGuid vehicles vehicle)) @
     concat (map writeString (veh_checkpoint_guids (findVehicleByGuid vehicles vehicle)))"

definition serializeVehicleStopTrigger :: "VehicleStopTrigger \<Rightarrow> byte list" where
  "serializeVehicleStopTrigger trigger =
     writeVector2 (vst_pos trigger) @ writeQuaternion (vst_rot trigger) @
     writeFloat (vst_height trigger) @ writeFloat (vst_rotation_degrees trigger) @
     writeBool (vst_flipped trigger) @ writeString (vst_prefab_name trigger) @
     writeString (vst_stop_vehicle_guid trigger)"

definition serializeEventTimeline :: "EventTimeline \<Rightarrow> byte list" where
  "serializeEventTimeline timeline =
     writeString (etl_checkpoint_guid timeline) @ writeCount (etl_stages timeline) @
     concat (map (\<lambda>stage. writeCount (es_units stage) @
                    concat (map (\<lambda>unit. writeString (eu_guid unit)) (es_units stage)))
       (etl_stages timeline))"

definition serializeCheckpoint :: "Checkpoint \<Rightarrow> byte list" where
  "serializeCheckpoint checkpoint =
     writeVector2 (cp_pos checkpoint) @ writeString (cp_prefab_name checkpoint) @
     writeString (cp_vehicle_guid checkpoint) @
     writeString (cp_vehicle_restart_phase_guid checkpoint) @
     writeBool (cp_trigger_timeline checkpoint) @ writeBool (cp_stop_vehicle checkpoint) @
     writeBool (cp_reverse_vehicle_on_restart checkpoint) @ writeString (cp_guid checkpoint)"

definition serializeTerrainStretch :: "TerrainIsland \<Rightarrow> byte list" where
  "serializeTerrainStretch stretch =
     writeVector3 (ti_pos stretch) @ writeString (ti_prefab_name stretch) @
     writeFloat (ti_height_added stretch) @ writeFloat (ti_right_edge_water_height stretch) @
     writeInt32 (ti_terrain_island_type stretch) @ writeInt32 (ti_variant_index stretch) @
     writeBool (ti_flipped stretch) @ writeBool (ti_lock_position stretch)"

definition serializePlatform :: "Platform \<Rightarrow> byte list" where
  "serializePlatform platform =
     writeVector2 (pf_pos platform) @ writeFloat (pf_width platform) @
     writeFloat (pf_height platform) @ writeBool (pf_flipped platform) @
     writeBool (pf_solid platform)"

definition serializeRamp :: "Ramp \<Rightarrow> byte list" where
  "serializeRamp ramp =
     writeVector2 (ramp_pos ramp) @ writeCount (ramp_control_points ramp) @
     concat (map writeVector2 (ramp_control_points ramp)) @ writeFloat (ramp_height ramp) @
     writeInt32 (ramp_num_segments ramp) @ writeInt32 (ramp_spline_type ramp) @
     writeBool (ramp_flipped_vertical ramp) @ writeBool (ramp_flipped_horizontal ramp) @
     writeBool (ramp_hide_legs ramp) @ writeBool (ramp_flipped_legs ramp) @
     writeCount (ramp_line_points ramp) @ concat (map writeVector2 (ramp_line_points ramp))"

definition serializeVehicleRestartPhase :: "VehicleRestartPhase \<Rightarrow> byte list" where
  "serializeVehicleRestartPhase phase =
     writeFloat (vrp_time_delay phase) @ writeString (vrp_guid phase) @
     writeString (vrp_vehicle_guid phase)"

definition serializeFlyingObject :: "FlyingObject \<Rightarrow> byte list" where
  "serializeFlyingObject flying_object =
     writeVector3 (fo_pos flying_object) @ writeVector3 (fo_scale flying_object) @
     writeString (fo_prefab_name flying_object)"

definition serializeRock :: "Rock \<Rightarrow> byte list" where
  "serializeRock rock =
     writeVector3 (rock_pos rock) @ writeVector3 (rock_scale rock) @
     writeString (rock_prefab_name rock) @ writeBool (rock_flipped rock)"

definition serializeWaterBlock :: "WaterBlock \<Rightarrow> byte list" where
  "serializeWaterBlock water_block =
     writeVector3 (wb_pos water_block) @ writeFloat (wb_width water_block) @
     writeFloat (wb_height water_block) @ writeBool (wb_lock_position water_block)"

definition serializeBudget :: "Budget \<Rightarrow> byte list" where
  "serializeBudget b =
     writeInt32 (budget_cash b) @ writeInt32 (budget_road b) @ writeInt32 (budget_wood b) @
     writeInt32 (budget_steel b) @ writeInt32 (budget_hydraulics b) @
     writeInt32 (budget_rope b) @ writeInt32 (budget_cable b) @ writeInt32 (budget_spring b) @
     writeInt32 (budget_bungee_rope b) @ writeBool (budget_allow_wood b) @
     writeBool (budget_allow_steel b) @ writeBool (budget_allow_hydraulics b) @
     writeBool (budget_allow_rope b) @ writeBool (budget_allow_cable b) @
     writeBool (budget_allow_spring b) @ writeBool (budget_allow_reinforced_road b)"

definition serializeSettings :: "Settings \<Rightarrow> byte list" where
  "serializeSettings st =
     writeBool (settings_hydraulics_controller_enabled st) @ writeBool (settings_unbreakable st)"

definition serializeCustomShape :: "(cfloat \<Rightarrow> byte) \<Rightarrow> CustomShape \<Rightarrow> byte list" where
  "serializeCustomShape toByte cs =
     writeVector3 (cs_pos cs) @ writeQuaternion (cs_rot cs) @ writeVector3 (cs_scale cs) @
     writeBool (cs_flipped cs) @ writeBool (cs_dynamic cs) @
     writeBool (cs_collides_with_road cs) @ writeBool (cs_collides_with_nodes cs) @
     writeBool (cs_collides_with_split_nodes cs) @ writeFloat (cs_rotation_degrees cs) @
     writeColor toByte (cs_color cs) @ writeFloat (cs_mass cs) @ writeFloat (cs_bounciness cs) @
     writeFloat (cs_pin_motor_strength cs) @ writeFloat (cs_pin_target_velocity cs) @
     writeCount (cs_points_local_space cs) @ concat (map writeVector2 (cs_points_local_space cs)) @
     writeCount (cs_static_pins cs) @ concat (map writeVector3 (cs_static_pins cs)) @
     writeCount (cs_dynamic_anchor_guids cs) @
     concat (map writeString (cs_dynamic_anchor_guids cs))"

definition serializeWorkshop :: "Workshop \<Rightarrow> byte list" where
  "serializeWorkshop w =
     writeString (ws_id w) @ writeString (ws_leaderboard_id w) @ writeString (ws_title w) @
     writeString (ws_description w) @ writeBool (ws_autoplay w) @ writeCount (ws_tags w) @
     concat (map writeString (ws_tags w))"

definition serializeSupportPillar :: "SupportPillar \<Rightarrow> byte list" where
  "serializeSupportPillar support_pillar =
     writeVector3 (sp_pos support_pillar) @ writeVector3 (sp_scale support_pillar) @
     writeString (sp_prefab_name support_pillar)"

definition serializePillar :: "Pillar \<Rightarrow> byte list" where
  "serializePillar pillar =
     writeVector3 (pillar_pos pillar) @ writeFloat (pillar_height pillar) @
     writeString (pillar_prefab_name pillar)"

text \<open>\<^verbatim>\<open>serializePostBridgeBinary\<close>, in two halves (lines 1828-2000 and 2002-2096).\<close>

definition serializePostBridgeObjects :: "Layout \<Rightarrow> byte list" where
  "serializePostBridgeObjects layout =
     writeCount (layout_zAxisVehicles layout) @
     concat (map serializeZAxisVehicle (layout_zAxisVehicles layout)) @
     writeCount (layout_vehicles layout) @
     concat (map (serializeVehicle (layout_vehicles layout)) (layout_vehicles layout)) @
     writeCount (layout_vehicleStopTriggers layout) @
     concat (map serializeVehicleStopTrigger (layout_vehicleStopTriggers layout)) @
     writeCount (layout_eventTimelines layout) @
     concat (map serializeEventTimeline (layout_eventTimelines layout)) @
     writeCount (layout_checkpoints layout) @
     concat (map serializeCheckpoint (layout_checkpoints layout)) @
     writeCount (layout_terrainStretches layout) @
     concat (map serializeTerrainStretch (layout_terrainStretches layout)) @
     writeCount (layout_platforms layout) @
     concat (map serializePlatform (layout_platforms layout)) @
     writeCount (layout_ramps layout) @ concat (map serializeRamp (layout_ramps layout)) @
     writeCount (layout_vehicleRestartPhases layout) @
     concat (map serializeVehicleRestartPhase (layout_vehicleRestartPhases layout)) @
     writeCount (layout_flyingObjects layout) @
     concat (map serializeFlyingObject (layout_flyingObjects layout)) @
     writeCount (layout_rocks layout) @ concat (map serializeRock (layout_rocks layout)) @
     writeCount (layout_waterBlocks layout) @
     concat (map serializeWaterBlock (layout_waterBlocks layout))"

definition serializePostBridgeRest :: "(cfloat \<Rightarrow> byte) \<Rightarrow> Layout \<Rightarrow> byte list" where
  "serializePostBridgeRest toByte layout =
     serializeBudget (layout_budget layout) @ serializeSettings (layout_settings layout) @
     writeCount (layout_customShapes layout) @
     concat (map (serializeCustomShape toByte) (layout_customShapes layout)) @
     serializeWorkshop (layout_workshop layout) @
     writeCount (layout_supportPillars layout) @
     concat (map serializeSupportPillar (layout_supportPillars layout)) @
     writeCount (layout_pillars layout) @ concat (map serializePillar (layout_pillars layout))"

definition serializePostBridgeBinary :: "(cfloat \<Rightarrow> byte) \<Rightarrow> Layout \<Rightarrow> byte list" where
  "serializePostBridgeBinary toByte layout =
     serializePostBridgeObjects layout @ serializePostBridgeRest toByte layout"

definition layoutBytes :: "(cfloat \<Rightarrow> byte) \<Rightarrow> Layout \<Rightarrow> byte list" where
  "layoutBytes toByte layout =
     serializePreBridgeBinary layout @ serializeBridgeBinary (layout_bridge layout) @
     serializePostBridgeBinary toByte layout"

text \<open>
  The log statements of the serializer call \<^verbatim>\<open>U::intc\<close> on \<^verbatim>\<open>MAX_VERSION\<close>,
  \<^verbatim>\<open>MAX_BRIDGE_VERSION\<close>, every \<^verbatim>\<open>(int)xs.size()\<close> and the cash: these are the guard's
  checks of a save, in the order of the source. \<^verbatim>\<open>serializeLayout\<close> gives the bytes of
  the file when the guard lets the run end.
\<close>

definition sizeCheck :: "'a list \<Rightarrow> int \<times> int \<times> int \<times> int \<times> int" where
  "sizeCheck xs = (sint (of_nat (length xs) :: int32), - 1000, 10000, 0, 4096)"

definition serializerChecks :: "Layout \<Rightarrow> (int \<times> int \<times> int \<times> int \<times> int) list" where
  "serializerChecks layout =
     [(sint MAX_VERSION, - 1000, 10000, 0, 4096),
      sizeCheck (layout_anchors layout), sizeCheck (layout_phases layout),
      (sint MAX_BRIDGE_VERSION, - 1000, 10000, 0, 4096),
      sizeCheck (bridge_joints (layout_bridge layout)),
      sizeCheck (bridge_edges (layout_bridge layout)),
      sizeCheck (bridge_springs (layout_bridge layout)),
      sizeCheck (bridge_pistons (layout_bridge layout)),
      sizeCheck (bridge_phases (layout_bridge layout)),
      sizeCheck (bridge_anchors (layout_bridge layout)),
      sizeCheck (layout_zAxisVehicles layout), sizeCheck (layout_vehicles layout),
      sizeCheck (layout_vehicleStopTriggers layout), sizeCheck (layout_eventTimelines layout),
      sizeCheck (layout_checkpoints layout), sizeCheck (layout_terrainStretches layout),
      sizeCheck (layout_platforms layout), sizeCheck (layout_ramps layout),
      sizeCheck (layout_vehicleRestartPhases layout), sizeCheck (layout_flyingObjects layout),
      sizeCheck (layout_rocks layout), sizeCheck (layout_waterBlocks layout),
      (sint (budget_cash (layout_budget layout)), 0, 100000000, 0, 100000000),
      sizeCheck (layout_customShapes layout), sizeCheck (layout_supportPillars layout),
      sizeCheck (layout_pillars layout)]"

definition serializeLayout :: "(cfloat \<Rightarrow> byte) \<Rightarrow> Layout \<Rightarrow> byte list rd" where
  "serializeLayout toByte layout =
     bnd (guardAll (serializerChecks layout)) (\<lambda>_. ret (layoutBytes toByte layout))"

section \<open>Wire images of the bridge, by version\<close>

text \<open>
  \<open>reads m bs v\<close>: wherever the unread input starts with the bytes \<open>bs\<close>, the reader \<open>m\<close>
  returns \<open>v\<close>, consumes exactly \<open>bs\<close> and leaves the rest of the state as it was.
\<close>

definition reads :: "'a rd \<Rightarrow> byte list \<Rightarrow> 'a \<Rightarrow> bool" where
  "reads m bs v \<longleftrightarrow>
     (\<forall>s rest. cursor s \<le> length (input s) \<and> drop (cursor s) (input s) = bs @ rest \<longrightarrow>
        m s = Inr (v, s\<lparr>cursor := cursor s + length bs\<rparr>))"

text \<open>
  The byte image of a bridge of version \<open>v\<close>, field by field as section 4.2 of the
  specification lists them: what each version puts on the wire, including the fields a
  decoder has to consume and discard (\<open>junk\<close>). Strings are length-prefixed with 16 bits,
  so a string on the wire is shorter than \<open>65536\<close> bytes; a count is a 32-bit integer.
\<close>

definition edgeWire :: "int32 \<Rightarrow> BridgeEdge \<Rightarrow> byte list" where
  "edgeWire v e = writeInt32 (edge_material_type e) @ writeString (edge_node_a_guid e) @
     writeString (edge_node_b_guid e) @ writeInt32 (edge_joint_a_part e) @
     writeInt32 (edge_joint_b_part e) @ (if 11 \<le> sint v then writeString (edge_guid e) else [])"

definition phaseWire :: "int32 \<Rightarrow> HydraulicsControllerPhase \<times> cstring list \<Rightarrow> byte list" where
  "phaseWire v pj = writeString (hcp_hydraulics_phase_guid (fst pj)) @
     (writeCount (hcp_piston_guids (fst pj)) @
        concat (map writeString (hcp_piston_guids (fst pj)))) @
     (if 2 < sint v
      then writeCount (hcp_bridge_split_joints (fst pj)) @
             concat (map serializeSplitJoint (hcp_bridge_split_joints (fst pj)))
      else writeCount (snd pj) @ concat (map writeString (snd pj))) @
     (if 9 < sint v then writeBool (hcp_disable_new_additions (fst pj)) else [])"

definition bridgeWire ::
  "int32 \<Rightarrow> BridgeJoint list \<Rightarrow> BridgeEdge list \<Rightarrow> BridgeSpring list \<Rightarrow> Piston list \<Rightarrow>
   (HydraulicsControllerPhase \<times> cstring list) list \<Rightarrow> cstring list \<Rightarrow> BridgeJoint list \<Rightarrow>
   bool \<Rightarrow> byte list" where
  "bridgeWire v joints edges springs pistons phases junk5 anchors junkBool =
     writeInt32 v @
     (if sint v < 2 then []
      else
        (writeCount joints @ concat (map serializeJoint joints)) @
        (writeCount edges @ concat (map (edgeWire v) edges)) @
        (if 7 \<le> sint v then writeCount springs @ concat (map serializeSpring springs) else []) @
        (writeCount pistons @ concat (map serializePiston pistons)) @
        (writeCount phases @ concat (map (phaseWire v) phases)) @
        (if sint v = 5 then writeCount junk5 @ concat (map writeString junk5) else []) @
        (if 6 \<le> sint v then writeCount anchors @ concat (map serializeJoint anchors) else []) @
        (if 4 \<le> sint v \<and> sint v < 9 then writeBool junkBool else []))"

text \<open>What the schedule says a decoder keeps of these fields.\<close>

definition edgeAt :: "int32 \<Rightarrow> BridgeEdge \<Rightarrow> BridgeEdge" where
  "edgeAt v e = e\<lparr>edge_guid := (if 11 \<le> sint v then edge_guid e else [])\<rparr>"

definition pistonAt :: "(cfloat \<Rightarrow> cfloat) \<Rightarrow> int32 \<Rightarrow> Piston \<Rightarrow> Piston" where
  "pistonAt fixp v p = p\<lparr>piston_normalized_value :=
     (if sint v < 8 then fixp (piston_normalized_value p) else piston_normalized_value p)\<rparr>"

definition phaseAt :: "int32 \<Rightarrow> HydraulicsControllerPhase \<times> cstring list \<Rightarrow> HydraulicsControllerPhase" where
  "phaseAt v pj = (fst pj)\<lparr>
     hcp_bridge_split_joints := (if 2 < sint v then hcp_bridge_split_joints (fst pj) else []),
     hcp_disable_new_additions := (if 9 < sint v then hcp_disable_new_additions (fst pj) else False)\<rparr>"

definition bridgeAt ::
  "(cfloat \<Rightarrow> cfloat) \<Rightarrow> int32 \<Rightarrow> BridgeJoint list \<Rightarrow> BridgeEdge list \<Rightarrow> BridgeSpring list \<Rightarrow>
   Piston list \<Rightarrow> (HydraulicsControllerPhase \<times> cstring list) list \<Rightarrow> BridgeJoint list \<Rightarrow> Bridge" where
  "bridgeAt fixp v joints edges springs pistons phases anchors =
     (if sint v < 2 then emptyBridge\<lparr>bridge_version := v\<rparr>
      else \<lparr>bridge_version = v, bridge_joints = joints, bridge_edges = map (edgeAt v) edges,
             bridge_springs = (if 7 \<le> sint v then springs else []),
             bridge_pistons = map (pistonAt fixp v) pistons,
             bridge_anchors = (if 6 \<le> sint v then anchors else []),
             bridge_phases = map (phaseAt v) phases\<rparr>)"

text \<open>Values that fit the wire: strings below \<open>65536\<close> bytes, inner counts below \<open>2^31\<close>.\<close>

definition str_ok :: "cstring \<Rightarrow> bool" where
  "str_ok v \<longleftrightarrow> length v < 65536"

definition joint_ok :: "BridgeJoint \<Rightarrow> bool" where
  "joint_ok j \<longleftrightarrow> str_ok (joint_guid j)"

definition edge_ok :: "BridgeEdge \<Rightarrow> bool" where
  "edge_ok e \<longleftrightarrow> str_ok (edge_node_a_guid e) \<and> str_ok (edge_node_b_guid e) \<and> str_ok (edge_guid e)"

definition spring_ok :: "BridgeSpring \<Rightarrow> bool" where
  "spring_ok sp \<longleftrightarrow> str_ok (spring_node_a_guid sp) \<and> str_ok (spring_node_b_guid sp) \<and>
     str_ok (spring_guid sp)"

definition piston_ok :: "Piston \<Rightarrow> bool" where
  "piston_ok p \<longleftrightarrow> str_ok (piston_node_a_guid p) \<and> str_ok (piston_node_b_guid p) \<and>
     str_ok (piston_guid p)"

definition phase_ok :: "HydraulicsControllerPhase \<times> cstring list \<Rightarrow> bool" where
  "phase_ok pj \<longleftrightarrow> str_ok (hcp_hydraulics_phase_guid (fst pj)) \<and>
     list_all str_ok (hcp_piston_guids (fst pj)) \<and> length (hcp_piston_guids (fst pj)) < 2 ^ 31 \<and>
     list_all (\<lambda>j. str_ok (splitjoint_guid j)) (hcp_bridge_split_joints (fst pj)) \<and>
     length (hcp_bridge_split_joints (fst pj)) < 2 ^ 31 \<and>
     list_all str_ok (snd pj) \<and> length (snd pj) < 2 ^ 31"

text \<open>A count that passes \<^verbatim>\<open>intc\<close> silently lies in \<open>[0, 4096]\<close>.\<close>

definition bridge_ok ::
  "BridgeJoint list \<Rightarrow> BridgeEdge list \<Rightarrow> BridgeSpring list \<Rightarrow> Piston list \<Rightarrow>
   (HydraulicsControllerPhase \<times> cstring list) list \<Rightarrow> cstring list \<Rightarrow> BridgeJoint list \<Rightarrow> bool" where
  "bridge_ok joints edges springs pistons phases junk5 anchors \<longleftrightarrow>
     list_all joint_ok joints \<and> length joints \<le> 4096 \<and>
     list_all edge_ok edges \<and> length edges \<le> 4096 \<and>
     list_all spring_ok springs \<and> length springs \<le> 4096 \<and>
     list_all piston_ok pistons \<and> length pistons \<le> 4096 \<and>
     list_all phase_ok phases \<and> length phases \<le> 4096 \<and>
     list_all str_ok junk5 \<and> length junk5 < 2 ^ 31 \<and>
     list_all joint_ok anchors \<and> length anchors \<le> 4096"

section \<open>Wire image of the mod data\<close>

text \<open>
  What \<^verbatim>\<open>deserializePTFModData\<close> expects after the layout: a 16-bit count and that many mod
  strings; then either the end of the stream, or a 32-bit count and that many entries. An
  entry is an identifier string, followed by a byte array (a 32-bit length and the bytes)
  unless the name in the identifier is empty.
\<close>

definition modsWire :: "cstring list \<Rightarrow> byte list" where
  "modsWire strs = bytes16 (of_nat (length strs)) @ concat (map writeString strs)"

definition saveEntryWire :: "cstring \<times> byte list \<Rightarrow> byte list" where
  "saveEntryWire e = writeString (fst e) @
     (if part (splitString (fst e) modDelimiter) 0 = [] then []
      else writeInt32 (of_nat (length (snd e))) @ snd e)"

definition saveEntryOf :: "cstring \<times> byte list \<Rightarrow> ModSaveData option" where
  "saveEntryOf e =
     (if part (splitString (fst e) modDelimiter) 0 = [] then None
      else Some \<lparr>msd_data = snd e, msd_name = part (splitString (fst e) modDelimiter) 0,
                 msd_version = part (splitString (fst e) modDelimiter) 1\<rparr>)"

definition saveEntry_ok :: "cstring \<times> byte list \<Rightarrow> bool" where
  "saveEntry_ok e \<longleftrightarrow> str_ok (fst e) \<and>
     (part (splitString (fst e) modDelimiter) 0 = [] \<or>
      (0 < length (snd e) \<and> length (snd e) < 2 ^ 31))"

definition extraWire :: "(cstring \<times> byte list) list \<Rightarrow> byte list" where
  "extraWire es = writeInt32 (of_nat (length es)) @ concat (map saveEntryWire es)"

section \<open>Sample values\<close>

text \<open>Small bridges and byte streams at which the theorems below are instantiated.\<close>

definition exJoint :: BridgeJoint where
  "exJoint = \<lparr>joint_pos = \<lparr>vec3_x = 0x3F800000, vec3_y = 0x40000000, vec3_z = 0x40400000\<rparr>,
     joint_is_anchor = True, joint_is_split = False, joint_guid = ascii ''j1''\<rparr>"

definition exEdge :: BridgeEdge where
  "exEdge = \<lparr>edge_material_type = 3, edge_node_a_guid = ascii ''j1'',
     edge_node_b_guid = ascii ''j2'', edge_joint_a_part = 0, edge_joint_b_part = 1,
     edge_guid = ascii ''e1''\<rparr>"

definition exPiston :: Piston where
  "exPiston = \<lparr>piston_normalized_value = 0x3F000000, piston_node_a_guid = ascii ''j1'',
     piston_node_b_guid = ascii ''j2'', piston_guid = ascii ''p1''\<rparr>"

text \<open>The same piston with the value \<^verbatim>\<open>0.1f\<close>.\<close>

definition exPiston01 :: Piston where
  "exPiston01 = exPiston\<lparr>piston_normalized_value := 0x3DCCCCCD\<rparr>"

definition exPhase :: HydraulicsControllerPhase where
  "exPhase = \<lparr>hcp_hydraulics_phase_guid = ascii ''h1'', hcp_piston_guids = [ascii ''p1''],
     hcp_bridge_split_joints = [\<lparr>splitjoint_guid = ascii ''j1'', splitjoint_state = 2\<rparr>],
     hcp_disable_new_additions = True\<rparr>"

text \<open>A bridge of the current version with one edge and one phase.\<close>

definition exBridge :: Bridge where
  "exBridge = \<lparr>bridge_version = 11, bridge_joints = [exJoint], bridge_edges = [exEdge],
     bridge_springs = [], bridge_pistons = [exPiston], bridge_anchors = [],
     bridge_phases = [exPhase]\<rparr>"

text \<open>Layouts of the current version whose bridge has one edge: all else is empty in
  \<open>exLayout\<close>; \<open>exLayout2\<close> has two springs with zero fields as well.\<close>

definition edgeBridge :: Bridge where
  "edgeBridge = \<lparr>bridge_version = 11, bridge_joints = [exJoint], bridge_edges = [exEdge],
     bridge_springs = [], bridge_pistons = [], bridge_anchors = [], bridge_phases = []\<rparr>"

definition zeroSpring :: BridgeSpring where
  "zeroSpring = \<lparr>spring_normalized_value = 0, spring_node_a_guid = [],
     spring_node_b_guid = [], spring_guid = []\<rparr>"

definition springBridge :: Bridge where
  "springBridge = \<lparr>bridge_version = 11, bridge_joints = [exJoint], bridge_edges = [exEdge],
     bridge_springs = [zeroSpring, zeroSpring], bridge_pistons = [], bridge_anchors = [],
     bridge_phases = []\<rparr>"

definition exLayout :: Layout where
  "exLayout = emptyLayout\<lparr>layout_version := 26, layout_stubKey := ascii ''Western'',
     layout_bridge := edgeBridge\<rparr>"

definition exLayout2 :: Layout where
  "exLayout2 = emptyLayout\<lparr>layout_version := 26, layout_stubKey := ascii ''Western'',
     layout_bridge := springBridge\<rparr>"

text \<open>
  Save-slot streams. \<open>slotText x\<close> is a slot string with discriminant 0. \<open>exSlotBytes\<close> is a
  whole slot: a root node named \<open>root\<close>, the seven scalar fields, a bridge node whose
  payload is the four bytes of a bridge of version 0, no thumbnail, the two flags and the
  end of the root node. \<open>exBadSlotBytes\<close> is a root node followed by an integer entry
  named \<open>foo\<close> and two more bytes.
\<close>

definition slotText :: "string \<Rightarrow> byte list" where
  "slotText x = 0 # bytes32 (of_nat (length x)) @ ascii x"

definition exSlotBytes :: "byte list" where
  "exSlotBytes =
     [0x01] @ slotText ''root'' @ [0x30] @ bytes32 1 @
     [0x17] @ slotText ''m_Version'' @ bytes32 3 @
     [0x17] @ slotText ''m_PhysicsVersion'' @ bytes32 1 @
     [0x17] @ slotText ''m_SlotID'' @ bytes32 2 @
     [0x27] @ slotText ''m_DisplayName'' @ slotText ''a'' @
     [0x27] @ slotText ''m_SlotFilename'' @ slotText ''b'' @
     [0x17] @ slotText ''m_Budget'' @ bytes32 5 @
     [0x1B] @ slotText ''m_LastWriteTimeTicks'' @ bytes32 6 @ bytes32 0 @
     [0x01] @ slotText ''m_Bridge'' @ [0x30] @ bytes32 2 @
     [0x08] @ bytes32 4 @ bytes32 1 @ bytes32 0 @ [0x05] @
     [0x2D] @ slotText ''m_Thumb'' @
     [0x2B] @ slotText ''m_UsingUnlimitedMaterials'' @ [1] @
     [0x2B] @ slotText ''m_UsingUnlimitedBudget'' @ [0] @
     [0x05]"

definition exBadSlotBytes :: "byte list" where
  "exBadSlotBytes = [0x02, 0x30] @ bytes32 1 @ [0x17] @ slotText ''foo'' @ [9, 9]"

section \<open>Properties\<close>

subsection \<open>Little-endian scalars and the primitive readers\<close>

lemma ucast_ucast_byte: "(ucast (ucast (w::'a::len word) :: byte) :: 'a word) = take_bit 8 w"
  by (rule bit_word_eqI) (auto simp: bit_simps)

lemma split8: "(w::'a::len word) = take_bit 8 w + 256 * drop_bit 8 w"
  using bits_ident [of 8 w] by (simp add: push_bit_eq_mult ac_simps)

lemma word32_le_bytes32: "word32_le (bytes32 w) = w"
proof -
  have e: "take_bit 8 (drop_bit 24 w) = drop_bit 24 w"
    by (rule bit_word_eqI) (auto simp: bit_simps dest: bit_imp_le_length)
  have "word32_le (bytes32 w) = take_bit 8 w + 256 * (take_bit 8 (drop_bit 8 w) +
      256 * (take_bit 8 (drop_bit 16 w) + 256 * take_bit 8 (drop_bit 24 w)))"
    by (simp add: word32_le_def bytes32_def ucast_ucast_byte)
  also have "\<dots> = take_bit 8 w + 256 * (take_bit 8 (drop_bit 8 w) +
      256 * (take_bit 8 (drop_bit 16 w) + 256 * drop_bit 8 (drop_bit 16 w)))"
    by (simp add: e)
  also have "\<dots> = take_bit 8 w + 256 * (take_bit 8 (drop_bit 8 w) + 256 * drop_bit 8 (drop_bit 8 w))"
    using split8 [of "drop_bit 16 w"] by simp
  also have "\<dots> = take_bit 8 w + 256 * drop_bit 8 w"
    using split8 [of "drop_bit 8 w"] by simp
  also have "\<dots> = w"
    using split8 [of w] by simp
  finally show ?thesis .
qed

lemma word16_le_bytes16: "word16_le (bytes16 w) = w"
proof -
  have e: "take_bit 8 (drop_bit 8 w) = drop_bit 8 w"
    by (rule bit_word_eqI) (auto simp: bit_simps dest: bit_imp_le_length)
  have "word16_le (bytes16 w) = take_bit 8 w + 256 * take_bit 8 (drop_bit 8 w)"
    by (simp add: word16_le_def bytes16_def ucast_ucast_byte)
  also have "\<dots> = w"
    using split8 [of w] by (simp add: e)
  finally show ?thesis .
qed

lemma length_bytes32: "length (bytes32 w) = 4"
  by (simp add: bytes32_def)

lemma length_bytes16: "length (bytes16 w) = 2"
  by (simp add: bytes16_def)

lemma reads_ret: "reads (ret v) [] v"
  by (simp add: reads_def ret_def)

lemma reads_bnd:
  assumes "reads m bs v" and "reads (f v) cs w"
  shows "reads (bnd m f) (bs @ cs) w"
  unfolding reads_def
proof (intro allI impI)
  fix s :: rstate and rest
  assume h: "cursor s \<le> length (input s) \<and> drop (cursor s) (input s) = (bs @ cs) @ rest"
  let ?s1 = "s\<lparr>cursor := cursor s + length bs\<rparr>"
  from h have d: "drop (cursor s) (input s) = bs @ (cs @ rest)" by simp
  with h assms(1) have m: "m s = Inr (v, ?s1)"
    unfolding reads_def by blast
  from arg_cong [OF d, of length]
  have "length (input s) - cursor s = length bs + length cs + length rest"
    by simp
  with h have "cursor s + length bs \<le> length (input s)" by arith
  then have le: "cursor ?s1 \<le> length (input ?s1)" by simp
  have "drop (cursor s + length bs) (input s) = drop (length bs) (drop (cursor s) (input s))"
    by (simp add: add.commute)
  with d have "drop (cursor ?s1) (input ?s1) = cs @ rest" by simp
  with le assms(2) have "f v ?s1 = Inr (w, ?s1\<lparr>cursor := cursor ?s1 + length cs\<rparr>)"
    unfolding reads_def by blast
  with m show "bnd m f s = Inr (w, s\<lparr>cursor := cursor s + length (bs @ cs)\<rparr>)"
    by (simp add: bnd_def add.assoc)
qed

lemma reads_bnd_nil:
  assumes "reads m [] v" and "reads (f v) cs w"
  shows "reads (bnd m f) cs w"
  using reads_bnd [where f = f, OF assms] by simp

lemma reads_bnd_last:
  assumes "reads m bs v" and "reads (f v) [] w"
  shows "reads (bnd m f) bs w"
  using reads_bnd [where f = f, OF assms] by simp

lemma reads_map:
  assumes "reads m bs v"
  shows "reads (bnd m (\<lambda>x. ret (g x))) bs (g v)"
  using reads_bnd [where f = "\<lambda>x. ret (g x)", OF assms reads_ret] by simp

lemma reads_ret_eq: "x = w \<Longrightarrow> reads (ret x) [] w"
  by (simp add: reads_ret)

lemma reads_if:
  assumes "c \<Longrightarrow> reads m1 b1 v1" and "\<not> c \<Longrightarrow> reads m2 b2 v2"
  shows "reads (if c then m1 else m2) (if c then b1 else b2) (if c then v1 else v2)"
  using assms by simp

lemma reads_readBytes: "n = length bs \<Longrightarrow> reads (readBytes n) bs bs"
  unfolding reads_def readBytes_def
proof (intro allI impI)
  fix s :: rstate and rest
  assume n: "n = length bs"
    and h: "cursor s \<le> length (input s) \<and> drop (cursor s) (input s) = bs @ rest"
  then have e: "drop (cursor s) (input s) = bs @ rest" by simp
  from arg_cong [OF e, of length]
  have "length (input s) - cursor s = length bs + length rest" by simp
  with h have "cursor s + length bs \<le> length (input s)" by arith
  with h n show "(if cursor s + n \<le> length (input s)
        then Inr (take n (drop (cursor s) (input s)), s\<lparr>cursor := cursor s + n\<rparr>)
        else Inl (EndOfInput, s)) = Inr (bs, s\<lparr>cursor := cursor s + length bs\<rparr>)"
    by simp
qed

lemma reads_readInt32: "reads readInt32 (writeInt32 w) w"
  unfolding readInt32_def writeInt32_def
  using reads_map [OF reads_readBytes [of 4 "bytes32 w"], of word32_le]
  by (simp add: length_bytes32 word32_le_bytes32)

lemma reads_readFloat: "reads readFloat (writeFloat w) w"
  unfolding readFloat_def writeFloat_def
  using reads_map [OF reads_readBytes [of 4 "bytes32 w"], of word32_le]
  by (simp add: length_bytes32 word32_le_bytes32)

lemma reads_readUInt16: "reads readUInt16 (writeUInt16 w) w"
  unfolding readUInt16_def writeUInt16_def
  using reads_map [OF reads_readBytes [of 2 "bytes16 w"], of word16_le]
  by (simp add: length_bytes16 word16_le_bytes16)

lemma reads_readBool: "reads readBool (writeBool b) b"
  unfolding readBool_def readInt8_def writeBool_def
  using reads_map [OF reads_map [OF reads_readBytes [of 1 "[if b then 1 else 0]"], of hd],
      of "\<lambda>x. x \<noteq> 0"]
  by (cases b) simp_all

lemma reads_readString: "str_ok v \<Longrightarrow> reads readString (writeString v) v"
  unfolding readString_def writeString_def str_ok_def
  by (rule reads_bnd [OF reads_readUInt16]) (simp add: reads_readBytes unat_of_nat)

lemma readBytes_Inr:
  assumes "readBytes n s = Inr (bs, s')"
  shows "cursor s + n \<le> length (input s)" and "bs = take n (drop (cursor s) (input s))"
    and "length bs = n" and "s' = s\<lparr>cursor := cursor s + n\<rparr>"
  using assms by (auto simp: readBytes_def split: if_splits)

lemma readString_Inr:
  assumes "readString s = Inr (str, s')"
  shows "length str = unat (word16_le (take 2 (drop (cursor s) (input s))))"
    and "str = take (length str) (drop (cursor s + 2) (input s))"
    and "s' = s\<lparr>cursor := cursor s + 2 + length str\<rparr>"
    and "cursor s + 2 + length str \<le> length (input s)"
proof -
  from assms obtain bs s1 where a: "readBytes 2 s = Inr (bs, s1)"
    and b: "readBytes (unat (word16_le bs)) s1 = Inr (str, s')"
    by (auto simp: readString_def readUInt16_def bnd_def ret_def split: sum.splits)
  note bs = readBytes_Inr(2) [OF a] and s1 = readBytes_Inr(4) [OF a]
  note l = readBytes_Inr(3) [OF b]
  from l bs show "length str = unat (word16_le (take 2 (drop (cursor s) (input s))))"
    by simp
  from readBytes_Inr(2) [OF b] have "str = take (length str) (drop (cursor s1) (input s1))"
    unfolding l .
  with s1 show "str = take (length str) (drop (cursor s + 2) (input s))" by simp
  from readBytes_Inr(4) [OF b] have "s' = s1\<lparr>cursor := cursor s1 + length str\<rparr>"
    unfolding l .
  with s1 show "s' = s\<lparr>cursor := cursor s + 2 + length str\<rparr>" by simp
  from readBytes_Inr(1) [OF b] have "cursor s1 + length str \<le> length (input s1)"
    unfolding l .
  with s1 show "cursor s + 2 + length str \<le> length (input s)" by simp
qed


subsection \<open>The layout string codec\<close>

text \<open>
  Claim C10. \<^verbatim>\<open>readString\<close> reads an unsigned 16-bit length and exactly that many bytes,
  so a decoded string has at most 65535 bytes. \<^verbatim>\<open>writeString\<close> writes the length
  truncated to 16 bits, then all the bytes. A string shorter than 65536 bytes is read back
  as written, wherever it stands in the input; some longer string is not (one of 65536
  bytes is read back as the empty string).
\<close>

theorem readString_writeString_roundtrip:
  "(readString s = Inr (str, s') \<longrightarrow>
      length str = unat (word16_le (take 2 (drop (cursor s) (input s)))) \<and>
      str = take (length str) (drop (cursor s + 2) (input s)) \<and>
      s' = s\<lparr>cursor := cursor s + 2 + length str\<rparr> \<and> length str \<le> 65535) \<and>
   writeString v = writeUInt16 (of_nat (length v mod 65536)) @ v \<and>
   (length v < 65536 \<and> cursor t \<le> length (input t) \<and>
    drop (cursor t) (input t) = writeString v @ rest \<longrightarrow>
      readString t = Inr (v, t\<lparr>cursor := cursor t + length (writeString v)\<rparr>)) \<and>
   (\<exists>w r. 65536 \<le> length w \<and> readString (start (writeString w)) = Inr r \<and> fst r \<noteq> w)"
proof (intro conjI impI)
  assume a: "readString s = Inr (str, s')"
  show "length str = unat (word16_le (take 2 (drop (cursor s) (input s))))"
    by (rule readString_Inr(1) [OF a])
  show "str = take (length str) (drop (cursor s + 2) (input s))"
    by (rule readString_Inr(2) [OF a])
  show "s' = s\<lparr>cursor := cursor s + 2 + length str\<rparr>"
    by (rule readString_Inr(3) [OF a])
  have "unat (word16_le (take 2 (drop (cursor s) (input s)))) < 2 ^ 16"
    using unsigned_less [of "word16_le (take 2 (drop (cursor s) (input s)))", where ?'a = nat]
    by simp
  with readString_Inr(1) [OF a] show "length str \<le> 65535" by simp
next
  have "(of_nat (length v mod 65536) :: 16 word) = of_nat (length v)"
    by (simp add: word_eq_iff_unsigned [where ?'a = nat] unat_of_nat)
  then show "writeString v = writeUInt16 (of_nat (length v mod 65536)) @ v"
    by (simp add: writeString_def)
next
  assume "length v < 65536 \<and> cursor t \<le> length (input t) \<and>
    drop (cursor t) (input t) = writeString v @ rest"
  with reads_readString [of v]
  show "readString t = Inr (v, t\<lparr>cursor := cursor t + length (writeString v)\<rparr>)"
    by (simp add: reads_def str_ok_def)
next
  let ?w = "replicate 65536 (0::byte)"
  have z: "(of_nat 65536 :: 16 word) = 0" by simp
  have "readString (start (writeString ?w)) = Inr ([], (start (writeString ?w))\<lparr>cursor := 2\<rparr>)"
    by (simp add: writeString_def z writeUInt16_def bytes16_def readString_def readUInt16_def
        readBytes_def bnd_def ret_def start_def word16_le_def)
  then have "65536 \<le> length ?w \<and>
      readString (start (writeString ?w)) = Inr ([], (start (writeString ?w))\<lparr>cursor := 2\<rparr>) \<and>
      fst (([]::cstring), (start (writeString ?w))\<lparr>cursor := 2\<rparr>) \<noteq> ?w"
    by simp
  then show "\<exists>w r. 65536 \<le> length w \<and> readString (start (writeString w)) = Inr r \<and> fst r \<noteq> w"
    by blast
qed

theorem readString_writeString_roundtrip_witness:
  "readString (start [2, 0, 104, 105, 7]) = Inr ([104, 105], (start [2, 0, 104, 105, 7])\<lparr>cursor := 4\<rparr>) \<and>
   length [104, 105 :: byte] \<le> 65535 \<and>
   writeString [104, 105] = [2, 0, 104, 105] \<and>
   readString (start (writeString [104, 105] @ [7])) =
     Inr ([104, 105], (start (writeString [104, 105] @ [7]))\<lparr>cursor := 4\<rparr>)"
proof -
  have w: "writeString [104, 105] = [2, 0, 104, 105]"
    by (simp add: writeString_def writeUInt16_def bytes16_def)
  have r: "readString (start [2, 0, 104, 105, 7]) =
      Inr ([104, 105], (start [2, 0, 104, 105, 7])\<lparr>cursor := 4\<rparr>)"
    by (simp add: readString_def readUInt16_def readBytes_def bnd_def ret_def start_def
        word16_le_def)
  from readString_writeString_roundtrip [of "start [2, 0, 104, 105, 7]" "[104, 105]"
      "(start [2, 0, 104, 105, 7])\<lparr>cursor := 4\<rparr>" "[104, 105]" "start [2, 0, 104, 105, 7]" "[7]"]
    w r
  show ?thesis by (simp add: start_def)
qed


subsection \<open>The sanity guard\<close>

lemma hardOffense_outside: "hardOffense c \<Longrightarrow> \<not> inEnvelope c"
  by (auto simp: hardOffense_def inEnvelope_def)

lemma guardAll_ends:
  "unusualNumbers s \<le> 3 \<Longrightarrow>
   guardAll cs s =
     (if \<exists>i<length cs. \<not> inEnvelope (cs ! i) \<and>
           3 \<le> unusualNumbers s + length (filter hardOffense (take i cs))
      then Inl (ExcessiveUnusualNumbers, s\<lparr>unusualNumbers := 3\<rparr>)
      else Inr ((), s\<lparr>unusualNumbers := unusualNumbers s + length (filter hardOffense cs)\<rparr>))"
proof (induction cs arbitrary: s)
  case Nil
  then show ?case by (simp add: ret_def)
next
  case (Cons c cs)
  obtain v mn mx wmn wmx where c: "c = (v, mn, mx, wmn, wmx)"
    by (cases c) auto
  have split: "\<And>P. (\<exists>i<length (c # cs). P i) \<longleftrightarrow> P 0 \<or> (\<exists>i<length cs. P (Suc i))"
    by (simp add: Ex_less_Suc2)
  show ?case
  proof (cases "inEnvelope c")
    case True
    with hardOffense_outside [of c] have h: "\<not> hardOffense c" by blast
    from True c have e: "ensureReasonable v mn mx wmn wmx s = Inr ((), s)"
      by (auto simp: inEnvelope_def ensureReasonable_def)
    from Cons.IH [OF Cons.prems] e True h c show ?thesis
      unfolding split by (simp add: bnd_def)
  next
    case out: False
    show ?thesis
    proof (cases "unusualNumbers s = 3")
      case three: True
      with out c have "ensureReasonable v mn mx wmn wmx s = Inl (ExcessiveUnusualNumbers, s)"
        by (auto simp: inEnvelope_def ensureReasonable_def)
      moreover from three have "s\<lparr>unusualNumbers := 3\<rparr> = s" by simp
      ultimately show ?thesis using out c three
        unfolding split by (simp add: bnd_def)
    next
      case False
      with Cons.prems have lt: "unusualNumbers s < 3" by simp
      show ?thesis
      proof (cases "hardOffense c")
        case True
        let ?s1 = "s\<lparr>unusualNumbers := unusualNumbers s + 1\<rparr>"
        from True c lt have e: "ensureReasonable v mn mx wmn wmx s = Inr ((), ?s1)"
          by (auto simp: hardOffense_def ensureReasonable_def)
        from lt have "unusualNumbers ?s1 \<le> 3" by simp
        from Cons.IH [OF this] e True c lt show ?thesis
          unfolding split by (simp add: bnd_def)
      next
        case soft: False
        with out c lt have e: "ensureReasonable v mn mx wmn wmx s = Inr ((), s)"
          by (auto simp: hardOffense_def inEnvelope_def ensureReasonable_def)
        from Cons.IH [OF Cons.prems] e soft c lt show ?thesis
          unfolding split by (simp add: bnd_def)
      qed
    qed
  qed
qed

text \<open>
  Claim C6, as it holds. \<^verbatim>\<open>ensureReasonable\<close> tests a value against
  \<open>(min, max, warnMin, warnMax)\<close>. A value inside the envelope changes nothing and never ends
  the run. A value outside \<open>[min, max]\<close> is counted while the counter is below 3; a value
  inside \<open>[min, max]\<close> and outside the warning range is let through and never counted; and
  once the counter has reached 3 every value outside the envelope, of either kind, ends the
  run. The counter of a run starts at 1. So a run of checks ends exactly when a value
  outside its envelope comes after two values outside \<open>[min, max]\<close>; otherwise the run goes
  through and the counter is 1 plus the number of values outside \<open>[min, max]\<close>.
\<close>

theorem ensureReasonable_escalation:
  "(inEnvelope (v, mn, mx, wmn, wmx) \<longrightarrow> ensureReasonable v mn mx wmn wmx s = Inr ((), s)) \<and>
   (\<not> inEnvelope (v, mn, mx, wmn, wmx) \<and> 3 \<le> unusualNumbers s \<longrightarrow>
      ensureReasonable v mn mx wmn wmx s = Inl (ExcessiveUnusualNumbers, s)) \<and>
   (hardOffense (v, mn, mx, wmn, wmx) \<and> unusualNumbers s < 3 \<longrightarrow>
      ensureReasonable v mn mx wmn wmx s = Inr ((), s\<lparr>unusualNumbers := unusualNumbers s + 1\<rparr>)) \<and>
   (\<not> inEnvelope (v, mn, mx, wmn, wmx) \<and> \<not> hardOffense (v, mn, mx, wmn, wmx) \<and>
    unusualNumbers s < 3 \<longrightarrow> ensureReasonable v mn mx wmn wmx s = Inr ((), s)) \<and>
   guardAll cs (start bs) =
     (if \<exists>i<length cs. \<not> inEnvelope (cs ! i) \<and> 2 \<le> length (filter hardOffense (take i cs))
      then Inl (ExcessiveUnusualNumbers, (start bs)\<lparr>unusualNumbers := 3\<rparr>)
      else Inr ((), (start bs)\<lparr>unusualNumbers := 1 + length (filter hardOffense cs)\<rparr>))"
proof (intro conjI impI)
  assume "inEnvelope (v, mn, mx, wmn, wmx)"
  then show "ensureReasonable v mn mx wmn wmx s = Inr ((), s)"
    by (auto simp: inEnvelope_def ensureReasonable_def)
next
  assume "\<not> inEnvelope (v, mn, mx, wmn, wmx) \<and> 3 \<le> unusualNumbers s"
  then show "ensureReasonable v mn mx wmn wmx s = Inl (ExcessiveUnusualNumbers, s)"
    by (auto simp: inEnvelope_def ensureReasonable_def)
next
  assume "hardOffense (v, mn, mx, wmn, wmx) \<and> unusualNumbers s < 3"
  then show "ensureReasonable v mn mx wmn wmx s =
      Inr ((), s\<lparr>unusualNumbers := unusualNumbers s + 1\<rparr>)"
    by (auto simp: hardOffense_def ensureReasonable_def)
next
  assume "\<not> inEnvelope (v, mn, mx, wmn, wmx) \<and> \<not> hardOffense (v, mn, mx, wmn, wmx) \<and>
    unusualNumbers s < 3"
  then show "ensureReasonable v mn mx wmn wmx s = Inr ((), s)"
    by (auto simp: inEnvelope_def hardOffense_def ensureReasonable_def)
next
  have "unusualNumbers (start bs) \<le> 3" by (simp add: start_def)
  from guardAll_ends [OF this, of cs]
  show "guardAll cs (start bs) =
     (if \<exists>i<length cs. \<not> inEnvelope (cs ! i) \<and> 2 \<le> length (filter hardOffense (take i cs))
      then Inl (ExcessiveUnusualNumbers, (start bs)\<lparr>unusualNumbers := 3\<rparr>)
      else Inr ((), (start bs)\<lparr>unusualNumbers := 1 + length (filter hardOffense cs)\<rparr>))"
    by (simp add: start_def) 
qed

theorem ensureReasonable_escalation_witness:
  "ensureReasonable 7 0 100 0 50 (start []) = Inr ((), start []) \<and>
   ensureReasonable 5000 (- 1000) 10000 0 4096 ((start [])\<lparr>unusualNumbers := 3\<rparr>) =
     Inl (ExcessiveUnusualNumbers, (start [])\<lparr>unusualNumbers := 3\<rparr>) \<and>
   ensureReasonable 200 0 100 0 50 (start []) = Inr ((), (start [])\<lparr>unusualNumbers := 2\<rparr>) \<and>
   ensureReasonable 5000 (- 1000) 10000 0 4096 (start []) = Inr ((), start []) \<and>
   guardAll [(200, 0, 100, 0, 50), (7, 0, 100, 0, 50), (- 1, 0, 100, 0, 50)] (start []) =
     Inr ((), (start [])\<lparr>unusualNumbers := 3\<rparr>) \<and>
   guardAll [(200, 0, 100, 0, 50), (7, 0, 100, 0, 50), (- 1, 0, 100, 0, 50), (101, 0, 100, 0, 50)]
     (start []) = Inl (ExcessiveUnusualNumbers, (start [])\<lparr>unusualNumbers := 3\<rparr>) \<and>
   guardAll [(200, 0, 100, 0, 50), (- 1, 0, 100, 0, 50), (51, 0, 100, 0, 50)] (start []) =
     Inl (ExcessiveUnusualNumbers, (start [])\<lparr>unusualNumbers := 3\<rparr>)"
proof -
  note A = ensureReasonable_escalation [of 7 0 100 0 50 "start []"
      "[(200, 0, 100, 0, 50), (7, 0, 100, 0, 50), (- 1, 0, 100, 0, 50)]" "[]"]
  note B = ensureReasonable_escalation [of 5000 "- 1000" 10000 0 4096
      "(start [])\<lparr>unusualNumbers := 3\<rparr>"
      "[(200, 0, 100, 0, 50), (7, 0, 100, 0, 50), (- 1, 0, 100, 0, 50), (101, 0, 100, 0, 50)]" "[]"]
  note C = ensureReasonable_escalation [of 200 0 100 0 50 "start []"
      "[(200, 0, 100, 0, 50), (- 1, 0, 100, 0, 50), (51, 0, 100, 0, 50)]" "[]"]
  note D = ensureReasonable_escalation [of 5000 "- 1000" 10000 0 4096 "start []" "[]" "[]"]
  from A B C D show ?thesis
    by (simp add: inEnvelope_def hardOffense_def start_def Ex_less_Suc ensureReasonable_def
        bnd_def ret_def)
qed

text \<open>
  Claim C6 as the spec states it: values out of range end the run after three cumulative
  offenses. Under the envelope \<open>(0, 100, 0, 50)\<close> the values 51 to 54, 200 and -1 are all
  out of range. Four values of the warning level never end the run and leave the counter
  at 1; the run 200, -1, 51 ends at its third value after only two counted ones; and the
  same three values in the order 51, 200, -1 do not end the run.
\<close>

theorem ensureReasonable_warning_runs:
  "\<not> inEnvelope (51, 0, 100, 0, 50) \<and> \<not> inEnvelope (52, 0, 100, 0, 50) \<and>
   \<not> inEnvelope (53, 0, 100, 0, 50) \<and> \<not> inEnvelope (54, 0, 100, 0, 50) \<and>
   \<not> inEnvelope (200, 0, 100, 0, 50) \<and> \<not> inEnvelope (- 1, 0, 100, 0, 50) \<and>
   guardAll [(51, 0, 100, 0, 50), (52, 0, 100, 0, 50), (53, 0, 100, 0, 50), (54, 0, 100, 0, 50)]
     (start []) = Inr ((), start []) \<and>
   guardAll [(200, 0, 100, 0, 50), (- 1, 0, 100, 0, 50), (51, 0, 100, 0, 50)] (start []) =
     Inl (ExcessiveUnusualNumbers, (start [])\<lparr>unusualNumbers := 3\<rparr>) \<and>
   guardAll [(51, 0, 100, 0, 50), (200, 0, 100, 0, 50), (- 1, 0, 100, 0, 50)] (start []) =
     Inr ((), (start [])\<lparr>unusualNumbers := 3\<rparr>)"
  by (simp add: inEnvelope_def ensureReasonable_def bnd_def ret_def start_def)

subsection \<open>The bridge decoder on the wire image of each version\<close>

lemma reads_rep:
  "\<forall>x\<in>set xs. reads m (enc x) (dec x) \<Longrightarrow>
   reads (rep (length xs) m) (concat (map enc xs)) (map dec xs)"
proof (induction xs)
  case Nil
  show ?case by (simp add: reads_ret)
next
  case (Cons x xs)
  then have x: "reads m (enc x) (dec x)"
    and xs: "reads (rep (length xs) m) (concat (map enc xs)) (map dec xs)" by simp_all
  from reads_bnd [where f = "\<lambda>y. bnd (rep (length xs) m) (\<lambda>ys. ret (y # ys))", OF x
      reads_map [OF xs, of "\<lambda>ys. dec x # ys"]]
  show ?case by simp
qed

lemma sint_of_nat_32: "n < 2 ^ 31 \<Longrightarrow> sint (of_nat n :: 32 word) = int n"
  by (simp add: signed_of_nat signed_take_bit_int_eq_self)

lemma reads_loop:
  "length xs < 2 ^ 31 \<Longrightarrow> \<forall>x\<in>set xs. reads m (enc x) (dec x) \<Longrightarrow>
   reads (loop (of_nat (length xs)) m) (concat (map enc xs)) (map dec xs)"
  by (simp add: loop_def sint_of_nat_32 reads_rep)

lemma reads_intc: "0 \<le> v \<Longrightarrow> v \<le> 4096 \<Longrightarrow> reads (intc v) [] ()"
  by (simp add: reads_def intc_def ensureReasonable_def)

lemma reads_counted:
  assumes "length xs \<le> 4096" and "\<forall>x\<in>set xs. reads m (enc x) (dec x)"
  shows "reads (counted m) (writeCount xs @ concat (map enc xs)) (map dec xs)"
proof -
  from assms(1) have lt: "length xs < 2 ^ 31" by simp
  then have s: "sint (of_nat (length xs) :: 32 word) = int (length xs)"
    by (rule sint_of_nat_32)
  have i: "reads (intc (sint (of_nat (length xs) :: 32 word))) [] ()"
    unfolding s using assms(1) by (intro reads_intc) simp_all
  show ?thesis
    unfolding counted_def writeCount_def
    by (rule reads_bnd [OF reads_readInt32], rule reads_bnd_nil [OF i],
        rule reads_loop [OF lt assms(2)])
qed

lemma reads_countedQuiet:
  assumes "length xs < 2 ^ 31" and "\<forall>x\<in>set xs. reads m (enc x) (dec x)"
  shows "reads (countedQuiet m) (writeCount xs @ concat (map enc xs)) (map dec xs)"
  unfolding countedQuiet_def writeCount_def
  by (rule reads_bnd [OF reads_readInt32], rule reads_loop [OF assms])

lemma reads_readVec3: "reads readVec3 (writeVector3 v) v"
  unfolding readVec3_def writeVector3_def
  by (rule reads_bnd [OF reads_readFloat], rule reads_bnd [OF reads_readFloat],
      rule reads_bnd_last [OF reads_readFloat], rule reads_ret_eq) simp

lemma reads_deserializeJoint: "joint_ok j \<Longrightarrow> reads deserializeJoint (serializeJoint j) j"
  unfolding deserializeJoint_def serializeJoint_def joint_ok_def
  by (rule reads_bnd [OF reads_readVec3], rule reads_bnd [OF reads_readBool],
      rule reads_bnd [OF reads_readBool], rule reads_bnd_last [OF reads_readString],
      assumption, rule reads_ret_eq) simp

lemma reads_deserializeAnchor: "joint_ok j \<Longrightarrow> reads deserializeAnchor (serializeJoint j) j"
  unfolding deserializeAnchor_def serializeJoint_def joint_ok_def
  by (rule reads_bnd [OF reads_readVec3], rule reads_bnd [OF reads_readBool],
      rule reads_bnd [OF reads_readBool], rule reads_bnd_last [OF reads_readString],
      assumption, rule reads_ret_eq) simp

lemma reads_deserializeEdge:
  assumes "edge_ok e"
  shows "reads (deserializeEdge v) (edgeWire v e) (edgeAt v e)"
proof -
  from assms have a: "str_ok (edge_node_a_guid e)" and b: "str_ok (edge_node_b_guid e)"
    and g: "str_ok (edge_guid e)" by (simp_all add: edge_ok_def)
  show ?thesis
    unfolding deserializeEdge_def edgeWire_def
    by (rule reads_bnd [OF reads_readInt32], rule reads_bnd [OF reads_readString [OF a]],
        rule reads_bnd [OF reads_readString [OF b]], rule reads_bnd [OF reads_readInt32],
        rule reads_bnd [OF reads_readInt32],
        rule reads_bnd_last [OF reads_if [OF reads_readString [OF g] reads_ret]],
        rule reads_ret_eq) (simp add: edgeAt_def)
qed

lemma reads_deserializeSpring:
  assumes "spring_ok sp"
  shows "reads deserializeSpring (serializeSpring sp) sp"
proof -
  from assms have a: "str_ok (spring_node_a_guid sp)" and b: "str_ok (spring_node_b_guid sp)"
    and g: "str_ok (spring_guid sp)" by (simp_all add: spring_ok_def)
  show ?thesis
    unfolding deserializeSpring_def serializeSpring_def
    by (rule reads_bnd [OF reads_readFloat], rule reads_bnd [OF reads_readString [OF a]],
        rule reads_bnd [OF reads_readString [OF b]],
        rule reads_bnd_last [OF reads_readString [OF g]], rule reads_ret_eq) simp
qed

lemma reads_deserializePiston:
  assumes "piston_ok p"
  shows "reads (deserializePiston fixp v) (serializePiston p) (pistonAt fixp v p)"
proof -
  from assms have a: "str_ok (piston_node_a_guid p)" and b: "str_ok (piston_node_b_guid p)"
    and g: "str_ok (piston_guid p)" by (simp_all add: piston_ok_def)
  show ?thesis
    unfolding deserializePiston_def serializePiston_def
    by (rule reads_bnd [OF reads_readFloat], rule reads_bnd [OF reads_readString [OF a]],
        rule reads_bnd [OF reads_readString [OF b]],
        rule reads_bnd_last [OF reads_readString [OF g]], rule reads_ret_eq)
      (simp add: pistonAt_def)
qed

lemma reads_deserializeSplitJoint:
  "str_ok (splitjoint_guid j) \<Longrightarrow> reads deserializeSplitJoint (serializeSplitJoint j) j"
  unfolding deserializeSplitJoint_def serializeSplitJoint_def
  by (rule reads_bnd [OF reads_readString], assumption,
      rule reads_bnd_last [OF reads_readInt32], rule reads_ret_eq) simp

lemma reads_strings:
  "list_all str_ok xs \<Longrightarrow> length xs < 2 ^ 31 \<Longrightarrow>
   reads (countedQuiet readString) (writeCount xs @ concat (map writeString xs)) xs"
  using reads_countedQuiet [of xs readString writeString "\<lambda>x. x"]
  by (simp add: list_all_iff reads_readString)

lemma reads_deserializePhase:
  assumes "phase_ok pj"
  shows "reads (deserializeHydraulicControllerPhase v) (phaseWire v pj) (phaseAt v pj)"
proof -
  from assms have g: "str_ok (hcp_hydraulics_phase_guid (fst pj))"
    and p: "list_all str_ok (hcp_piston_guids (fst pj))" "length (hcp_piston_guids (fst pj)) < 2 ^ 31"
    and j: "list_all (\<lambda>j. str_ok (splitjoint_guid j)) (hcp_bridge_split_joints (fst pj))"
       "length (hcp_bridge_split_joints (fst pj)) < 2 ^ 31"
    and k: "list_all str_ok (snd pj)" "length (snd pj) < 2 ^ 31"
    by (simp_all add: phase_ok_def)
  from j have sj: "reads (countedQuiet deserializeSplitJoint)
      (writeCount (hcp_bridge_split_joints (fst pj)) @
       concat (map serializeSplitJoint (hcp_bridge_split_joints (fst pj))))
      (hcp_bridge_split_joints (fst pj))"
    using reads_countedQuiet [of "hcp_bridge_split_joints (fst pj)" deserializeSplitJoint
        serializeSplitJoint "\<lambda>x. x"]
    by (simp add: list_all_iff reads_deserializeSplitJoint)
  have junk: "reads (bnd (countedQuiet readString) (\<lambda>_. ret []))
      (writeCount (snd pj) @ concat (map writeString (snd pj))) ([] :: BridgeSplitJoint list)"
    using reads_map [OF reads_strings [OF k], of "\<lambda>_. []"] by simp
  show ?thesis
    unfolding deserializeHydraulicControllerPhase_def phaseWire_def
    by (rule reads_bnd [OF reads_readString [OF g]], rule reads_bnd [OF reads_strings [OF p]],
        rule reads_bnd [OF reads_if [OF sj junk]],
        rule reads_bnd_last [OF reads_if [OF reads_readBool reads_ret]],
        rule reads_ret_eq) (simp add: phaseAt_def)
qed


lemma reads_v1: "0 \<le> v \<Longrightarrow> v \<le> 50 \<Longrightarrow> reads (ensureReasonable v 0 100 0 50) [] ()"
  by (simp add: reads_def ensureReasonable_def)

lemma reads_deserializeBridge:
  assumes v: "0 \<le> sint v" "sint v \<le> 50"
    and ok: "bridge_ok joints edges springs pistons phases junk5 anchors"
  shows "reads (deserializeBridge fixp)
           (bridgeWire v joints edges springs pistons phases junk5 anchors junkBool)
           (bridgeAt fixp v joints edges springs pistons phases anchors)"
proof -
  from ok have J: "reads (counted deserializeJoint)
      (writeCount joints @ concat (map serializeJoint joints)) (map (\<lambda>x. x) joints)"
    by (intro reads_counted) (simp_all add: bridge_ok_def list_all_iff reads_deserializeJoint)
  from ok have E: "reads (counted (deserializeEdge v))
      (writeCount edges @ concat (map (edgeWire v) edges)) (map (edgeAt v) edges)"
    by (intro reads_counted) (simp_all add: bridge_ok_def list_all_iff reads_deserializeEdge)
  from ok have S: "reads (counted deserializeSpring)
      (writeCount springs @ concat (map serializeSpring springs)) (map (\<lambda>x. x) springs)"
    by (intro reads_counted) (simp_all add: bridge_ok_def list_all_iff reads_deserializeSpring)
  from ok have P: "reads (counted (deserializePiston fixp v))
      (writeCount pistons @ concat (map serializePiston pistons)) (map (pistonAt fixp v) pistons)"
    by (intro reads_counted) (simp_all add: bridge_ok_def list_all_iff reads_deserializePiston)
  from ok have H: "reads (counted (deserializeHydraulicControllerPhase v))
      (writeCount phases @ concat (map (phaseWire v) phases)) (map (phaseAt v) phases)"
    by (intro reads_counted) (simp_all add: bridge_ok_def list_all_iff reads_deserializePhase)
  from ok have G: "reads (bnd (countedQuiet readString) (\<lambda>_. ret ()))
      (writeCount junk5 @ concat (map writeString junk5)) ()"
    using reads_map [OF reads_strings [of junk5], of "\<lambda>_. ()"] by (simp add: bridge_ok_def)
  from ok have A: "reads (counted deserializeAnchor)
      (writeCount anchors @ concat (map serializeJoint anchors)) (map (\<lambda>x. x) anchors)"
    by (intro reads_counted) (simp_all add: bridge_ok_def list_all_iff reads_deserializeAnchor)
  have B: "reads (bnd readBool (\<lambda>_. ret ())) (writeBool junkBool) ()"
    using reads_map [OF reads_readBool [of junkBool], of "\<lambda>_. ()"] by simp
  from v have i: "reads (intc (sint v)) [] ()"
    by (intro reads_intc) simp_all
  show ?thesis
    unfolding deserializeBridge_def bridgeWire_def bridgeAt_def
    apply (rule reads_bnd [OF reads_readInt32])
    apply (rule reads_bnd_nil [OF reads_v1 [OF v]])
    apply (rule reads_bnd_nil [OF i])
    apply (rule reads_if)
     apply (rule reads_ret)
    apply (rule reads_bnd [OF J])
    apply (rule reads_bnd [OF E])
    apply (rule reads_bnd [OF reads_if [OF S reads_ret]])
    apply (rule reads_bnd [OF P])
    apply (rule reads_bnd [OF H])
    apply (rule reads_bnd [OF reads_if [OF G reads_ret]])
    apply (rule reads_bnd [OF reads_if [OF A reads_ret]])
    apply (rule reads_bnd_last [OF reads_if [OF B reads_ret]])
    apply (rule reads_ret_eq)
    apply simp
    done
qed

lemma bnd_InrE:
  assumes "bnd m f s = Inr r"
  obtains x s1 where "m s = Inr (x, s1)" and "f x s1 = Inr r"
  using assms by (auto simp: bnd_def split: sum.splits)

lemma ensureReasonable_Inr:
  "ensureReasonable v mn mx wmn wmx s = Inr (u, s') \<Longrightarrow>
   cursor s' = cursor s \<and> input s' = input s"
  by (auto simp: ensureReasonable_def split: if_splits)

lemma readInt32_Inr:
  "readInt32 s = Inr (v, s') \<Longrightarrow> cursor s' = cursor s + 4 \<and> input s' = input s"
  by (auto simp: readInt32_def bnd_def ret_def readBytes_def split: if_splits)

lemma intc_Inr:
  "intc v s = Inr (u, s') \<Longrightarrow> cursor s' = cursor s \<and> input s' = input s"
  unfolding intc_def by (rule ensureReasonable_Inr)

lemma ret_Inr: "ret x s = Inr (y, s') \<Longrightarrow> y = x \<and> s' = s"
  by (simp add: ret_def)

lemma deserializeBridge_version:
  assumes "deserializeBridge fixp s = Inr (b, s')" and "sint (bridge_version b) < 2"
  shows "b = emptyBridge\<lparr>bridge_version := bridge_version b\<rparr> \<and>
         cursor s' = cursor s + 4 \<and> input s' = input s"
  using assms unfolding deserializeBridge_def
  apply (elim bnd_InrE)
  apply (split if_splits)
   apply (auto dest!: readInt32_Inr ensureReasonable_Inr intc_Inr ret_Inr)[1]
  apply (elim bnd_InrE)
  apply (auto dest!: ret_Inr)
  done


subsection \<open>The version-gated field schedule of the bridge\<close>

lemmas ex_defs = exJoint_def exEdge_def exPiston_def exPhase_def exBridge_def ascii_def
lemmas ok_defs = bridge_ok_def joint_ok_def edge_ok_def spring_ok_def piston_ok_def
  phase_ok_def str_ok_def
lemmas rd_defs = ret_def bnd_def fail_def readBytes_def readByte_def readInt8_def readBool_def
  readInt16_def readUInt16_def readInt32_def readFloat_def readString_def
  word16_le_def word32_le_def counted_def countedQuiet_def loop_def intc_def ensureReasonable_def
  readVec3_def readVec2_def
lemmas wr_defs = writeInt32_def writeUInt16_def writeString_def writeFloat_def writeBool_def
  writeByte_def writeCount_def bytes16_def bytes32_def writeVector3_def writeVector2_def
  serializeJoint_def serializeEdge_def serializeSpring_def serializePiston_def
  serializeSplitJoint_def serializePhase_def

text \<open>
  Claim C4. \<^verbatim>\<open>Deserializer::deserializeBridge\<close> follows the version-gated schedule.
  Whenever it returns a bridge of a version below 2, the bridge is empty and only the four
  bytes of the version were consumed. For a version from 0 to 50 and an input that starts
  with the wire image of that version (\<open>bridgeWire\<close>: joints, edges with their GUID only
  from version 11, springs only from version 7, pistons, phases with split joints above
  version 2 and discarded strings otherwise and with the trailing flag only above
  version 9, the discarded strings of version 5, anchors only from version 6, the
  discarded boolean of versions 4 to 8), it returns the fields the schedule keeps
  (\<open>bridgeAt\<close>) and consumes exactly the image. Counts are taken inside the guard's
  envelope, so that the guard stays silent.
\<close>

theorem deserializeBridge_schedule:
  "(deserializeBridge fixp s = Inr (b, s') \<and> sint (bridge_version b) < 2 \<longrightarrow>
      b = emptyBridge\<lparr>bridge_version := bridge_version b\<rparr> \<and>
      cursor s' = cursor s + 4 \<and> input s' = input s) \<and>
   (0 \<le> sint v \<and> sint v \<le> 50 \<and>
    bridge_ok joints edges springs pistons phases junk5 anchors \<and>
    cursor t \<le> length (input t) \<and>
    drop (cursor t) (input t) =
      bridgeWire v joints edges springs pistons phases junk5 anchors junkBool @ rest \<longrightarrow>
      deserializeBridge fixp t =
        Inr (bridgeAt fixp v joints edges springs pistons phases anchors,
             t\<lparr>cursor := cursor t +
                length (bridgeWire v joints edges springs pistons phases junk5 anchors junkBool)\<rparr>))"
proof (rule conjI; rule impI)
  assume "deserializeBridge fixp s = Inr (b, s') \<and> sint (bridge_version b) < 2"
  then show "b = emptyBridge\<lparr>bridge_version := bridge_version b\<rparr> \<and>
      cursor s' = cursor s + 4 \<and> input s' = input s"
    using deserializeBridge_version by blast
next
  assume a: "0 \<le> sint v \<and> sint v \<le> 50 \<and>
    bridge_ok joints edges springs pistons phases junk5 anchors \<and>
    cursor t \<le> length (input t) \<and>
    drop (cursor t) (input t) =
      bridgeWire v joints edges springs pistons phases junk5 anchors junkBool @ rest"
  then have "reads (deserializeBridge fixp)
           (bridgeWire v joints edges springs pistons phases junk5 anchors junkBool)
           (bridgeAt fixp v joints edges springs pistons phases anchors)"
    by (intro reads_deserializeBridge) simp_all
  with a show "deserializeBridge fixp t =
        Inr (bridgeAt fixp v joints edges springs pistons phases anchors,
             t\<lparr>cursor := cursor t +
                length (bridgeWire v joints edges springs pistons phases junk5 anchors junkBool)\<rparr>)"
    unfolding reads_def by blast
qed

theorem deserializeBridge_schedule_witness:
  "deserializeBridge (\<lambda>x. x + 1) (start [1, 0, 0, 0, 9]) =
     Inr (emptyBridge\<lparr>bridge_version := 1\<rparr>, (start [1, 0, 0, 0, 9])\<lparr>cursor := 4\<rparr>) \<and>
   deserializeBridge (\<lambda>x. x + 1)
     (start (bridgeWire 5 [exJoint] [exEdge] [] [exPiston] [(exPhase, [])] [ascii ''x''] [] True
             @ [9])) =
     Inr (\<lparr>bridge_version = 5, bridge_joints = [exJoint],
           bridge_edges = [exEdge\<lparr>edge_guid := []\<rparr>], bridge_springs = [],
           bridge_pistons = [exPiston\<lparr>piston_normalized_value := 0x3F000001\<rparr>],
           bridge_anchors = [],
           bridge_phases = [exPhase\<lparr>hcp_disable_new_additions := False\<rparr>]\<rparr>,
          (start (bridgeWire 5 [exJoint] [exEdge] [] [exPiston] [(exPhase, [])] [ascii ''x''] []
             True @ [9]))\<lparr>cursor := 106\<rparr>)"
proof -
  let ?w = "bridgeWire 5 [exJoint] [exEdge] [] [exPiston] [(exPhase, [])] [ascii ''x''] [] True"
  have old: "deserializeBridge (\<lambda>x. x + 1) (start [1, 0, 0, 0, 9]) =
     Inr (emptyBridge\<lparr>bridge_version := 1\<rparr>, (start [1, 0, 0, 0, 9])\<lparr>cursor := 4\<rparr>)"
    by (simp add: deserializeBridge_def rd_defs start_def)
  have ok: "bridge_ok [exJoint] [exEdge] [] [exPiston] [(exPhase, [])] [ascii ''x''] []"
    by (simp add: ok_defs ex_defs)
  have len: "length ?w = 106"
    by (simp add: bridgeWire_def edgeWire_def phaseWire_def wr_defs ex_defs)
  have at: "bridgeAt (\<lambda>x. x + 1) 5 [exJoint] [exEdge] [] [exPiston] [(exPhase, [])] [] =
     \<lparr>bridge_version = 5, bridge_joints = [exJoint],
           bridge_edges = [exEdge\<lparr>edge_guid := []\<rparr>], bridge_springs = [],
           bridge_pistons = [exPiston\<lparr>piston_normalized_value := 0x3F000001\<rparr>],
           bridge_anchors = [],
           bridge_phases = [exPhase\<lparr>hcp_disable_new_additions := False\<rparr>]\<rparr>"
    by (simp add: bridgeAt_def edgeAt_def pistonAt_def phaseAt_def ex_defs)
  note A = deserializeBridge_schedule [of "\<lambda>x. x + 1" "start [1, 0, 0, 0, 9]"
      "emptyBridge\<lparr>bridge_version := 1\<rparr>" "(start [1, 0, 0, 0, 9])\<lparr>cursor := 4\<rparr>"
      5 "[exJoint]" "[exEdge]" "[]" "[exPiston]" "[(exPhase, [])]" "[ascii ''x'']" "[]"
      "start (?w @ [9])" True "[9]"]
  from A old ok show ?thesis
    by (simp add: len at) (simp add: start_def)
qed


subsection \<open>The two bridge decoders on one stream\<close>

lemmas eval_defs = rd_defs wr_defs ex_defs start_def
  deserializeJoint_def deserializeAnchor_def deserializeEdge_def deserializeSpring_def
  deserializePiston_def deserializeSplitJoint_def deserializeHydraulicControllerPhase_def
  emptyBridge_def

lemmas simple_defs = simple_deserializeBridge_def simple_joint_def simple_edge_def
  simple_spring_def simple_piston_def simple_phase_def

lemmas layout_rd_defs = deserializeLayout_def layoutHead_def layoutMiddle_def layoutTail_def
  getVersion_def getStubKey_def deserializeAnchors_def deserializePhases_def
  deserializeBridge_def deserializeZAxisVehicles_def deserializeVehicles_def
  deserializeVehicleStopTriggers_def deserializeEventTimelines_def deserializeCheckpoints_def
  deserializeTerrainIslands_def deserializePlatforms_def deserializeRamps_def
  deserializeVehicleRestartPhases_def deserializeFlyingObjects_def deserializeRocks_def
  deserializeWaterBlocks_def deserializeBudget_def deserializeSettings_def
  deserializeCustomShapes_def deserializeWorkshop_def deserializeSupportPillars_def
  deserializePillars_def read3Bools_def read4Bools_def read4Ints_def read3Floats_def

lemmas layout_wr_defs = layoutBytes_def serializePreBridgeBinary_def serializeAnchorsBinary_def
  serializeHydraulicsPhasesBinary_def serializeBridgeBinary_def serializePostBridgeBinary_def
  serializePostBridgeObjects_def serializePostBridgeRest_def serializeBudget_def
  serializeSettings_def serializeWorkshop_def MAX_VERSION_def MAX_BRIDGE_VERSION_def
  emptyLayout_def

lemma rep_1: "rep (Suc 0) m = bnd m (\<lambda>x. ret [x])"
  by (simp add: bnd_def ret_def fun_eq_iff split: sum.splits)

text \<open>
  Claim C2. The spec says that the save-slot bridge decoder
  (\<open>SimpleBridgeDeserializer::deserializeBridge\<close>) produces the same result as the
  layout's bridge decoder (\<open>Deserializer::deserializeBridge\<close>) on the same bridge bytes.
  It does not: the loops of the slot decoder over the edges and over the hydraulic phases
  read every record and then drop it (there is no \<open>push_back\<close>), so on a version 10
  bridge with one joint, one edge, one piston and one phase both decoders consume the same
  107 bytes, the layout decoder returns the edge and the phase, and the slot decoder
  returns a bridge with no edge and no phase.
\<close>

theorem bridge_decoders_disagree:
  "deserializeBridge fixp
     (start (bridgeWire 10 [exJoint] [exEdge] [] [exPiston] [(exPhase, [])] [] [] False)) =
   Inr (\<lparr>bridge_version = 10, bridge_joints = [exJoint],
         bridge_edges = [exEdge\<lparr>edge_guid := []\<rparr>], bridge_springs = [],
         bridge_pistons = [exPiston], bridge_anchors = [], bridge_phases = [exPhase]\<rparr>,
        (start (bridgeWire 10 [exJoint] [exEdge] [] [exPiston] [(exPhase, [])] [] [] False))
          \<lparr>cursor := 107\<rparr>) \<and>
   simple_deserializeBridge fixp
     (start (bridgeWire 10 [exJoint] [exEdge] [] [exPiston] [(exPhase, [])] [] [] False)) =
   Inr (\<lparr>bridge_version = 10, bridge_joints = [exJoint], bridge_edges = [],
         bridge_springs = [], bridge_pistons = [exPiston], bridge_anchors = [],
         bridge_phases = []\<rparr>,
        (start (bridgeWire 10 [exJoint] [exEdge] [] [exPiston] [(exPhase, [])] [] [] False))
          \<lparr>cursor := 107\<rparr>)"
proof -
  have w: "bridgeWire 10 [exJoint] [exEdge] [] [exPiston] [(exPhase, [])] [] [] False =
      [10, 0, 0, 0, 1, 0, 0, 0, 0, 0, 128, 63, 0, 0, 0, 64, 0, 0, 64, 64, 1, 0, 2, 0, 106, 49,
       1, 0, 0, 0, 3, 0, 0, 0, 2, 0, 106, 49, 2, 0, 106, 50, 0, 0, 0, 0, 1, 0, 0, 0,
       0, 0, 0, 0, 1, 0, 0, 0, 0, 0, 0, 63, 2, 0, 106, 49, 2, 0, 106, 50, 2, 0, 112, 49,
       1, 0, 0, 0, 2, 0, 104, 49, 1, 0, 0, 0, 2, 0, 112, 49, 1, 0, 0, 0, 2, 0, 106, 49,
       2, 0, 0, 0, 1, 0, 0, 0, 0]"
    by (simp add: bridgeWire_def edgeWire_def phaseWire_def wr_defs ex_defs)
  have a: "deserializeBridge fixp
     (start (bridgeWire 10 [exJoint] [exEdge] [] [exPiston] [(exPhase, [])] [] [] False)) =
   Inr (\<lparr>bridge_version = 10, bridge_joints = [exJoint],
         bridge_edges = [exEdge\<lparr>edge_guid := []\<rparr>], bridge_springs = [],
         bridge_pistons = [exPiston], bridge_anchors = [], bridge_phases = [exPhase]\<rparr>,
        (start (bridgeWire 10 [exJoint] [exEdge] [] [exPiston] [(exPhase, [])] [] [] False))
          \<lparr>cursor := 107\<rparr>)"
    unfolding w by (simp add: deserializeBridge_def eval_defs)
  have b: "simple_deserializeBridge fixp
     (start (bridgeWire 10 [exJoint] [exEdge] [] [exPiston] [(exPhase, [])] [] [] False)) =
   Inr (\<lparr>bridge_version = 10, bridge_joints = [exJoint], bridge_edges = [],
         bridge_springs = [], bridge_pistons = [exPiston], bridge_anchors = [],
         bridge_phases = []\<rparr>,
        (start (bridgeWire 10 [exJoint] [exEdge] [] [exPiston] [(exPhase, [])] [] [] False))
          \<lparr>cursor := 107\<rparr>)"
    unfolding w by (simp add: simple_defs eval_defs)
  from a b show ?thesis by (rule conjI)
qed

subsection \<open>Encoding a layout and decoding it again\<close>

lemma serialize_exLayout:
  "serializeLayout toByte exLayout (start []) = Inr (layoutBytes toByte exLayout, start [])"
  by (simp add: serializeLayout_def serializerChecks_def sizeCheck_def bnd_def ret_def
      ensureReasonable_def start_def exLayout_def edgeBridge_def emptyLayout_def
      MAX_VERSION_def MAX_BRIDGE_VERSION_def)

lemma serialize_exLayout2:
  "serializeLayout toByte exLayout2 (start []) = Inr (layoutBytes toByte exLayout2, start [])"
  by (simp add: serializeLayout_def serializerChecks_def sizeCheck_def bnd_def ret_def
      ensureReasonable_def start_def exLayout2_def springBridge_def emptyLayout_def
      MAX_VERSION_def MAX_BRIDGE_VERSION_def)

lemma decode_exLayout:
  "deserializeLayout fixp ofByte (start (layoutBytes toByte exLayout)) =
     Inl (EndOfInput, (start (layoutBytes toByte exLayout))\<lparr>cursor := 203\<rparr>)"
  by (simp add: layout_wr_defs exLayout_def edgeBridge_def layout_rd_defs eval_defs)

lemma decode_exLayout2:
  "deserializeLayout fixp ofByte (start (layoutBytes toByte exLayout2)) =
     Inr (exLayout2\<lparr>layout_bridge :=
            springBridge\<lparr>bridge_edges := [exEdge\<lparr>edge_guid := [0, 0]\<rparr>],
              bridge_springs := []\<rparr>\<rparr>,
          (start (layoutBytes toByte exLayout2))\<lparr>cursor := 209\<rparr>)"
  by (simp add: layout_wr_defs exLayout2_def springBridge_def zeroSpring_def layout_rd_defs
      eval_defs)

text \<open>
  Claim C1. The spec says that decoding the bytes produced by encoding a layout of version 26
  whose bridge has version 11 gives the same layout back. It does not as soon as the bridge
  has an edge: \<open>Serializer::serializeBridgeBinary\<close> writes the bridge version 11 and then
  each edge without its GUID, while \<open>Deserializer::deserializeBridge\<close> reads a GUID after
  each edge from version 11 on, so the decoder takes the two bytes that follow the edge for
  the GUID's length and everything after is shifted. The encoder accepts both layouts below.
  The mismatch is shown on \<open>exLayout2\<close> (one joint, one edge, two springs with all fields
  zero), where every read of the decoder is inside the stream: the decoder returns a layout
  and it is another one, the edge has a GUID of two zero bytes and the springs are gone. For
  \<open>exLayout\<close> (the same without the springs) the shifted reads pass the end of the stream;
  the embedding stops there with \<open>EndOfInput\<close>, which is its convention for such reads and
  not a result about the program, whose reads are not tested.
\<close>

theorem serializeLayout_not_inverted:
  "serializeLayout toByte exLayout (start []) = Inr (layoutBytes toByte exLayout, start []) \<and>
   deserializeLayout fixp ofByte (start (layoutBytes toByte exLayout)) =
     Inl (EndOfInput, (start (layoutBytes toByte exLayout))\<lparr>cursor := 203\<rparr>) \<and>
   serializeLayout toByte exLayout2 (start []) = Inr (layoutBytes toByte exLayout2, start []) \<and>
   deserializeLayout fixp ofByte (start (layoutBytes toByte exLayout2)) =
     Inr (exLayout2\<lparr>layout_bridge :=
            springBridge\<lparr>bridge_edges := [exEdge\<lparr>edge_guid := [0, 0]\<rparr>],
              bridge_springs := []\<rparr>\<rparr>,
          (start (layoutBytes toByte exLayout2))\<lparr>cursor := 209\<rparr>) \<and>
   exLayout2\<lparr>layout_bridge :=
       springBridge\<lparr>bridge_edges := [exEdge\<lparr>edge_guid := [0, 0]\<rparr>],
         bridge_springs := []\<rparr>\<rparr> \<noteq> exLayout2 \<and>
   layout_version exLayout2 = MAX_VERSION \<and>
   bridge_version (layout_bridge exLayout2) = MAX_BRIDGE_VERSION"
proof -
  have ne: "exLayout2\<lparr>layout_bridge :=
       springBridge\<lparr>bridge_edges := [exEdge\<lparr>edge_guid := [0, 0]\<rparr>],
         bridge_springs := []\<rparr>\<rparr> \<noteq> exLayout2"
    by (simp add: exLayout2_def springBridge_def emptyLayout_def)
  have v: "layout_version exLayout2 = MAX_VERSION"
    by (simp add: exLayout2_def MAX_VERSION_def)
  have bv: "bridge_version (layout_bridge exLayout2) = MAX_BRIDGE_VERSION"
    by (simp add: exLayout2_def springBridge_def MAX_BRIDGE_VERSION_def)
  from serialize_exLayout decode_exLayout serialize_exLayout2 decode_exLayout2 ne v bv
  show ?thesis by blast
qed

subsection \<open>The version of a layout and the mod data\<close>

lemma sint_uminus_32:
  fixes raw :: "32 word"
  assumes "sint raw \<noteq> - 2147483648"
  shows "sint (- raw) = - sint raw"
proof -
  have r: "- (2 ^ 31) \<le> sint raw" "sint raw < 2 ^ 31"
    using sint_range_size [of raw] by (simp_all add: word_size)
  have "sint (- raw) = signed_take_bit 31 (- sint raw)"
    by (simp add: sint_word_ariths)
  also have "\<dots> = - sint raw"
    using r assms by (intro signed_take_bit_int_eq_self) simp_all
  finally show ?thesis .
qed

lemma readInt32_start:
  "readInt32 (start bs) = Inr (raw, s0) \<Longrightarrow>
     raw = word32_le (take 4 bs) \<and> s0 = (start bs)\<lparr>cursor := 4\<rparr>"
  by (auto simp: readInt32_def bnd_def ret_def readBytes_def start_def split: if_splits)

lemma layoutMiddle_keeps:
  "layoutMiddle l s = Inr (l', s') \<Longrightarrow>
     layout_version l' = layout_version l \<and> layout_isModded l' = layout_isModded l"
  unfolding layoutMiddle_def by (elim bnd_InrE) (auto simp: ret_def)

lemma layoutTail_keeps:
  "layoutTail ofByte l s = Inr (l', s') \<Longrightarrow>
     layout_version l' = layout_version l \<and> layout_isModded l' = layout_isModded l"
  unfolding layoutTail_def by (elim bnd_InrE) (auto simp: ret_def)

lemma getVersion_Inr:
  "getVersion s = Inr (vm, s0) \<Longrightarrow>
     \<exists>raw. readInt32 s = Inr (raw, s0) \<and>
       vm = (if sint raw < 0 then - raw else raw, sint raw < 0)"
  unfolding getVersion_def by (erule bnd_InrE) (auto simp: ret_def split: if_splits)

lemma layoutHead_version:
  assumes "layoutHead fixp s = Inr (l, s1)"
  shows "\<exists>raw s0. readInt32 s = Inr (raw, s0) \<and>
     layout_version l = (if sint raw < 0 then - raw else raw) \<and>
     layout_isModded l = (sint raw < 0)"
proof -
  from assms obtain vm s0 where g: "getVersion s = Inr (vm, s0)"
    and l: "layout_version l = fst vm" "layout_isModded l = snd vm"
    unfolding layoutHead_def by (elim bnd_InrE) (auto simp: ret_def)
  from getVersion_Inr [OF g] l show ?thesis by auto
qed

lemma replicate_num: "replicate (numeral k) x = x # replicate (pred_numeral k) x"
  by (simp add: numeral_eq_Suc)

lemmas more_defs = deserializeThemeObjects_OBSOLETE_def legacyBridge_def legacyGarbage_def
  deserializePTFModData_def tellg_def seekg_end_def seekg_def deserializeExtraSaveData_def

text \<open>
  Claim C8, as it holds. Let \<open>raw\<close> be the first four bytes of the stream, read as a
  little-endian signed integer, and let \<^verbatim>\<open>deserializeLayout\<close> return the layout \<open>L\<close>.
  If \<open>raw\<close> is negative, \<open>L\<close> has the modded flag, its version is \<open>- raw\<close> provided
  \<open>raw\<close> is above \<open>- 2\<^sup>3\<^sup>1\<close>, and \<open>L\<close> is the layout read by the body of the decoder with
  the mod data that \<^verbatim>\<open>deserializePTFModData\<close> reads from where the body stopped. If \<open>raw\<close>
  is not negative, the flag is false, the version is \<open>raw\<close>, and nothing is read after the
  body.
\<close>

theorem getVersion_negation:
  assumes "deserializeLayout fixp ofByte (start bs) = Inr (L, s')"
  shows "\<exists>l s. bnd (layoutHead fixp) (\<lambda>h. bnd (layoutMiddle h) (layoutTail ofByte)) (start bs) =
             Inr (l, s) \<and>
     (if sint (word32_le (take 4 bs)) < 0
      then layout_isModded L \<and>
           (- 2147483648 < sint (word32_le (take 4 bs)) \<longrightarrow>
              sint (layout_version L) = - sint (word32_le (take 4 bs))) \<and>
           (\<exists>modData. deserializePTFModData s = Inr (modData, s') \<and>
              L = l\<lparr>layout_modData := modData\<rparr>)
      else \<not> layout_isModded L \<and> layout_version L = word32_le (take 4 bs) \<and>
           L = l \<and> s' = s)"
proof -
  from assms obtain l1 s1 l2 s2 l3 s3 where
    h: "layoutHead fixp (start bs) = Inr (l1, s1)" and
    m: "layoutMiddle l1 s1 = Inr (l2, s2)" and
    t: "layoutTail ofByte l2 s2 = Inr (l3, s3)" and
    r: "(if \<not> layout_isModded l3 then ret l3
         else bnd deserializePTFModData (\<lambda>modData. ret (l3\<lparr>layout_modData := modData\<rparr>))) s3 =
        Inr (L, s')"
    unfolding deserializeLayout_def by (elim bnd_InrE)
  from layoutHead_version [OF h] obtain raw s0 where
    i: "readInt32 (start bs) = Inr (raw, s0)" and
    v: "layout_version l1 = (if sint raw < 0 then - raw else raw)" and
    f: "layout_isModded l1 = (sint raw < 0)" by blast
  from readInt32_start [OF i] have raw: "raw = word32_le (take 4 bs)" by simp
  from layoutMiddle_keeps [OF m] layoutTail_keeps [OF t]
  have k: "layout_version l3 = layout_version l1" "layout_isModded l3 = layout_isModded l1"
    by simp_all
  have body: "bnd (layoutHead fixp) (\<lambda>h. bnd (layoutMiddle h) (layoutTail ofByte)) (start bs) =
      Inr (l3, s3)"
    using h m t by (simp add: bnd_def)
  show ?thesis
  proof (cases "sint raw < 0")
    case True
    with k f have "layout_isModded l3" by simp
    with r obtain modData where
      d: "deserializePTFModData s3 = Inr (modData, s')" and L: "L = l3\<lparr>layout_modData := modData\<rparr>"
      by (auto elim!: bnd_InrE simp: ret_def)
    have "- 2147483648 < sint raw \<longrightarrow> sint (layout_version L) = - sint raw"
      using L k v True by (simp add: sint_uminus_32)
    moreover have "layout_isModded L" using L k f True by simp
    ultimately show ?thesis using body d L True raw by auto
  next
    case False
    with k f have n: "\<not> layout_isModded l3" by simp
    with r have "L = l3" "s' = s3" by (simp_all add: ret_def)
    then show ?thesis using body False raw k v n by auto
  qed
qed

theorem getVersion_negation_witness:
  "case deserializeLayout (\<lambda>x. x) (\<lambda>b. 0) (start ([249, 255, 255, 255] @ replicate 109 0)) of
     Inl e \<Rightarrow> False
   | Inr (l, s) \<Rightarrow> layout_isModded l \<and> sint (layout_version l) = 7 \<and> cursor s = 113 \<and>
       layout_modData l = \<lparr>mods = [], mod_save_data = []\<rparr>"
proof -
  have "\<exists>l s. deserializeLayout (\<lambda>x. x) (\<lambda>b. 0)
      (start ([249, 255, 255, 255] @ replicate 109 0)) = Inr (l, s) \<and> cursor s = 113 \<and>
      layout_modData l = \<lparr>mods = [], mod_save_data = []\<rparr>"
    by (simp add: layout_rd_defs eval_defs replicate_num more_defs)
  then obtain l s where e: "deserializeLayout (\<lambda>x. x) (\<lambda>b. 0)
      (start ([249, 255, 255, 255] @ replicate 109 0)) = Inr (l, s)"
    and c: "cursor s = 113" "layout_modData l = \<lparr>mods = [], mod_save_data = []\<rparr>" by blast
  have r: "sint (word32_le (take 4 ([249, 255, 255, 255] @ replicate 109 0))) = - 7"
    by (simp add: word32_le_def)
  from getVersion_negation [OF e] have "layout_isModded l \<and> sint (layout_version l) = 7"
    unfolding r by auto
  with e c show ?thesis by simp
qed

text \<open>
  Claim C8 as the spec states it has no bound on \<open>raw\<close>. For \<open>raw = - 2\<^sup>3\<^sup>1\<close> (the bytes
  \<open>00 00 00 80\<close>) the negation \<^verbatim>\<open>version = -version\<close> of \<^verbatim>\<open>getVersion\<close> wraps to the same
  value: the two guards on the version count it twice and let it through, the legacy
  schedule reads the zero bytes that follow, and the layout returned has the modded flag
  and the negative version \<open>- 2\<^sup>3\<^sup>1\<close>.
\<close>

theorem getVersion_minimum:
  "case deserializeLayout (\<lambda>x. x) (\<lambda>b. 0) (start ([0, 0, 0, 128] @ replicate 117 0)) of
     Inl e \<Rightarrow> False
   | Inr (l, s) \<Rightarrow> layout_isModded l \<and> sint (layout_version l) = - 2147483648 \<and>
       cursor s = 121"
  by (simp add: layout_rd_defs eval_defs replicate_num more_defs)

subsection \<open>The first assertion of the save-slot decoder\<close>

lemmas slot_defs = deserializeSlot_def slotScalars_def slotVersion_def slotPhysicsVersion_def
  slotId_def slotDisplayName_def slotFilename_def slotBudget_def slotLastWriteTime_def
  slotBridge_def slotFlag_def readThumbnail_def enterNode_def peekEntryType_def
  readTypeEntry_def slot_readString_def slot_readInt_def slot_readBool_def readLong_def
  get64_def file_get_def c_assert_def entryOfTag_def onBuffer_def readPrimitiveArray_def
  simple_deserializeBridge_def emptySlot_def

text \<open>
  Claim C5, as it holds. \<^verbatim>\<open>deserializeSlot\<close> first enters the root node, which consumes
  the first tagged entry of the stream without any assertion. If the entry peeked after
  that has a name other than \<open>m_Version\<close>, or a category other than integer, the decoder
  stops with a failed assertion in the state the peek left, so nothing after that entry is
  consumed; if the peek itself fails, the decoder fails with the error of the peek.
\<close>

theorem deserializeSlot_first_field:
  assumes "enterNode s = Inr ((), s1)"
  shows "(peekEntryType s1 = Inr (et, s2) \<and> snd et \<noteq> ascii ''m_Version'' \<longrightarrow>
            deserializeSlot fixp s = Inl (AssertionFailed, s2)) \<and>
         (peekEntryType s1 = Inr (et, s2) \<and> fst et \<noteq> Integer \<longrightarrow>
            deserializeSlot fixp s = Inl (AssertionFailed, s2)) \<and>
         (peekEntryType s1 = Inl e \<longrightarrow> deserializeSlot fixp s = Inl e)"
  using assms
  by (simp add: deserializeSlot_def slotScalars_def slotVersion_def bnd_def c_assert_def
      fail_def ret_def)


theorem deserializeSlot_first_field_witness:
  "deserializeSlot (\<lambda>x. x) (start exBadSlotBytes) =
     Inl (AssertionFailed, (start exBadSlotBytes)\<lparr>cursor := 15\<rparr>) \<and>
   length exBadSlotBytes = 17"
proof -
  have a: "enterNode (start exBadSlotBytes) = Inr ((), (start exBadSlotBytes)\<lparr>cursor := 6\<rparr>)"
    by (simp add: exBadSlotBytes_def slotText_def bytes32_def ascii_def slot_defs eval_defs)
  have b: "peekEntryType ((start exBadSlotBytes)\<lparr>cursor := 6\<rparr>) =
      Inr ((Integer, ascii ''foo''), (start exBadSlotBytes)\<lparr>cursor := 15\<rparr>)"
    by (simp add: exBadSlotBytes_def slotText_def bytes32_def ascii_def slot_defs eval_defs)
  have c: "snd (Integer, ascii ''foo'') \<noteq> ascii ''m_Version''"
    by (simp add: ascii_def)
  have d: "length exBadSlotBytes = 17"
    by (simp add: exBadSlotBytes_def slotText_def bytes32_def ascii_def)
  from deserializeSlot_first_field [OF a, of "(Integer, ascii ''foo'')"
      "(start exBadSlotBytes)\<lparr>cursor := 15\<rparr>"] b c d
  show ?thesis by simp
qed

text \<open>
  Claim C5 as the spec states it is about the first tagged entry of the stream. In
  \<open>exSlotBytes\<close> that entry is the start of the root node; its name \<open>root\<close> is not
  \<open>m_Version\<close>, and the decoder does not fail after its 10 bytes: it returns a slot after
  all 289 bytes.
\<close>

theorem deserializeSlot_root_entry:
  "peekEntryType (start exSlotBytes) =
     Inr ((StartOfNode, ascii ''root''), (start exSlotBytes)\<lparr>cursor := 10\<rparr>) \<and>
   ascii ''root'' \<noteq> ascii ''m_Version'' \<and>
   deserializeSlot (\<lambda>x. x) (start exSlotBytes) =
     Inr (\<lparr>slot_version = 3, slot_physicsVersion = 1, slot_slotId = 2,
           slot_displayName = ascii ''a'', slot_fileName = ascii ''b'', slot_budget = 5,
           slot_lastWriteTimeTicks = 6, slot_bridge = emptyBridge,
           slot_unlimitedMaterials = True, slot_unlimitedBudget = False,
           slot_thumbnail = None\<rparr>,
          (start exSlotBytes)\<lparr>cursor := 289\<rparr>) \<and>
   length exSlotBytes = 289"
  by (simp add: exSlotBytes_def slotText_def bytes32_def ascii_def slot_defs eval_defs)

subsection \<open>The string reader of the save-slot decoder\<close>

lemma reads_file_get: "reads file_get [d] (Some d)"
  unfolding reads_def file_get_def
proof (intro allI impI)
  fix s :: rstate and rest
  assume h: "cursor s \<le> length (input s) \<and> drop (cursor s) (input s) = [d] @ rest"
  then have e: "drop (cursor s) (input s) = d # rest" by simp
  then have "input s ! cursor s = d" by (rule nth_via_drop)
  moreover from e have "cursor s < length (input s)"
    by (metis drop_all list.distinct(1) not_le)
  ultimately show "(if cursor s < length (input s)
      then Inr (Some (input s ! cursor s), s\<lparr>cursor := cursor s + 1\<rparr>)
      else Inr (None, s)) = Inr (Some d, s\<lparr>cursor := cursor s + length [d]\<rparr>)"
    by simp
qed

lemma reads_slot_readInt: "reads slot_readInt (bytes32 w) w"
  unfolding slot_readInt_def
  using reads_map [OF reads_readBytes [of 4 "bytes32 w"], of word32_le]
  by (simp add: length_bytes32 word32_le_bytes32)

lemma units_le_bytes16: "units_le (concat (map bytes16 us)) = map unat us"
proof (induction us)
  case Nil
  show ?case by simp
next
  case (Cons u us)
  have "units_le (concat (map bytes16 (u # us))) =
      unat (word16_le (bytes16 u)) # units_le (concat (map bytes16 us))"
    by (simp add: bytes16_def)
  then show ?case by (simp add: word16_le_bytes16 Cons.IH)
qed

lemma length_units_bytes: "length (concat (map bytes16 us)) = 2 * length us"
  by (induction us) (simp_all add: bytes16_def)

lemma slot_readString_utf8:
  assumes "length str < 2 ^ 31"
  shows "reads slot_readString (0 # bytes32 (of_nat (length str)) @ str) str"
proof -
  have n: "sint (of_nat (length str) :: 32 word) = int (length str)"
    using assms by (rule sint_of_nat_32)
  have a: "reads (bnd slot_readInt (\<lambda>num2. if sint num2 < 0 then fail BadLength
      else readBytes (nat (sint num2)))) (bytes32 (of_nat (length str)) @ str) str"
    by (rule reads_bnd [OF reads_slot_readInt]) (simp add: n reads_readBytes)
  have "reads slot_readString ([0] @ (bytes32 (of_nat (length str)) @ str)) str"
    unfolding slot_readString_def by (rule reads_bnd [OF reads_file_get]) (simp add: a)
  then show ?thesis by simp
qed

lemma slot_readString_utf16:
  assumes "length us < 2 ^ 30" and "utf16_to_utf8 (map unat us) = Some str"
  shows "reads slot_readString
     (1 # bytes32 (of_nat (length us)) @ concat (map bytes16 us)) str"
proof -
  from assms have "length us < 2 ^ 31" by simp
  then have n: "sint (of_nat (length us) :: 32 word) = int (length us)"
    by (rule sint_of_nat_32)
  have b: "reads (bnd (readBytes (2 * length us)) (\<lambda>bs.
      case utf16_to_utf8 (units_le bs) of None \<Rightarrow> fail BadUtf16 | Some str \<Rightarrow> ret str))
      (concat (map bytes16 us)) str"
    by (rule reads_bnd_last [OF reads_readBytes])
      (simp_all add: length_units_bytes units_le_bytes16 assms reads_ret)
  have a: "reads (bnd slot_readInt (\<lambda>len. if sint len < 0 then fail BadLength
      else bnd (readBytes (2 * nat (sint len))) (\<lambda>bs.
        case utf16_to_utf8 (units_le bs) of None \<Rightarrow> fail BadUtf16 | Some str \<Rightarrow> ret str)))
      (bytes32 (of_nat (length us)) @ concat (map bytes16 us)) str"
    by (rule reads_bnd [OF reads_slot_readInt]) (simp add: n b)
  have "reads slot_readString ([1] @ (bytes32 (of_nat (length us)) @ concat (map bytes16 us))) str"
    unfolding slot_readString_def by (rule reads_bnd [OF reads_file_get]) (simp add: a)
  then show ?thesis by simp
qed

lemma slot_readString_other:
  assumes "d \<noteq> 0" and "d \<noteq> 1"
  shows "reads slot_readString [d] []"
proof -
  have "reads slot_readString ([d] @ []) []"
    unfolding slot_readString_def
    by (rule reads_bnd [OF reads_file_get]) (simp add: assms reads_ret)
  then show ?thesis by simp
qed

lemma slot_readString_eof:
  "length (input s) \<le> cursor s \<Longrightarrow> slot_readString s = Inr ([], s)"
  by (simp add: slot_readString_def bnd_def file_get_def ret_def)

lemma reads_start:
  "reads m bs v \<Longrightarrow> m (start (bs @ rest)) = Inr (v, (start (bs @ rest))\<lparr>cursor := length bs\<rparr>)"
  by (simp add: reads_def start_def)

text \<open>
  Claim C9. \<^verbatim>\<open>SlotDeserializer::readString\<close> reads one byte. At the end of the stream it
  returns the empty string and consumes nothing. A byte other than 0 and 1 gives the empty
  string and only that byte is consumed. After a 0 it reads a 32-bit length and returns
  that many bytes unchanged. After a 1 it reads a 32-bit count of code units, then that
  many little-endian 16-bit units, and returns their conversion to UTF-8.
\<close>

theorem slot_readString_cases:
  "(length (input s) \<le> cursor s \<longrightarrow> slot_readString s = Inr ([], s)) \<and>
   (d \<noteq> 0 \<and> d \<noteq> 1 \<longrightarrow> reads slot_readString [d] []) \<and>
   (length str < 2 ^ 31 \<longrightarrow>
      reads slot_readString (0 # bytes32 (of_nat (length str)) @ str) str) \<and>
   (length us < 2 ^ 30 \<and> utf16_to_utf8 (map unat us) = Some str' \<longrightarrow>
      reads slot_readString (1 # bytes32 (of_nat (length us)) @ concat (map bytes16 us)) str')"
  using slot_readString_eof [of s] slot_readString_other [of d]
    slot_readString_utf8 [of str] slot_readString_utf16 [of us str']
  by blast

theorem slot_readString_cases_witness:
  "slot_readString (start []) = Inr ([], start []) \<and>
   slot_readString (start [7, 1]) = Inr ([], (start [7, 1])\<lparr>cursor := 1\<rparr>) \<and>
   slot_readString (start [0, 2, 0, 0, 0, 104, 105, 9]) =
     Inr ([104, 105], (start [0, 2, 0, 0, 0, 104, 105, 9])\<lparr>cursor := 7\<rparr>) \<and>
   slot_readString (start [1, 1, 0, 0, 0, 0x8D, 0x05, 9]) =
     Inr ([0xD6, 0x8D], (start [1, 1, 0, 0, 0, 0x8D, 0x05, 9])\<lparr>cursor := 7\<rparr>)"
proof -
  note T = slot_readString_cases [of "start []" 7 "[104, 105]" "[0x058D]" "[0xD6, 0x8D]"]
  have u: "utf16_to_utf8 (map unat [0x058D :: 16 word]) = Some [0xD6, 0x8D]"
    by (simp add: utf8_encode_def)
  from T have a: "slot_readString (start []) = Inr ([], start [])"
    by (simp add: start_def)
  from T have "reads slot_readString [7] []" by simp
  from reads_start [OF this, of "[1]"]
  have b: "slot_readString (start [7, 1]) = Inr ([], (start [7, 1])\<lparr>cursor := 1\<rparr>)" by simp
  from T have "reads slot_readString (0 # bytes32 (of_nat (length [104, 105 :: byte])) @ [104, 105])
      [104, 105]" by simp
  from reads_start [OF this, of "[9]"]
  have c: "slot_readString (start [0, 2, 0, 0, 0, 104, 105, 9]) =
     Inr ([104, 105], (start [0, 2, 0, 0, 0, 104, 105, 9])\<lparr>cursor := 7\<rparr>)"
    by (simp add: bytes32_def)
  have w: "(1421 :: byte) = 141" by simp
  from T u have "reads slot_readString
      (1 # bytes32 (of_nat (length [0x058D :: 16 word])) @ concat (map bytes16 [0x058D]))
      [0xD6, 0x8D]" by simp
  from reads_start [OF this, of "[9]"]
  have d: "slot_readString (start [1, 1, 0, 0, 0, 0x8D, 0x05, 9]) =
     Inr ([0xD6, 0x8D], (start [1, 1, 0, 0, 0, 0x8D, 0x05, 9])\<lparr>cursor := 7\<rparr>)"
    by (simp add: bytes32_def bytes16_def w)
  from a b c d show ?thesis by simp
qed

subsection \<open>The mod data\<close>

lemma readsD:
  "reads m bs v \<Longrightarrow> cursor s \<le> length (input s) \<Longrightarrow>
   drop (cursor s) (input s) = bs @ rest \<Longrightarrow>
   m s = Inr (v, s\<lparr>cursor := cursor s + length bs\<rparr>)"
  by (simp add: reads_def)

lemma reads_readInt16: "reads readInt16 (bytes16 w) w"
  unfolding readInt16_def
  using reads_map [OF reads_readBytes [of 2 "bytes16 w"], of word16_le]
  by (simp add: length_bytes16 word16_le_bytes16)

lemma sint_of_nat_16: "n < 2 ^ 15 \<Longrightarrow> sint (of_nat n :: 16 word) = int n"
  by (simp add: signed_of_nat signed_take_bit_int_eq_self)

lemma reads_deserializeMod: "str_ok str \<Longrightarrow> reads deserializeMod (writeString str) (modOfString str)"
  unfolding deserializeMod_def by (rule reads_map [OF reads_readString])

lemma reads_mods:
  assumes "length strs \<le> 4096" and "list_all str_ok strs"
  shows "reads (bnd readInt16 (\<lambda>count. bnd (intc (sint count)) (\<lambda>_.
            rep (nat (sint count)) deserializeMod)))
          (modsWire strs) (map modOfString strs)"
proof -
  from assms(1) have "length strs < 2 ^ 15" by simp
  then have n: "sint (of_nat (length strs) :: 16 word) = int (length strs)"
    by (rule sint_of_nat_16)
  have r: "reads (rep (length strs) deserializeMod) (concat (map writeString strs))
      (map modOfString strs)"
    using assms(2) by (intro reads_rep) (simp add: list_all_iff reads_deserializeMod)
  have i: "reads (intc (int (length strs))) [] ()"
    using assms(1) by (intro reads_intc) simp_all
  show ?thesis
    unfolding modsWire_def
    by (rule reads_bnd [OF reads_readInt16]) (simp add: n reads_bnd_nil [OF i] r)
qed

lemma reads_readByteArray:
  assumes "0 < length bs" and "length bs < 2 ^ 31"
  shows "reads readByteArray (writeInt32 (of_nat (length bs)) @ bs) bs"
proof -
  from assms(2) have n: "sint (of_nat (length bs) :: 32 word) = int (length bs)"
    by (rule sint_of_nat_32)
  have l: "reads (loop (of_nat (length bs)) (readBytes 1)) (concat (map (\<lambda>x. [x]) bs))
      (map (\<lambda>x. [x]) bs)"
    using assms(2) by (intro reads_loop) (simp_all add: reads_readBytes)
  have c: "concat (map (\<lambda>x. [x]) bs) = bs" by (induction bs) simp_all
  from l have k: "reads (bnd (loop (of_nat (length bs)) (readBytes 1)) (\<lambda>bs. ret (concat bs))) bs bs"
    using reads_map [of "loop (of_nat (length bs)) (readBytes 1)" bs "map (\<lambda>x. [x]) bs" concat]
    by (simp add: c)
  from assms(1) have ne: "bs \<noteq> []" by auto
  show ?thesis
    unfolding readByteArray_def
    using k by (intro reads_bnd [OF reads_readInt32]) (simp add: n ne)
qed

lemma reads_deserializeModSaveData:
  assumes "saveEntry_ok e"
  shows "reads deserializeModSaveData (saveEntryWire e) (saveEntryOf e)"
proof (cases "part (splitString (fst e) modDelimiter) 0 = []")
  case True
  from assms have "reads readString (writeString (fst e)) (fst e)"
    by (simp add: saveEntry_ok_def reads_readString)
  then have "reads deserializeModSaveData (writeString (fst e) @ []) None"
    unfolding deserializeModSaveData_def
    by (rule reads_bnd) (simp add: True reads_ret)
  with True show ?thesis by (simp add: saveEntryWire_def saveEntryOf_def)
next
  case False
  from assms have s: "reads readString (writeString (fst e)) (fst e)"
    by (simp add: saveEntry_ok_def reads_readString)
  from assms False have b: "reads readByteArray (writeInt32 (of_nat (length (snd e))) @ snd e) (snd e)"
    by (intro reads_readByteArray) (simp_all add: saveEntry_ok_def)
  have "reads deserializeModSaveData
      (writeString (fst e) @ writeInt32 (of_nat (length (snd e))) @ snd e) (saveEntryOf e)"
    unfolding deserializeModSaveData_def
    using reads_map [OF b, of "\<lambda>d. Some \<lparr>msd_data = d,
        msd_name = part (splitString (fst e) modDelimiter) 0,
        msd_version = part (splitString (fst e) modDelimiter) 1\<rparr>"]
    by (intro reads_bnd [OF s]) (simp add: False saveEntryOf_def)
  with False show ?thesis by (simp add: saveEntryWire_def)
qed


lemma map_filter_id_map: "List.map_filter id (map f xs) = List.map_filter f xs"
  by (induction xs) (simp_all add: List.map_filter_simps split: option.splits)

lemma reads_deserializeExtraSaveData:
  assumes "length es \<le> 4096" and "list_all saveEntry_ok es"
  shows "reads (deserializeExtraSaveData ms) (extraWire es)
     \<lparr>mods = ms, mod_save_data = List.map_filter saveEntryOf es\<rparr>"
proof (cases "es = []")
  case True
  have "reads (deserializeExtraSaveData ms) (writeInt32 0 @ [])
      \<lparr>mods = ms, mod_save_data = []\<rparr>"
    unfolding deserializeExtraSaveData_def
    by (rule reads_bnd [OF reads_readInt32]) (simp add: reads_ret)
  with True show ?thesis by (simp add: extraWire_def List.map_filter_simps)
next
  case False
  with assms(1) have z: "(of_nat (length es) :: 32 word) \<noteq> 0"
    by (intro of_nat_neq_0) simp_all
  from assms(1) have lt: "length es < 2 ^ 31" by simp
  then have n: "sint (of_nat (length es) :: 32 word) = int (length es)"
    by (rule sint_of_nat_32)
  have i: "reads (intc (int (length es))) [] ()"
    using assms(1) by (intro reads_intc) simp_all
  have l: "reads (loop (of_nat (length es)) deserializeModSaveData)
      (concat (map saveEntryWire es)) (map saveEntryOf es)"
    using assms(2) lt by (intro reads_loop) (simp_all add: list_all_iff reads_deserializeModSaveData)
  have m: "reads (bnd (loop (of_nat (length es)) deserializeModSaveData)
        (\<lambda>ds. ret \<lparr>mods = ms, mod_save_data = List.map_filter id ds\<rparr>))
      (concat (map saveEntryWire es))
      \<lparr>mods = ms, mod_save_data = List.map_filter saveEntryOf es\<rparr>"
    using reads_map [OF l, of "\<lambda>ds. \<lparr>mods = ms, mod_save_data = List.map_filter id ds\<rparr>"]
    by (simp add: map_filter_id_map)
  show ?thesis
    unfolding deserializeExtraSaveData_def extraWire_def
    by (rule reads_bnd [OF reads_readInt32]) (simp add: z n reads_bnd_nil [OF i] m)
qed


lemma bnd_assoc: "bnd (bnd m f) g = bnd m (\<lambda>x. bnd (f x) g)"
  by (rule ext) (simp add: bnd_def split: sum.splits prod.splits)

lemma splitFrom_clean: "d \<notin> set a \<Longrightarrow> splitFrom d ds cur a = [cur @ a]"
  by (induction a arbitrary: cur) auto

lemma splitFrom_delim:
  "d \<notin> set a \<Longrightarrow> splitFrom d ds cur (a @ d # ds @ r) = (cur @ a) # splitFrom d ds [] r"
  by (induction a arbitrary: cur) auto

lemma modOfString_parts:
  assumes "0xD6 \<notin> set a" and "0xD6 \<notin> set b" and "0xD6 \<notin> set c"
  shows "modOfString (a @ modDelimiter @ b @ modDelimiter @ c) =
           \<lparr>mod_name = a, mod_version = b, mod_settings = c\<rparr>"
    and "modOfString (a @ modDelimiter @ b) = \<lparr>mod_name = a, mod_version = b, mod_settings = []\<rparr>"
    and "modOfString a = \<lparr>mod_name = a, mod_version = [], mod_settings = []\<rparr>"
  using assms
  by (simp_all add: modOfString_def splitString_def modDelimiter_def part_def
      splitFrom_delim [where ds = "[0x8D]", simplified] splitFrom_clean)

text \<open>
  Claim C7. Let the unread input start with the wire image of the mod strings: a 16-bit
  count and that many length-prefixed strings. \<^verbatim>\<open>deserializePTFModData\<close> returns one mod
  for each string. If the stream ends there, it returns no save data and stops at the end.
  Otherwise it continues from the position right after the mod strings: it reads a 32-bit
  count and that many entries; an entry whose name is empty is an identifier string only
  and is skipped, any other entry is an identifier string and a byte array of a 32-bit
  length with one byte for each element; the cursor ends right after the last entry,
  whatever follows. A mod string is cut at the two-byte delimiter: its first three parts
  are the name, the version and the settings, and a missing part is empty.
\<close>

theorem deserializePTFModData_wire:
  assumes c: "cursor s \<le> length (input s)"
    and d: "drop (cursor s) (input s) = modsWire strs @ rest"
    and n: "length strs \<le> 4096" and ok: "list_all str_ok strs"
  shows "(rest = [] \<longrightarrow> deserializePTFModData s =
            Inr (\<lparr>mods = map modOfString strs, mod_save_data = []\<rparr>,
                 s\<lparr>cursor := length (input s)\<rparr>)) \<and>
         (rest = extraWire es @ rest' \<and> length es \<le> 4096 \<and> list_all saveEntry_ok es \<longrightarrow>
            deserializePTFModData s =
            Inr (\<lparr>mods = map modOfString strs, mod_save_data = List.map_filter saveEntryOf es\<rparr>,
                 s\<lparr>cursor := cursor s + length (modsWire strs) + length (extraWire es)\<rparr>)) \<and>
         (0xD6 \<notin> set a \<and> 0xD6 \<notin> set b \<and> 0xD6 \<notin> set c' \<longrightarrow>
            modOfString (a @ modDelimiter @ b @ modDelimiter @ c') =
              \<lparr>mod_name = a, mod_version = b, mod_settings = c'\<rparr> \<and>
            modOfString (a @ modDelimiter @ b) =
              \<lparr>mod_name = a, mod_version = b, mod_settings = []\<rparr> \<and>
            modOfString a = \<lparr>mod_name = a, mod_version = [], mod_settings = []\<rparr>)"
proof -
  let ?ms = "map modOfString strs"
  let ?s2 = "s\<lparr>cursor := cursor s + length (modsWire strs)\<rparr>"
  let ?probe = "\<lambda>ms. bnd tellg (\<lambda>p. bnd seekg_end (\<lambda>_. bnd tellg (\<lambda>e.
      if p = e then ret \<lparr>mods = ms, mod_save_data = []\<rparr>
      else bnd (seekg p) (\<lambda>_. deserializeExtraSaveData ms))))"
  have p: "bnd readInt16 (\<lambda>count. bnd (intc (sint count)) (\<lambda>_.
      rep (nat (sint count)) deserializeMod)) s = Inr (?ms, ?s2)"
    by (rule readsD [OF reads_mods [OF n ok] c d])
  let ?prefix = "bnd readInt16 (\<lambda>count. bnd (intc (sint count)) (\<lambda>_.
      rep (nat (sint count)) deserializeMod))"
  have "deserializePTFModData = bnd ?prefix ?probe"
    by (simp add: deserializePTFModData_def bnd_assoc)
  then have "deserializePTFModData s = bnd ?prefix ?probe s" by simp
  also have "\<dots> = (case ?prefix s of Inl e \<Rightarrow> Inl e | Inr (x, s') \<Rightarrow> ?probe x s')"
    by (rule bnd_def)
  also have "\<dots> = ?probe ?ms ?s2"
    unfolding p by simp
  finally have e: "deserializePTFModData s = ?probe ?ms ?s2" .
  from d have "length (drop (cursor s) (input s)) = length (modsWire strs @ rest)" by simp
  with c have len: "cursor s + length (modsWire strs) + length rest = length (input s)" by simp
  have pr: "?probe ?ms ?s2 =
      (if cursor s + length (modsWire strs) = length (input s)
       then Inr (\<lparr>mods = ?ms, mod_save_data = []\<rparr>, s\<lparr>cursor := length (input s)\<rparr>)
       else deserializeExtraSaveData ?ms ?s2)"
    by (simp add: bnd_def tellg_def seekg_end_def seekg_def ret_def)
  have sp: "0xD6 \<notin> set a \<and> 0xD6 \<notin> set b \<and> 0xD6 \<notin> set c' \<longrightarrow>
      modOfString (a @ modDelimiter @ b @ modDelimiter @ c') =
        \<lparr>mod_name = a, mod_version = b, mod_settings = c'\<rparr> \<and>
      modOfString (a @ modDelimiter @ b) =
        \<lparr>mod_name = a, mod_version = b, mod_settings = []\<rparr> \<and>
      modOfString a = \<lparr>mod_name = a, mod_version = [], mod_settings = []\<rparr>"
    using modOfString_parts [of a b c'] by blast
  have "(rest = [] \<longrightarrow> deserializePTFModData s =
            Inr (\<lparr>mods = map modOfString strs, mod_save_data = []\<rparr>,
                 s\<lparr>cursor := length (input s)\<rparr>)) \<and>
         (rest = extraWire es @ rest' \<and> length es \<le> 4096 \<and> list_all saveEntry_ok es \<longrightarrow>
            deserializePTFModData s =
            Inr (\<lparr>mods = map modOfString strs, mod_save_data = List.map_filter saveEntryOf es\<rparr>,
                 s\<lparr>cursor := cursor s + length (modsWire strs) + length (extraWire es)\<rparr>))"
  proof (rule conjI; rule impI)
    assume "rest = []"
    with len e pr show "deserializePTFModData s =
        Inr (\<lparr>mods = ?ms, mod_save_data = []\<rparr>, s\<lparr>cursor := length (input s)\<rparr>)"
      by simp
  next
    assume a: "rest = extraWire es @ rest' \<and> length es \<le> 4096 \<and> list_all saveEntry_ok es"
    then have "0 < length rest" by (simp add: extraWire_def writeInt32_def length_bytes32)
    with len have ne: "cursor s + length (modsWire strs) \<noteq> length (input s)" by arith
    from len have c2: "cursor ?s2 \<le> length (input ?s2)" by simp
    have "drop (cursor s + length (modsWire strs)) (input s) =
        drop (length (modsWire strs)) (drop (cursor s) (input s))"
      by (simp add: add.commute)
    with d a have d2: "drop (cursor ?s2) (input ?s2) = extraWire es @ rest'" by simp
    from a have "reads (deserializeExtraSaveData ?ms) (extraWire es)
        \<lparr>mods = ?ms, mod_save_data = List.map_filter saveEntryOf es\<rparr>"
      by (intro reads_deserializeExtraSaveData) simp_all
    from readsD [OF this c2 d2] e pr ne
    show "deserializePTFModData s =
        Inr (\<lparr>mods = ?ms, mod_save_data = List.map_filter saveEntryOf es\<rparr>,
             s\<lparr>cursor := cursor s + length (modsWire strs) + length (extraWire es)\<rparr>)"
      by simp
  qed
  with sp show ?thesis by blast
qed

theorem deserializePTFModData_wire_witness:
  "deserializePTFModData (start [1, 0, 4, 0, 109, 0xD6, 0x8D, 49]) =
     Inr (\<lparr>mods = [\<lparr>mod_name = [109], mod_version = [49], mod_settings = []\<rparr>],
           mod_save_data = []\<rparr>,
          (start [1, 0, 4, 0, 109, 0xD6, 0x8D, 49])\<lparr>cursor := 8\<rparr>) \<and>
   deserializePTFModData
     (start ([1, 0, 4, 0, 109, 0xD6, 0x8D, 49] @
             [2, 0, 0, 0, 0, 0, 1, 0, 109, 2, 0, 0, 0, 7, 8] @ [9])) =
     Inr (\<lparr>mods = [\<lparr>mod_name = [109], mod_version = [49], mod_settings = []\<rparr>],
           mod_save_data = [\<lparr>msd_data = [7, 8], msd_name = [109], msd_version = []\<rparr>]\<rparr>,
          (start ([1, 0, 4, 0, 109, 0xD6, 0x8D, 49] @
             [2, 0, 0, 0, 0, 0, 1, 0, 109, 2, 0, 0, 0, 7, 8] @ [9]))\<lparr>cursor := 23\<rparr>)"
proof -
  have w1: "modsWire [[109, 0xD6, 0x8D, 49]] = [1, 0, 4, 0, 109, 0xD6, 0x8D, 49]"
    by (simp add: modsWire_def wr_defs)
  have w2: "extraWire [([], []), ([109], [7, 8])] =
      [2, 0, 0, 0, 0, 0, 1, 0, 109, 2, 0, 0, 0, 7, 8]"
    by (simp add: extraWire_def saveEntryWire_def part_def splitString_def modDelimiter_def
        wr_defs)
  have m: "modOfString [109, 0xD6, 0x8D, 49] =
      \<lparr>mod_name = [109], mod_version = [49], mod_settings = []\<rparr>"
    by (simp add: modOfString_def part_def splitString_def modDelimiter_def)
  have ok: "list_all saveEntry_ok [([], []), ([109], [7, 8 :: byte])]"
    by (simp add: saveEntry_ok_def str_ok_def part_def splitString_def modDelimiter_def)
  note A = deserializePTFModData_wire [of "start [1, 0, 4, 0, 109, 0xD6, 0x8D, 49]"
      "[[109, 0xD6, 0x8D, 49]]" "[]" "[]" "[]" "[]" "[]" "[]"]
  note B = deserializePTFModData_wire [of
      "start ([1, 0, 4, 0, 109, 0xD6, 0x8D, 49] @
             [2, 0, 0, 0, 0, 0, 1, 0, 109, 2, 0, 0, 0, 7, 8] @ [9])"
      "[[109, 0xD6, 0x8D, 49]]" "[2, 0, 0, 0, 0, 0, 1, 0, 109, 2, 0, 0, 0, 7, 8] @ [9]"
      "[([], []), ([109], [7, 8])]" "[9]" "[]" "[]" "[]"]
  from A have a: "deserializePTFModData (start [1, 0, 4, 0, 109, 0xD6, 0x8D, 49]) =
     Inr (\<lparr>mods = [\<lparr>mod_name = [109], mod_version = [49], mod_settings = []\<rparr>],
           mod_save_data = []\<rparr>,
          (start [1, 0, 4, 0, 109, 0xD6, 0x8D, 49])\<lparr>cursor := 8\<rparr>)"
    by (simp add: w1 m start_def str_ok_def)
  from B ok have b: "deserializePTFModData
     (start ([1, 0, 4, 0, 109, 0xD6, 0x8D, 49] @
             [2, 0, 0, 0, 0, 0, 1, 0, 109, 2, 0, 0, 0, 7, 8] @ [9])) =
     Inr (\<lparr>mods = [\<lparr>mod_name = [109], mod_version = [49], mod_settings = []\<rparr>],
           mod_save_data = [\<lparr>msd_data = [7, 8], msd_name = [109], msd_version = []\<rparr>]\<rparr>,
          (start ([1, 0, 4, 0, 109, 0xD6, 0x8D, 49] @
             [2, 0, 0, 0, 0, 0, 1, 0, 109, 2, 0, 0, 0, 7, 8] @ [9]))\<lparr>cursor := 23\<rparr>)"
    by (simp add: w1 w2 m start_def str_ok_def saveEntryOf_def part_def splitString_def
        modDelimiter_def)
  from a b show ?thesis by (rule conjI)
qed

subsection \<open>The piston correction\<close>

lemma unat_pack:
  assumes "n < 2 ^ 31"
  shows "unat (f_pack s n) = (if s then 0x80000000 else 0) OR n"
proof -
  from assms have "n < 2 ^ 32" by simp
  then have "unat (of_nat n :: 32 word) = n"
    by (simp add: unat_of_nat)
  then show ?thesis
    by (simp add: f_pack_def unsigned_or_eq)
qed

lemma f_mag_pack:
  assumes "n < 2 ^ 31"
  shows "f_mag (f_pack s n) = n"
proof -
  have z: "take_bit 31 (0x80000000 :: nat) = 0" by (simp add: take_bit_eq_mod)
  have "f_mag (f_pack s n) = take_bit 31 ((if s then 0x80000000 else 0) OR n)"
    by (simp only: f_mag_def unsigned_take_bit_eq unat_pack [OF assms])
  also have "\<dots> = take_bit 31 n"
    by (simp add: z)
  also have "\<dots> = n"
    using assms by (simp add: take_bit_nat_eq_self)
  finally show ?thesis .
qed

lemma f_sign_pack:
  assumes "n < 2 ^ 31"
  shows "f_sign (f_pack s n) = s"
proof -
  from assms have b: "\<not> bit n 31" by (simp add: bit_iff_odd)
  have c: "bit (0x80000000 :: nat) 31" by (simp add: bit_iff_odd)
  have "f_sign (f_pack s n) = bit (unat (f_pack s n)) 31"
    by (simp add: f_sign_def bit_unsigned_iff)
  also have "\<dots> = s"
    using b c by (simp add: unat_pack [OF assms] bit_or_iff)
  finally show ?thesis .
qed


lemma rhe_le: "x \<le> of_int k \<Longrightarrow> rhe x \<le> k"
proof -
  assume a: "x \<le> of_int k"
  then have f: "\<lfloor>x\<rfloor> \<le> k" by linarith
  show ?thesis
  proof (cases "\<lfloor>x\<rfloor> = k")
    case True
    with a have "x = of_int \<lfloor>x\<rfloor>" using of_int_floor_le [of x] by linarith
    then have "x - of_int \<lfloor>x\<rfloor> < 1 / 2" by simp
    with True show ?thesis by (simp add: rhe_def)
  next
    case False
    with f have "\<lfloor>x\<rfloor> + 1 \<le> k" by simp
    with f show ?thesis by (simp add: rhe_def)
  qed
qed

lemma rhe_ge: "of_int k \<le> x \<Longrightarrow> k \<le> rhe x"
proof -
  assume "of_int k \<le> x"
  then have "k \<le> \<lfloor>x\<rfloor>" by (simp add: le_floor_iff)
  then show ?thesis by (simp add: rhe_def)
qed

lemma expo_le: "expo i a \<le> i"
  by (induction i) auto

lemma expo_lower: "1 \<le> expo i a \<Longrightarrow> 2 ^ expo i a \<le> a * 2 ^ 126"
proof (induction i)
  case 0
  then show ?case by simp
next
  case (Suc i)
  show ?case
  proof (cases "2 ^ Suc i \<le> a * 2 ^ 126")
    case True
    then have "expo (Suc i) a = Suc i" by (simp only: expo.simps if_True)
    with True show ?thesis by (simp only:)
  next
    case False
    then have e: "expo (Suc i) a = expo i a" by (simp only: expo.simps if_False)
    with Suc show ?thesis by (simp only:)
  qed
qed


lemma expo_upper: "expo i a < i \<Longrightarrow> a * 2 ^ 126 < 2 ^ (expo i a + 1)"
proof (induction i)
  case 0
  then show ?case by simp
next
  case (Suc i)
  show ?case
  proof (cases "2 ^ Suc i \<le> a * 2 ^ 126")
    case True
    then have "expo (Suc i) a = Suc i" by (simp only: expo.simps if_True)
    with Suc.prems show ?thesis by simp
  next
    case False
    then have e: "expo (Suc i) a = expo i a" by (simp only: expo.simps if_False)
    show ?thesis
    proof (cases "expo i a < i")
      case True
      with Suc.IH e show ?thesis by (simp only:)
    next
      case n: False
      with expo_le [of i a] have "expo i a = i" by simp
      with e False show ?thesis by (simp only: Suc_eq_plus1 not_le)
    qed
  qed
qed

lemma expo_max: "1 \<le> j \<Longrightarrow> j \<le> i \<Longrightarrow> 2 ^ j \<le> a * 2 ^ 126 \<Longrightarrow> j \<le> expo i a"
proof (induction i)
  case 0
  then show ?case by simp
next
  case (Suc i)
  show ?case
  proof (cases "2 ^ Suc i \<le> a * 2 ^ 126")
    case True
    then have "expo (Suc i) a = Suc i" by (simp only: expo.simps if_True)
    with Suc.prems show ?thesis by simp
  next
    case False
    then have e: "expo (Suc i) a = expo i a" by (simp only: expo.simps if_False)
    from False Suc.prems have "j \<noteq> Suc i" by auto
    with Suc.prems have "j \<le> i" by simp
    with Suc e show ?thesis by (simp only:)
  qed
qed

lemma mag_num_split:
  assumes "2 ^ 23 \<le> n"
  shows "mag_num n = (2 ^ 23 + n mod 2 ^ 23) * 2 ^ (n div 2 ^ 23 - 1)" and "1 \<le> n div 2 ^ 23"
proof -
  from assms show "mag_num n = (2 ^ 23 + n mod 2 ^ 23) * 2 ^ (n div 2 ^ 23 - 1)"
    by (simp add: mag_num_def)
  from assms have "(2 ^ 23 :: nat) div 2 ^ 23 \<le> n div 2 ^ 23" by (rule div_le_mono)
  then show "1 \<le> n div 2 ^ 23" by simp
qed

lemma mag_num_ge:
  assumes "Suc k * 2 ^ 23 \<le> n"
  shows "2 ^ 23 * 2 ^ k \<le> mag_num n"
proof -
  from assms have n: "(2 ^ 23 :: nat) \<le> n" by simp
  from assms have "(Suc k * 2 ^ 23) div 2 ^ 23 \<le> n div 2 ^ 23" by (rule div_le_mono)
  then have "k \<le> n div 2 ^ 23 - 1" by simp
  then have "(2 :: nat) ^ k \<le> 2 ^ (n div 2 ^ 23 - 1)" by (simp add: power_increasing)
  moreover have "(2 ^ 23 :: nat) \<le> 2 ^ 23 + n mod 2 ^ 23" by simp
  ultimately have "2 ^ 23 * 2 ^ k \<le> (2 ^ 23 + n mod 2 ^ 23) * 2 ^ (n div 2 ^ 23 - 1)"
    by (rule mult_le_mono [rotated])
  with mag_num_split(1) [OF n] show ?thesis by (simp only:)
qed

lemma mag_num_below:
  fixes n :: nat
  assumes n: "2 ^ 23 \<le> n" and e: "n div 2 ^ 23 \<le> k"
  shows "mag_num n < 2 ^ 23 * 2 ^ k"
proof -
  have "n mod 2 ^ 23 < 2 ^ 23" by simp
  then have "2 ^ 23 + n mod 2 ^ 23 < 2 * 2 ^ 23" by simp
  then have "(2 ^ 23 + n mod 2 ^ 23) * 2 ^ (n div 2 ^ 23 - 1) <
      (2 * 2 ^ 23) * 2 ^ (n div 2 ^ 23 - 1)"
    by (simp only: mult_less_cancel2) simp
  also have "\<dots> = 2 ^ 23 * 2 ^ Suc (n div 2 ^ 23 - 1)" by simp
  also from mag_num_split(2) [OF n] have "Suc (n div 2 ^ 23 - 1) = n div 2 ^ 23" by simp
  also from e have "(2 ^ 23 :: nat) * 2 ^ (n div 2 ^ 23) \<le> 2 ^ 23 * 2 ^ k"
    by (simp add: power_increasing)
  finally show ?thesis using mag_num_split(1) [OF n] by (simp only:)
qed

lemma mag_num_less:
  assumes "n < Suc k * 2 ^ 23"
  shows "mag_num n < 2 ^ 23 * 2 ^ k"
proof (cases "n < 2 ^ 23")
  case True
  then have "mag_num n < 2 ^ 23" by (simp add: mag_num_def)
  also have "(2 ^ 23 :: nat) \<le> 2 ^ 23 * 2 ^ k" by simp
  finally show ?thesis .
next
  case False
  then have n: "(2 ^ 23 :: nat) \<le> n" by simp
  from assms have "n div 2 ^ 23 < Suc k"
    by (simp add: div_less_iff_less_mult)
  then have "n div 2 ^ 23 \<le> k" by simp
  with n show ?thesis by (rule mag_num_below)
qed

lemma mag_num_le:
  assumes "n \<le> Suc k * 2 ^ 23"
  shows "mag_num n \<le> 2 ^ 23 * 2 ^ k"
proof (cases "n = Suc k * 2 ^ 23")
  case True
  then show ?thesis by (simp add: mag_num_def)
next
  case False
  with assms have "n < Suc k * 2 ^ 23" by simp
  then show ?thesis using mag_num_less by (simp add: less_imp_le)
qed


lemma scale_split: "a * 2 ^ 149 = (a * 2 ^ 126) * 2 ^ 23" for a :: real
  by simp

lemma fround_mag_le:
  assumes a: "a * 2 ^ 149 \<le> 2 ^ 23 * 2 ^ k" and k: "k \<le> 253"
  shows "fround_mag a \<le> Suc k * 2 ^ 23"
proof -
  let ?e = "expo 254 a"
  let ?x = "a * 2 ^ 149 / 2 ^ ?e"
  from a have sc: "a * 2 ^ 126 \<le> 2 ^ k"
    unfolding scale_split by simp
  have le: "?e \<le> 254" by (rule expo_le)
  have fm: "fround_mag a \<le> ?e * 2 ^ 23 + nat (rhe ?x)"
    by (simp add: fround_mag_def)
  show ?thesis
  proof (cases "?e < k")
    case True
    with k have "?e < 254" by simp
    then have "a * 2 ^ 126 < 2 ^ (?e + 1)" by (rule expo_upper)
    then have "(a * 2 ^ 126) * 2 ^ 23 < (2 * 2 ^ ?e) * 2 ^ 23" by simp
    then have "?x < 2 ^ 24"
      unfolding scale_split by (simp add: pos_divide_less_eq)
    then have "?x \<le> of_int (2 ^ 24)" by simp
    then have "rhe ?x \<le> 2 ^ 24" by (rule rhe_le)
    then have "nat (rhe ?x) \<le> 2 * 2 ^ 23" by simp
    then have "?e * 2 ^ 23 + nat (rhe ?x) \<le> (?e + 2) * 2 ^ 23" by simp
    also from True have "(?e + 2) * 2 ^ 23 \<le> Suc k * (2 ^ 23 :: nat)"
      by (intro mult_le_mono1) simp
    finally show ?thesis using fm by simp
  next
    case False
    have ek: "?e = k"
    proof (cases "?e = 0")
      case True
      with False show ?thesis by simp
    next
      case e: False
      then have "1 \<le> ?e" by simp
      then have "2 ^ ?e \<le> a * 2 ^ 126" by (rule expo_lower)
      from this sc have "(2 :: real) ^ ?e \<le> 2 ^ k" by (rule order_trans)
      then have "?e \<le> k" by (simp add: power_le_imp_le_exp)
      with False show ?thesis by simp
    qed
    from a have "?x \<le> 2 ^ 23"
      unfolding ek by (simp add: pos_divide_le_eq)
    then have "?x \<le> of_int (2 ^ 23)" by simp
    then have "rhe ?x \<le> 2 ^ 23" by (rule rhe_le)
    then have "nat (rhe ?x) \<le> 2 ^ 23" by simp
    then have "?e * 2 ^ 23 + nat (rhe ?x) \<le> Suc ?e * 2 ^ 23" by simp
    with fm show ?thesis unfolding ek by simp
  qed
qed

lemma fround_mag_ge:
  assumes a: "2 ^ 23 * 2 ^ k \<le> a * 2 ^ 149" and k: "k \<le> 254"
  shows "Suc k * 2 ^ 23 \<le> fround_mag a"
proof -
  let ?e = "expo 254 a"
  let ?x = "a * 2 ^ 149 / 2 ^ ?e"
  from a have sc: "2 ^ k \<le> a * 2 ^ 126"
    unfolding scale_split by simp
  have ke: "k \<le> ?e"
  proof (cases "k = 0")
    case True
    then show ?thesis by simp
  next
    case False
    then have "1 \<le> k" by simp
    from this k sc show ?thesis by (rule expo_max)
  qed
  have x: "2 ^ 23 \<le> ?x"
  proof (cases "?e = 0")
    case True
    with ke have "k = 0" by simp
    with a True show ?thesis by simp
  next
    case False
    then have "1 \<le> ?e" by simp
    then have "2 ^ ?e \<le> a * 2 ^ 126" by (rule expo_lower)
    then have "2 ^ ?e * 2 ^ 23 \<le> (a * 2 ^ 126) * 2 ^ 23" by simp
    then show ?thesis
      unfolding scale_split by (simp add: pos_le_divide_eq mult.commute)
  qed
  then have "of_int (2 ^ 23) \<le> ?x" by simp
  then have "2 ^ 23 \<le> rhe ?x" by (rule rhe_ge)
  then have "2 ^ 23 \<le> nat (rhe ?x)" by simp
  then have "Suc ?e * 2 ^ 23 \<le> ?e * 2 ^ 23 + nat (rhe ?x)" by simp
  moreover from ke have "Suc k * (2 ^ 23 :: nat) \<le> Suc ?e * 2 ^ 23"
    by (intro mult_le_mono1) simp
  moreover from k have "Suc k * (2 ^ 23 :: nat) \<le> 255 * 2 ^ 23"
    by (intro mult_le_mono1) simp
  ultimately show ?thesis by (simp add: fround_mag_def)
qed


lemma mag_val_nonneg: "0 \<le> mag_val n"
  by (simp add: mag_val_def)

lemma mag_val_zero: "mag_val n = 0 \<longleftrightarrow> n = 0"
proof -
  have "mag_num n = 0 \<longleftrightarrow> n = 0"
    by (simp add: mag_num_def)
  then show ?thesis by (simp add: mag_val_def)
qed

lemma mag_num_mono:
  assumes "n < n'"
  shows "mag_num n < mag_num n'"
proof (cases "n' < 2 ^ 23")
  case True
  with assms show ?thesis by (simp add: mag_num_def)
next
  case False
  then have n': "(2 ^ 23 :: nat) \<le> n'" by simp
  show ?thesis
  proof (cases "n div 2 ^ 23 < n' div 2 ^ 23")
    case True
    then obtain k where k: "n' div 2 ^ 23 = Suc k" and nk: "n div 2 ^ 23 \<le> k"
      by (cases "n' div 2 ^ 23") simp_all
    have "Suc k * 2 ^ 23 \<le> n'"
      using k div_times_less_eq_dividend [of n' "2 ^ 23"] by simp
    then have g: "2 ^ 23 * 2 ^ k \<le> mag_num n'" by (rule mag_num_ge)
    have "n < Suc k * 2 ^ 23"
      using nk by (simp add: div_less_iff_less_mult [symmetric])
    then have "mag_num n < 2 ^ 23 * 2 ^ k" by (rule mag_num_less)
    with g show ?thesis by simp
  next
    case False
    from assms have "n div 2 ^ 23 \<le> n' div 2 ^ 23" by (simp add: div_le_mono)
    with False have e: "n div 2 ^ 23 = n' div 2 ^ 23" by simp
    have q: "n' div 2 ^ 23 * 2 ^ 23 \<le> n"
      using div_times_less_eq_dividend [of n "2 ^ 23"] unfolding e .
    have "n mod 2 ^ 23 = n - n' div 2 ^ 23 * 2 ^ 23"
      unfolding e [symmetric] by (rule modulo_nat_def)
    moreover have "n' mod 2 ^ 23 = n' - n' div 2 ^ 23 * 2 ^ 23"
      by (rule modulo_nat_def)
    moreover from assms q have "n - n' div 2 ^ 23 * 2 ^ 23 < n' - n' div 2 ^ 23 * 2 ^ 23"
      by (rule diff_less_mono)
    ultimately have m: "n mod 2 ^ 23 < n' mod 2 ^ 23" by (simp only:)
    from n' have "1 \<le> n' div 2 ^ 23" by (rule mag_num_split(2))
    with e have "2 ^ 23 \<le> n"
      using div_times_less_eq_dividend [of n "2 ^ 23"] by (cases "n < 2 ^ 23") simp_all
    from mag_num_split(1) [OF this] mag_num_split(1) [OF n'] e m show ?thesis by simp
  qed
qed

lemma mag_val_less_iff: "mag_val n < mag_val n' \<longleftrightarrow> n < n'"
proof -
  have "mag_num n < mag_num n' \<longleftrightarrow> n < n'"
    using mag_num_mono [of n n'] mag_num_mono [of n' n]
    by (cases n n' rule: linorder_cases) auto
  then show ?thesis by (simp add: mag_val_def divide_less_cancel)
qed

lemma flt_iff:
  assumes "\<not> is_nan a" and "\<not> is_nan b"
  shows "flt a b \<longleftrightarrow> valof a < valof b"
proof -
  have z: "mag_val (f_mag a) = 0 \<longleftrightarrow> f_mag a = 0" "mag_val (f_mag b) = 0 \<longleftrightarrow> f_mag b = 0"
    by (rule mag_val_zero)+
  have p: "0 \<le> mag_val (f_mag a)" "0 \<le> mag_val (f_mag b)"
    by (rule mag_val_nonneg)+
  note m = mag_val_less_iff [of "f_mag a" "f_mag b"] mag_val_less_iff [of "f_mag b" "f_mag a"]
  show ?thesis
  proof (cases "f_sign a")
    case sa: True
    show ?thesis
    proof (cases "f_sign b")
      case True
      with sa assms m show ?thesis by (simp add: flt_def f_key_def valof_def)
    next
      case False
      with sa assms z p show ?thesis
        by (simp add: flt_def f_key_def valof_def; linarith?)
    qed
  next
    case sa: False
    show ?thesis
    proof (cases "f_sign b")
      case True
      with sa assms z p show ?thesis
        by (simp add: flt_def f_key_def valof_def; linarith?)
    next
      case False
      with sa assms m show ?thesis by (simp add: flt_def f_key_def valof_def)
    qed
  qed
qed


lemma expo_zero: "expo i 0 = 0"
  by (induction i) (simp_all add: not_le)

lemma fround_mag_zero: "fround_mag 0 = 0"
  by (simp add: fround_mag_def expo_zero rhe_def)

lemma fround_mag_fin: "fround_mag a < 2 ^ 31"
  by (simp add: fround_mag_def min_def)

lemma fround_mag_inf: "fround_mag a \<le> 0x7F800000"
  by (simp add: fround_mag_def)

lemma is_nan_pack: "n \<le> 0x7F800000 \<Longrightarrow> \<not> is_nan (f_pack s n)"
  by (simp add: is_nan_def f_mag_pack)

lemma valof_pack: "n < 2 ^ 31 \<Longrightarrow> valof (f_pack s n) = (if s then - mag_val n else mag_val n)"
  by (simp add: valof_def f_mag_pack f_sign_pack)

lemma pattern_parts:
  "f_mag 0 = 0" "\<not> f_sign 0"
  "f_mag 0x3E800000 = 0x3E800000" "\<not> f_sign 0x3E800000"
  "f_mag 0x3F000000 = 0x3F000000" "\<not> f_sign 0x3F000000"
  "f_mag 0x3F400000 = 0x3F400000" "\<not> f_sign 0x3F400000"
  "f_mag 0x3F800000 = 0x3F800000" "\<not> f_sign 0x3F800000"
  "f_mag 0xBF000000 = 0x3F000000" "f_sign 0xBF000000"
  "f_mag 0xBF400000 = 0x3F400000" "f_sign 0xBF400000"
  "f_mag 0x80000000 = 0" "f_sign 0x80000000"
  by (simp_all add: f_mag_def f_sign_def bit_iff_odd)

lemma const_vals:
  "mag_val 0 = 0" "mag_val 0x3E800000 = 1 / 4" "mag_val 0x3F000000 = 1 / 2"
  "mag_val 0x3F400000 = 3 / 4" "mag_val 0x3F800000 = 1"
  by (simp_all add: mag_val_def mag_num_def)

lemma mag_val_le_half: "n \<le> 0x3F000000 \<Longrightarrow> mag_val n \<le> 1 / 2"
proof -
  assume "n \<le> 0x3F000000"
  then have "n \<le> Suc 125 * 2 ^ 23" by simp
  then have "mag_num n \<le> 2 ^ 23 * 2 ^ 125" by (rule mag_num_le)
  then have "real (mag_num n) \<le> real (2 ^ 23 * 2 ^ 125)" by (rule of_nat_mono)
  then show ?thesis by (simp add: mag_val_def)
qed

lemma mag_val_le_one: "n \<le> 0x3F800000 \<Longrightarrow> mag_val n \<le> 1"
proof -
  assume "n \<le> 0x3F800000"
  then have "n \<le> Suc 126 * 2 ^ 23" by simp
  then have "mag_num n \<le> 2 ^ 23 * 2 ^ 126" by (rule mag_num_le)
  then have "real (mag_num n) \<le> real (2 ^ 23 * 2 ^ 126)" by (rule of_nat_mono)
  then show ?thesis by (simp add: mag_val_def)
qed

lemma mag_val_ge_half: "0x3F000000 \<le> n \<Longrightarrow> 1 / 2 \<le> mag_val n"
proof -
  assume "0x3F000000 \<le> n"
  then have "Suc 125 * 2 ^ 23 \<le> n" by simp
  then have "2 ^ 23 * 2 ^ 125 \<le> mag_num n" by (rule mag_num_ge)
  then have "real (2 ^ 23 * 2 ^ 125) \<le> real (mag_num n)" by (rule of_nat_mono)
  then show ?thesis by (simp add: mag_val_def)
qed

lemma fround_le_half: "a \<le> 1 / 2 \<Longrightarrow> fround_mag a \<le> 0x3F000000"
proof -
  assume "a \<le> 1 / 2"
  then have "a * 2 ^ 149 \<le> 2 ^ 23 * 2 ^ 125" by simp
  then have "fround_mag a \<le> Suc 125 * 2 ^ 23" by (rule fround_mag_le) simp
  then show ?thesis by simp
qed

lemma fround_le_one: "a \<le> 1 \<Longrightarrow> fround_mag a \<le> 0x3F800000"
proof -
  assume "a \<le> 1"
  then have "a * 2 ^ 149 \<le> 2 ^ 23 * 2 ^ 126" by simp
  then have "fround_mag a \<le> Suc 126 * 2 ^ 23" by (rule fround_mag_le) simp
  then show ?thesis by simp
qed

lemma fround_ge_half: "1 / 2 \<le> a \<Longrightarrow> 0x3F000000 \<le> fround_mag a"
proof -
  assume "1 / 2 \<le> a"
  then have "2 ^ 23 * 2 ^ 125 \<le> a * 2 ^ 149" by simp
  then have "Suc 125 * 2 ^ 23 \<le> fround_mag a" by (rule fround_mag_ge) simp
  then show ?thesis by simp
qed


lemma expo_numeral:
  "expo (numeral k) a =
     (if 2 ^ numeral k \<le> a * 2 ^ 126 then numeral k else expo (pred_numeral k) a)"
  by (simp add: numeral_eq_Suc)

lemmas float_defs = fixPistonNormalizedValue_def lerp_def clamp01_def fdiv_def fmul_def fsub_def
  fadd_def f_abs_def fneg_def f_nan_def f_pack_def fround_mag_def rhe_def flt_def f_key_def
  valof_def mag_val_def mag_num_def is_inf_def is_nan_def f_mag_def f_sign_def expo_numeral

lemma fsub_consts:
  "fsub 0x3F000000 0x3F800000 = 0xBF000000"
  "fsub 0x3F800000 0x3F000000 = 0x3F000000"
  "fsub 0x3F000000 0 = 0x3F000000"
  by (simp_all add: float_defs)

lemma clamp01_unit:
  assumes "\<not> is_nan d"
  shows "f_mag (clamp01 d) \<le> 0x3F800000" and "f_sign (clamp01 d) \<Longrightarrow> f_mag (clamp01 d) = 0"
  using assms
  by (auto simp: clamp01_def flt_def f_key_def is_nan_def pattern_parts split: if_splits)

lemma unit_val:
  assumes "f_mag t \<le> 0x3F800000" and "f_sign t \<Longrightarrow> f_mag t = 0"
  shows "0 \<le> valof t" and "valof t \<le> 1"
  using assms mag_val_nonneg [of "f_mag t"] mag_val_le_one [of "f_mag t"]
  by (auto simp: valof_def const_vals)

lemma fmul_half:
  assumes c: "f_mag c = 0x3F000000" and t1: "f_mag t \<le> 0x3F800000"
    and t2: "f_sign t \<Longrightarrow> f_mag t = 0"
  shows "f_mag (fmul c t) \<le> 0x3F000000"
    and "valof (fmul c t) = (if f_sign c \<noteq> f_sign t then - mag_val (f_mag (fmul c t))
           else mag_val (f_mag (fmul c t)))"
    and "f_sign t \<Longrightarrow> f_mag (fmul c t) = 0"
proof -
  let ?a = "\<bar>valof c * valof t\<bar>"
  from unit_val [OF t1 t2] have v: "0 \<le> valof t" "valof t \<le> 1" by simp_all
  from c have "\<bar>valof c\<bar> = 1 / 2" by (simp add: valof_def const_vals)
  with v have a: "?a = valof t / 2" by (simp add: abs_mult)
  with v have "?a \<le> 1 / 2" by simp
  then have n: "fround_mag ?a \<le> 0x3F000000" by (rule fround_le_half)
  then have n31: "fround_mag ?a < 2 ^ 31" by simp
  from c t1 have e: "fmul c t = f_pack (f_sign c \<noteq> f_sign t) (fround_mag ?a)"
    by (simp add: fmul_def is_nan_def is_inf_def)
  from n show "f_mag (fmul c t) \<le> 0x3F000000"
    unfolding e by (simp add: f_mag_pack [OF n31])
  show "valof (fmul c t) = (if f_sign c \<noteq> f_sign t then - mag_val (f_mag (fmul c t))
           else mag_val (f_mag (fmul c t)))"
    unfolding e by (simp add: valof_pack [OF n31] f_mag_pack [OF n31])
  assume "f_sign t"
  with t2 have "valof t = 0" by (simp add: valof_def const_vals)
  with a have "fround_mag ?a = 0" by (simp add: fround_mag_zero)
  then show "f_mag (fmul c t) = 0"
    unfolding e by (simp add: f_mag_pack)
qed

lemma fadd_fin:
  assumes "f_mag a < 0x7F800000" and "f_mag b < 0x7F800000"
  shows "fadd a b =
     (if valof a + valof b = 0 then f_pack (f_sign a \<and> f_sign b) 0
      else f_pack (valof a + valof b < 0) (fround_mag \<bar>valof a + valof b\<bar>))"
  using assms by (simp add: fadd_def is_nan_def is_inf_def)

lemma range_high:
  assumes "f_mag a < 0x7F800000" and "f_mag b < 0x7F800000"
    and lo: "1 / 2 \<le> valof a + valof b" and hi: "valof a + valof b \<le> 1"
  shows "\<not> is_nan (fadd a b) \<and> 1 / 2 \<le> valof (fadd a b) \<and> valof (fadd a b) \<le> 1"
proof -
  let ?s = "valof a + valof b"
  from lo have e: "fadd a b = f_pack False (fround_mag ?s)"
    using fadd_fin [OF assms(1,2)] by simp
  from lo have g: "0x3F000000 \<le> fround_mag ?s" by (rule fround_ge_half)
  from hi have l: "fround_mag ?s \<le> 0x3F800000" by (rule fround_le_one)
  then have n31: "fround_mag ?s < 2 ^ 31" by simp
  from l have "\<not> is_nan (fadd a b)"
    unfolding e by (intro is_nan_pack) simp
  moreover have "valof (fadd a b) = mag_val (fround_mag ?s)"
    unfolding e by (simp add: valof_pack [OF n31])
  ultimately show ?thesis
    using mag_val_ge_half [OF g] mag_val_le_one [OF l] by simp
qed

lemma range_low:
  assumes "f_mag a < 0x7F800000" and "f_mag b < 0x7F800000"
    and lo: "0 \<le> valof a + valof b" and hi: "valof a + valof b \<le> 1 / 2"
  shows "\<not> is_nan (fadd a b) \<and> 0 \<le> valof (fadd a b) \<and> valof (fadd a b) \<le> 1 / 2"
proof (cases "valof a + valof b = 0")
  case True
  then have "fadd a b = f_pack (f_sign a \<and> f_sign b) 0"
    using fadd_fin [OF assms(1,2)] by simp
  then show ?thesis
    by (simp add: is_nan_pack valof_pack const_vals)
next
  case False
  let ?s = "valof a + valof b"
  from False lo have e: "fadd a b = f_pack False (fround_mag ?s)"
    using fadd_fin [OF assms(1,2)] by simp
  from hi have l: "fround_mag ?s \<le> 0x3F000000" by (rule fround_le_half)
  then have n31: "fround_mag ?s < 2 ^ 31" by simp
  from l have "\<not> is_nan (fadd a b)"
    unfolding e by (intro is_nan_pack) simp
  moreover have "valof (fadd a b) = mag_val (fround_mag ?s)"
    unfolding e by (simp add: valof_pack [OF n31])
  ultimately show ?thesis
    using mag_val_nonneg [of "fround_mag ?s"] mag_val_le_half [OF l] by simp
qed

lemma fdiv_quarter_nan: "\<not> is_nan x \<Longrightarrow> \<not> is_nan (fdiv x 0x3E800000)"
  using fround_mag_inf [of "\<bar>valof x\<bar> / \<bar>valof 0x3E800000\<bar>"]
  by (simp add: fdiv_def is_inf_def pattern_parts is_nan_pack)
    (simp add: is_nan_def pattern_parts)

lemma fadd_const_nan:
  assumes "\<not> is_nan v" and "f_mag c < 0x7F800000"
  shows "\<not> is_nan (fadd v c)"
proof (cases "is_inf v")
  case True
  with assms show ?thesis by (simp add: fadd_def is_nan_def is_inf_def)
next
  case False
  with assms have "f_mag v < 0x7F800000" by (simp add: is_nan_def is_inf_def)
  from fadd_fin [OF this assms(2)] fround_mag_inf [of "\<bar>valof v + valof c\<bar>"]
  show ?thesis by (simp add: is_nan_pack)
qed

lemma fsub_const_nan:
  assumes "\<not> is_nan v"
  shows "\<not> is_nan (fsub v 0x3F400000)" and "\<not> is_nan (fsub v 0x3F000000)"
proof -
  have "fsub v 0x3F400000 = fadd v 0xBF400000" by (simp add: fsub_def fneg_def)
  with fadd_const_nan [OF assms, of "0xBF400000"] show "\<not> is_nan (fsub v 0x3F400000)"
    by (simp add: pattern_parts)
  have "fsub v 0x3F000000 = fadd v 0xBF000000" by (simp add: fsub_def fneg_def)
  with fadd_const_nan [OF assms, of "0xBF000000"] show "\<not> is_nan (fsub v 0x3F000000)"
    by (simp add: pattern_parts)
qed

lemma f_mag_abs: "f_mag (f_abs u) = f_mag u"
proof -
  have "f_abs u = take_bit 31 u"
    by (simp add: f_abs_def take_bit_eq_mask mask_eq_exp_minus_1)
  then show ?thesis by (simp add: f_mag_def)
qed


lemma lerp_from_one:
  assumes "\<not> is_nan d"
  shows "\<not> is_nan (lerp 0x3F800000 0x3F000000 (clamp01 d)) \<and>
         1 / 2 \<le> valof (lerp 0x3F800000 0x3F000000 (clamp01 d)) \<and>
         valof (lerp 0x3F800000 0x3F000000 (clamp01 d)) \<le> 1"
proof -
  let ?t = "clamp01 d"
  let ?y = "fmul 0xBF000000 ?t"
  note u = clamp01_unit [OF assms]
  have c: "f_mag 0xBF000000 = 0x3F000000" by (simp add: pattern_parts)
  note y = fmul_half [OF c u]
  from y(1) have fy: "f_mag ?y < 0x7F800000" by simp
  have f1: "f_mag 0x3F800000 < 0x7F800000" by (simp add: pattern_parts)
  have v1: "valof 0x3F800000 = 1" by (simp add: valof_def pattern_parts const_vals)
  have "- (1 / 2) \<le> valof ?y \<and> valof ?y \<le> 0"
  proof (cases "f_sign ?t")
    case True
    with y(3) have "f_mag ?y = 0" by simp
    with y(2) show ?thesis by (simp add: const_vals)
  next
    case False
    with y(2) mag_val_nonneg [of "f_mag ?y"] mag_val_le_half [OF y(1)] show ?thesis
      by (simp add: pattern_parts)
  qed
  then have "1 / 2 \<le> valof 0x3F800000 + valof ?y" "valof 0x3F800000 + valof ?y \<le> 1"
    unfolding v1 by simp_all
  from range_high [OF f1 fy this] show ?thesis
    by (simp add: lerp_def fsub_consts)
qed

lemma lerp_from_half:
  assumes "\<not> is_nan d"
  shows "\<not> is_nan (lerp 0x3F000000 0x3F800000 (clamp01 d)) \<and>
         1 / 2 \<le> valof (lerp 0x3F000000 0x3F800000 (clamp01 d)) \<and>
         valof (lerp 0x3F000000 0x3F800000 (clamp01 d)) \<le> 1"
proof -
  let ?t = "clamp01 d"
  let ?y = "fmul 0x3F000000 ?t"
  note u = clamp01_unit [OF assms]
  have c: "f_mag 0x3F000000 = 0x3F000000" by (simp add: pattern_parts)
  note y = fmul_half [OF c u]
  from y(1) have fy: "f_mag ?y < 0x7F800000" by simp
  have f1: "f_mag 0x3F000000 < 0x7F800000" by (simp add: pattern_parts)
  have v1: "valof 0x3F000000 = 1 / 2" by (simp add: valof_def pattern_parts const_vals)
  have "0 \<le> valof ?y \<and> valof ?y \<le> 1 / 2"
  proof (cases "f_sign ?t")
    case True
    with y(3) have "f_mag ?y = 0" by simp
    with y(2) show ?thesis by (simp add: const_vals)
  next
    case False
    with y(2) mag_val_nonneg [of "f_mag ?y"] mag_val_le_half [OF y(1)] show ?thesis
      by (simp add: pattern_parts)
  qed
  then have "1 / 2 \<le> valof 0x3F000000 + valof ?y" "valof 0x3F000000 + valof ?y \<le> 1"
    unfolding v1 by simp_all
  from range_high [OF f1 fy this] show ?thesis
    by (simp add: lerp_def fsub_consts)
qed

lemma lerp_from_zero:
  assumes "\<not> is_nan d"
  shows "\<not> is_nan (lerp 0 0x3F000000 (clamp01 d)) \<and>
         0 \<le> valof (lerp 0 0x3F000000 (clamp01 d)) \<and>
         valof (lerp 0 0x3F000000 (clamp01 d)) \<le> 1 / 2"
proof -
  let ?t = "clamp01 d"
  let ?y = "fmul 0x3F000000 ?t"
  note u = clamp01_unit [OF assms]
  have c: "f_mag 0x3F000000 = 0x3F000000" by (simp add: pattern_parts)
  note y = fmul_half [OF c u]
  from y(1) have fy: "f_mag ?y < 0x7F800000" by simp
  have f1: "f_mag 0 < 0x7F800000" by (simp add: pattern_parts)
  have v1: "valof 0 = 0" by (simp add: valof_def pattern_parts const_vals)
  have "0 \<le> valof ?y \<and> valof ?y \<le> 1 / 2"
  proof (cases "f_sign ?t")
    case True
    with y(3) have "f_mag ?y = 0" by simp
    with y(2) show ?thesis by (simp add: const_vals)
  next
    case False
    with y(2) mag_val_nonneg [of "f_mag ?y"] mag_val_le_half [OF y(1)] show ?thesis
      by (simp add: pattern_parts)
  qed
  then have "0 \<le> valof 0 + valof ?y" "valof 0 + valof ?y \<le> 1 / 2"
    unfolding v1 by simp_all
  from range_low [OF f1 fy this] show ?thesis
    by (simp add: lerp_def fsub_consts)
qed

lemma flt_consts:
  assumes "\<not> is_nan v"
  shows "flt v 0x3E800000 \<longleftrightarrow> valof v < 1 / 4" and "flt 0x3F400000 v \<longleftrightarrow> 3 / 4 < valof v"
proof -
  have n: "\<not> is_nan 0x3E800000" "\<not> is_nan 0x3F400000"
    by (simp_all add: is_nan_def pattern_parts)
  have v: "valof 0x3E800000 = 1 / 4" "valof 0x3F400000 = 3 / 4"
    by (simp_all add: valof_def pattern_parts const_vals)
  from flt_iff [OF assms n(1)] v show "flt v 0x3E800000 \<longleftrightarrow> valof v < 1 / 4" by simp
  from flt_iff [OF n(2) assms] v show "flt 0x3F400000 v \<longleftrightarrow> 3 / 4 < valof v" by simp
qed

lemma fixPistonNormalizedValue_range:
  assumes "\<not> is_nan v"
  shows "\<not> is_nan (fixPistonNormalizedValue v)"
    and "valof v < 1 / 4 \<or> 3 / 4 < valof v \<Longrightarrow>
           1 / 2 \<le> valof (fixPistonNormalizedValue v) \<and> valof (fixPistonNormalizedValue v) \<le> 1"
    and "1 / 4 \<le> valof v \<Longrightarrow> valof v \<le> 3 / 4 \<Longrightarrow>
           0 \<le> valof (fixPistonNormalizedValue v) \<and> valof (fixPistonNormalizedValue v) \<le> 1 / 2"
proof -
  note f = flt_consts [OF assms]
  note a = lerp_from_one [OF fdiv_quarter_nan [OF assms]]
  note b = lerp_from_half [OF fdiv_quarter_nan [OF fsub_const_nan(1) [OF assms]]]
  have "\<not> is_nan (f_abs (fsub v 0x3F000000))"
    using fsub_const_nan(2) [OF assms] by (simp add: is_nan_def f_mag_abs)
  note c = lerp_from_zero [OF fdiv_quarter_nan [OF this]]
  from a b c show "\<not> is_nan (fixPistonNormalizedValue v)"
    by (simp add: fixPistonNormalizedValue_def)
  from a b f show "valof v < 1 / 4 \<or> 3 / 4 < valof v \<Longrightarrow>
      1 / 2 \<le> valof (fixPistonNormalizedValue v) \<and> valof (fixPistonNormalizedValue v) \<le> 1"
    by (auto simp: fixPistonNormalizedValue_def)
  from c f show "1 / 4 \<le> valof v \<Longrightarrow> valof v \<le> 3 / 4 \<Longrightarrow>
      0 \<le> valof (fixPistonNormalizedValue v) \<and> valof (fixPistonNormalizedValue v) \<le> 1 / 2"
    by (auto simp: fixPistonNormalizedValue_def)
qed

lemma fixPistonNormalizedValue_nan:
  assumes "is_nan v"
  shows "is_nan (fixPistonNormalizedValue v)"
proof -
  have n: "is_nan f_nan" by (simp add: is_nan_def f_nan_def f_mag_def)
  from assms have "fsub v 0x3F000000 = f_nan" by (simp add: fsub_def fadd_def)
  moreover have "f_abs f_nan = f_nan" by (simp add: f_abs_def f_nan_def)
  moreover from n have "fdiv f_nan 0x3E800000 = f_nan" by (simp add: fdiv_def)
  moreover from n have "clamp01 f_nan = f_nan" by (simp add: clamp01_def flt_def)
  moreover from n have "fmul (fsub 0x3F000000 0) f_nan = f_nan" by (simp add: fmul_def)
  moreover from n have "fadd 0 f_nan = f_nan" by (simp add: fadd_def)
  ultimately have "fixPistonNormalizedValue v = f_nan"
    using assms by (simp add: fixPistonNormalizedValue_def lerp_def flt_def)
  with n show ?thesis by simp
qed

lemma simple_piston_value:
  assumes "simple_piston fixp version s = Inr (p, s')"
  shows "piston_normalized_value p =
     (if sint version < 8 then fixp (word32_le (take 4 (drop (cursor s) (input s))))
      else word32_le (take 4 (drop (cursor s) (input s))))"
proof -
  from assms obtain bs s1 where a: "readBytes 4 s = Inr (bs, s1)"
    by (auto simp: simple_piston_def readFloat_def bnd_def ret_def split: sum.splits)
  from assms a readBytes_Inr(2) [OF a] show ?thesis
    by (auto simp: simple_piston_def readFloat_def bnd_def ret_def split: sum.splits)
qed

lemma deserializePiston_value:
  assumes "deserializePiston fixp version s = Inr (p, s')"
  shows "piston_normalized_value p =
     (if sint version < 8 then fixp (word32_le (take 4 (drop (cursor s) (input s))))
      else word32_le (take 4 (drop (cursor s) (input s))))"
proof -
  from assms obtain bs s1 where a: "readBytes 4 s = Inr (bs, s1)"
    by (auto simp: deserializePiston_def readFloat_def bnd_def ret_def split: sum.splits)
  from assms a readBytes_Inr(2) [OF a] show ?thesis
    by (auto simp: deserializePiston_def readFloat_def bnd_def ret_def split: sum.splits)
qed

lemma simple_same:
  "simple_joint = deserializeJoint" "simple_spring = deserializeSpring"
  "simple_piston = deserializePiston"
  by (simp_all add: simple_joint_def deserializeJoint_def simple_spring_def deserializeSpring_def
      simple_piston_def deserializePiston_def fun_eq_iff)

lemma reads_simple_edge:
  assumes "edge_ok e" and "sint v < 11"
  shows "reads simple_edge (edgeWire v e) ()"
proof -
  from assms have a: "str_ok (edge_node_a_guid e)" and b: "str_ok (edge_node_b_guid e)"
    by (simp_all add: edge_ok_def)
  have "reads simple_edge (writeInt32 (edge_material_type e) @ writeString (edge_node_a_guid e) @
     writeString (edge_node_b_guid e) @ writeInt32 (edge_joint_a_part e) @
     writeInt32 (edge_joint_b_part e)) ()"
    unfolding simple_edge_def
    by (rule reads_bnd [OF reads_readInt32], rule reads_bnd [OF reads_readString [OF a]],
        rule reads_bnd [OF reads_readString [OF b]], rule reads_bnd [OF reads_readInt32],
        rule reads_bnd_last [OF reads_readInt32], rule reads_ret)
  with assms(2) show ?thesis by (simp add: edgeWire_def)
qed

lemma reads_simple_phase:
  assumes "phase_ok pj"
  shows "reads (simple_phase v) (phaseWire v pj) ()"
proof -
  from assms have g: "str_ok (hcp_hydraulics_phase_guid (fst pj))"
    and p: "list_all str_ok (hcp_piston_guids (fst pj))" "length (hcp_piston_guids (fst pj)) < 2 ^ 31"
    and j: "list_all (\<lambda>j. str_ok (splitjoint_guid j)) (hcp_bridge_split_joints (fst pj))"
       "length (hcp_bridge_split_joints (fst pj)) < 2 ^ 31"
    and k: "list_all str_ok (snd pj)" "length (snd pj) < 2 ^ 31"
    by (simp_all add: phase_ok_def)
  from j have "reads (countedQuiet deserializeSplitJoint)
      (writeCount (hcp_bridge_split_joints (fst pj)) @
       concat (map serializeSplitJoint (hcp_bridge_split_joints (fst pj))))
      (hcp_bridge_split_joints (fst pj))"
    using reads_countedQuiet [of "hcp_bridge_split_joints (fst pj)" deserializeSplitJoint
        serializeSplitJoint "\<lambda>x. x"]
    by (simp add: list_all_iff reads_deserializeSplitJoint)
  then have sj: "reads (bnd (countedQuiet (bnd readString (\<lambda>g. bnd readInt32 (\<lambda>st.
        ret \<lparr>splitjoint_guid = g, splitjoint_state = st\<rparr>)))) (\<lambda>_. ret ()))
      (writeCount (hcp_bridge_split_joints (fst pj)) @
       concat (map serializeSplitJoint (hcp_bridge_split_joints (fst pj)))) ()"
    unfolding deserializeSplitJoint_def by (rule reads_map [where g = "\<lambda>_. ()"])
  have junk: "reads (bnd (countedQuiet readString) (\<lambda>_. ret ()))
      (writeCount (snd pj) @ concat (map writeString (snd pj))) ()"
    using reads_map [OF reads_strings [OF k], of "\<lambda>_. ()"] by simp
  have d: "reads (bnd (if 9 < sint v then readBool else ret False) (\<lambda>d. ret ()))
      (if 9 < sint v then writeBool (hcp_disable_new_additions (fst pj)) else []) ()"
    using reads_map [OF reads_readBool, where g = "\<lambda>_. ()"]
      reads_map [OF reads_ret, where g = "\<lambda>_. ()"]
    by (cases "9 < sint v") simp_all
  show ?thesis
    unfolding simple_phase_def phaseWire_def
    by (rule reads_bnd [OF reads_readString [OF g]], rule reads_bnd [OF reads_strings [OF p]],
        rule reads_bnd [OF reads_if [OF sj junk]], simp add: d)
qed


lemma reads_simple_deserializeBridge:
  assumes v: "0 \<le> sint v" "sint v \<le> 10"
    and ok: "bridge_ok joints edges springs pistons phases junk5 anchors"
  shows "reads (simple_deserializeBridge fixp)
           (bridgeWire v joints edges springs pistons phases junk5 anchors junkBool)
           ((bridgeAt fixp v joints edges springs pistons phases anchors)
              \<lparr>bridge_edges := [], bridge_phases := []\<rparr>)"
proof -
  from v have v11: "sint v < 11" by simp
  from ok have J: "reads (counted simple_joint)
      (writeCount joints @ concat (map serializeJoint joints)) (map (\<lambda>x. x) joints)"
    unfolding simple_same
    by (intro reads_counted) (simp_all add: bridge_ok_def list_all_iff reads_deserializeJoint)
  from ok have E: "reads (counted simple_edge)
      (writeCount edges @ concat (map (edgeWire v) edges)) (map (\<lambda>_. ()) edges)"
    by (intro reads_counted)
      (simp_all add: bridge_ok_def list_all_iff reads_simple_edge [OF _ v11])
  from ok have S: "reads (counted simple_spring)
      (writeCount springs @ concat (map serializeSpring springs)) (map (\<lambda>x. x) springs)"
    unfolding simple_same
    by (intro reads_counted) (simp_all add: bridge_ok_def list_all_iff reads_deserializeSpring)
  from ok have P: "reads (counted (simple_piston fixp v))
      (writeCount pistons @ concat (map serializePiston pistons)) (map (pistonAt fixp v) pistons)"
    unfolding simple_same
    by (intro reads_counted) (simp_all add: bridge_ok_def list_all_iff reads_deserializePiston)
  from ok have H: "reads (counted (simple_phase v))
      (writeCount phases @ concat (map (phaseWire v) phases)) (map (\<lambda>_. ()) phases)"
    by (intro reads_counted) (simp_all add: bridge_ok_def list_all_iff reads_simple_phase)
  from ok have G: "reads (bnd (countedQuiet readString) (\<lambda>_. ret ()))
      (writeCount junk5 @ concat (map writeString junk5)) ()"
    using reads_map [OF reads_strings [of junk5], of "\<lambda>_. ()"] by (simp add: bridge_ok_def)
  from ok have A: "reads (counted simple_joint)
      (writeCount anchors @ concat (map serializeJoint anchors)) (map (\<lambda>x. x) anchors)"
    unfolding simple_same
    by (intro reads_counted) (simp_all add: bridge_ok_def list_all_iff reads_deserializeJoint)
  have B: "reads (bnd readBool (\<lambda>_. ret ())) (writeBool junkBool) ()"
    using reads_map [OF reads_readBool [of junkBool], of "\<lambda>_. ()"] by simp
  from v have i: "reads (intc (sint v)) [] ()"
    by (intro reads_intc) simp_all
  have main: "reads (simple_deserializeBridge fixp)
      (bridgeWire v joints edges springs pistons phases junk5 anchors junkBool)
      (if sint v < 2 then emptyBridge\<lparr>bridge_version := v\<rparr>
       else \<lparr>bridge_version = v, bridge_joints = joints, bridge_edges = [],
              bridge_springs = (if 7 \<le> sint v then springs else []),
              bridge_pistons = map (pistonAt fixp v) pistons,
              bridge_anchors = (if 6 \<le> sint v then anchors else []),
              bridge_phases = []\<rparr>)"
    unfolding simple_deserializeBridge_def bridgeWire_def
    apply (rule reads_bnd [OF reads_readInt32])
    apply (rule reads_bnd_nil [OF i])
    apply (rule reads_if)
     apply (rule reads_ret)
    apply (rule reads_bnd [OF J])
    apply (rule reads_bnd [OF E])
    apply (rule reads_bnd [OF reads_if [OF S reads_ret]])
    apply (rule reads_bnd [OF P])
    apply (rule reads_bnd [OF H])
    apply (rule reads_bnd [OF reads_if [OF G reads_ret]])
    apply (rule reads_bnd [OF reads_if [OF A reads_ret]])
    apply (rule reads_bnd_last [OF reads_if [OF B reads_ret]])
    apply (rule reads_ret_eq)
    apply simp
    done
  have "(bridgeAt fixp v joints edges springs pistons phases anchors)
      \<lparr>bridge_edges := [], bridge_phases := []\<rparr> =
      (if sint v < 2 then emptyBridge\<lparr>bridge_version := v\<rparr>
       else \<lparr>bridge_version = v, bridge_joints = joints, bridge_edges = [],
              bridge_springs = (if 7 \<le> sint v then springs else []),
              bridge_pistons = map (pistonAt fixp v) pistons,
              bridge_anchors = (if 6 \<le> sint v then anchors else []),
              bridge_phases = []\<rparr>)"
    by (simp add: bridgeAt_def emptyBridge_def)
  with main show ?thesis by (simp only:)
qed

lemma reads_legacyBridge:
  assumes j: "length joints \<le> 4096" "list_all joint_ok joints"
    and e: "length edges \<le> 4096" "list_all edge_ok edges"
    and p: "length pistons \<le> 4096" "list_all piston_ok pistons"
  shows "reads (legacyBridge fixp)
     ((writeCount joints @ concat (map serializeJoint joints)) @
      (writeCount edges @ concat (map (edgeWire (bridge_version emptyBridge)) edges)) @
      (writeCount pistons @ concat (map serializePiston pistons)))
     (emptyBridge\<lparr>bridge_joints := joints,
        bridge_edges := map (edgeAt (bridge_version emptyBridge)) edges,
        bridge_pistons := map (pistonAt fixp (bridge_version emptyBridge)) pistons\<rparr>)"
proof -
  from j have J: "reads (counted deserializeJoint)
      (writeCount joints @ concat (map serializeJoint joints)) (map (\<lambda>x. x) joints)"
    by (intro reads_counted) (simp_all add: list_all_iff reads_deserializeJoint)
  from e have E: "reads (counted (deserializeEdge (bridge_version emptyBridge)))
      (writeCount edges @ concat (map (edgeWire (bridge_version emptyBridge)) edges))
      (map (edgeAt (bridge_version emptyBridge)) edges)"
    by (intro reads_counted) (simp_all add: list_all_iff reads_deserializeEdge)
  from p have P: "reads (counted (deserializePiston fixp (bridge_version emptyBridge)))
      (writeCount pistons @ concat (map serializePiston pistons))
      (map (pistonAt fixp (bridge_version emptyBridge)) pistons)"
    by (intro reads_counted) (simp_all add: list_all_iff reads_deserializePiston)
  show ?thesis
    unfolding legacyBridge_def
    by (rule reads_bnd [OF J], rule reads_bnd [OF E], rule reads_bnd_last [OF P],
        rule reads_ret_eq) simp
qed

lemma fixPistonNormalizedValue_values:
  "fixPistonNormalizedValue 0x3DCCCCCD = 0x3F4CCCCD"
  "fixPistonNormalizedValue 0x3F666666 = 0x3F4CCCCC"
  "fixPistonNormalizedValue 0x3F19999A = 0x3E4CCCD0"
  "fixPistonNormalizedValue 0x3E800000 = 0x3F000000"
  "fixPistonNormalizedValue 0x3F400000 = 0x3F000000"
  "fixPistonNormalizedValue 0x3F000000 = 0"
  "fixPistonNormalizedValue 0x3E7FFFFF = 0x3F000000"
  "fixPistonNormalizedValue 0x3F400001 = 0x3F000002"
  "fixPistonNormalizedValue 0 = 0x3F800000"
  "fixPistonNormalizedValue 0x3F800000 = 0x3F800000"
  by (simp_all add: float_defs)

lemma pattern_values:
  "\<not> is_nan 0x3DCCCCCD" "valof 0x3DCCCCCD < 1 / 4"
  "\<not> is_nan 0x3F666666" "3 / 4 < valof 0x3F666666"
  "\<not> is_nan 0x3F19999A" "1 / 4 \<le> valof 0x3F19999A" "valof 0x3F19999A \<le> 3 / 4"
  "valof 0x3F4CCCCD = 13421773 / 16777216" "valof 0x3F4CCCCC = 3355443 / 4194304"
  "valof 0x3E4CCCD0 = 838861 / 4194304"
  by (simp_all add: is_nan_def valof_def mag_val_def mag_num_def f_mag_def f_sign_def bit_iff_odd)

text \<open>
  Claim C3. The three bridge decoders hand each piston to \<^verbatim>\<open>deserializePiston\<close> (the
  layout's bridge and the layout's legacy bridge) or repeat its body (the slot's bridge).
  With the correction of the program, \<open>fixPistonNormalizedValue\<close>, a piston decoded under a
  bridge version below 8 stores the corrected value of the float read, and under version 8
  or above the float as read; the legacy bridge has version 0, so its pistons are always
  corrected. The correction of a float that is not a NaN: below 0.25 it is
  \<open>lerp 1 0.5 (clamp01 (x / 0.25))\<close> and lies in \<open>[0.5, 1]\<close>; above 0.75 it is
  \<open>lerp 0.5 1 (clamp01 ((x - 0.75) / 0.25))\<close> and lies in \<open>[0.5, 1]\<close>; from 0.25 to 0.75 it is
  \<open>lerp 0 0.5 (clamp01 (\<bar>x - 0.5\<bar> / 0.25))\<close> and lies in \<open>[0, 0.5]\<close>; 0.5 gives 0. All operations
  are those of binary32, rounded. A NaN gives a NaN.
\<close>

theorem piston_correction:
  "(deserializePiston fixPistonNormalizedValue version s = Inr (p, s') \<longrightarrow>
      piston_normalized_value p =
        (if sint version < 8
         then fixPistonNormalizedValue (word32_le (take 4 (drop (cursor s) (input s))))
         else word32_le (take 4 (drop (cursor s) (input s))))) \<and>
   (simple_piston fixPistonNormalizedValue version s = Inr (p, s') \<longrightarrow>
      piston_normalized_value p =
        (if sint version < 8
         then fixPistonNormalizedValue (word32_le (take 4 (drop (cursor s) (input s))))
         else word32_le (take 4 (drop (cursor s) (input s))))) \<and>
   (0 \<le> sint v \<and> sint v \<le> 50 \<and> bridge_ok joints edges springs pistons phases junk5 anchors \<longrightarrow>
      reads (deserializeBridge fixPistonNormalizedValue)
        (bridgeWire v joints edges springs pistons phases junk5 anchors junkBool)
        (bridgeAt fixPistonNormalizedValue v joints edges springs pistons phases anchors)) \<and>
   (0 \<le> sint v \<and> sint v \<le> 10 \<and> bridge_ok joints edges springs pistons phases junk5 anchors \<longrightarrow>
      reads (simple_deserializeBridge fixPistonNormalizedValue)
        (bridgeWire v joints edges springs pistons phases junk5 anchors junkBool)
        ((bridgeAt fixPistonNormalizedValue v joints edges springs pistons phases anchors)
           \<lparr>bridge_edges := [], bridge_phases := []\<rparr>)) \<and>
   (length joints \<le> 4096 \<and> list_all joint_ok joints \<and> length edges \<le> 4096 \<and>
    list_all edge_ok edges \<and> length pistons \<le> 4096 \<and> list_all piston_ok pistons \<longrightarrow>
      reads (legacyBridge fixPistonNormalizedValue)
        ((writeCount joints @ concat (map serializeJoint joints)) @
         (writeCount edges @ concat (map (edgeWire (bridge_version emptyBridge)) edges)) @
         (writeCount pistons @ concat (map serializePiston pistons)))
        (emptyBridge\<lparr>bridge_joints := joints,
           bridge_edges := map (edgeAt (bridge_version emptyBridge)) edges,
           bridge_pistons :=
             map (pistonAt fixPistonNormalizedValue (bridge_version emptyBridge)) pistons\<rparr>)) \<and>
   sint (bridge_version emptyBridge) < 8 \<and>
   pistonAt fixPistonNormalizedValue v q = q\<lparr>piston_normalized_value :=
     (if sint v < 8 then fixPistonNormalizedValue (piston_normalized_value q)
      else piston_normalized_value q)\<rparr> \<and>
   (\<not> is_nan x \<longrightarrow>
      \<not> is_nan (fixPistonNormalizedValue x) \<and>
      (valof x < 1 / 4 \<longrightarrow>
         fixPistonNormalizedValue x =
           lerp 0x3F800000 0x3F000000 (clamp01 (fdiv x 0x3E800000)) \<and>
         1 / 2 \<le> valof (fixPistonNormalizedValue x) \<and> valof (fixPistonNormalizedValue x) \<le> 1) \<and>
      (3 / 4 < valof x \<longrightarrow>
         fixPistonNormalizedValue x =
           lerp 0x3F000000 0x3F800000 (clamp01 (fdiv (fsub x 0x3F400000) 0x3E800000)) \<and>
         1 / 2 \<le> valof (fixPistonNormalizedValue x) \<and> valof (fixPistonNormalizedValue x) \<le> 1) \<and>
      (1 / 4 \<le> valof x \<and> valof x \<le> 3 / 4 \<longrightarrow>
         fixPistonNormalizedValue x =
           lerp 0 0x3F000000 (clamp01 (fdiv (f_abs (fsub x 0x3F000000)) 0x3E800000)) \<and>
         0 \<le> valof (fixPistonNormalizedValue x) \<and>
         valof (fixPistonNormalizedValue x) \<le> 1 / 2)) \<and>
   (is_nan x \<longrightarrow> is_nan (fixPistonNormalizedValue x)) \<and>
   fixPistonNormalizedValue 0x3F000000 = 0"
proof -
  have a: "deserializePiston fixPistonNormalizedValue version s = Inr (p, s') \<longrightarrow>
      piston_normalized_value p =
        (if sint version < 8
         then fixPistonNormalizedValue (word32_le (take 4 (drop (cursor s) (input s))))
         else word32_le (take 4 (drop (cursor s) (input s))))"
    using deserializePiston_value [of fixPistonNormalizedValue version s p s'] by blast
  have b: "simple_piston fixPistonNormalizedValue version s = Inr (p, s') \<longrightarrow>
      piston_normalized_value p =
        (if sint version < 8
         then fixPistonNormalizedValue (word32_le (take 4 (drop (cursor s) (input s))))
         else word32_le (take 4 (drop (cursor s) (input s))))"
    using simple_piston_value [of fixPistonNormalizedValue version s p s'] by blast
  have c: "0 \<le> sint v \<and> sint v \<le> 50 \<and>
      bridge_ok joints edges springs pistons phases junk5 anchors \<longrightarrow>
      reads (deserializeBridge fixPistonNormalizedValue)
        (bridgeWire v joints edges springs pistons phases junk5 anchors junkBool)
        (bridgeAt fixPistonNormalizedValue v joints edges springs pistons phases anchors)"
    using reads_deserializeBridge [of v joints edges springs pistons phases junk5 anchors]
    by blast
  have d: "0 \<le> sint v \<and> sint v \<le> 10 \<and>
      bridge_ok joints edges springs pistons phases junk5 anchors \<longrightarrow>
      reads (simple_deserializeBridge fixPistonNormalizedValue)
        (bridgeWire v joints edges springs pistons phases junk5 anchors junkBool)
        ((bridgeAt fixPistonNormalizedValue v joints edges springs pistons phases anchors)
           \<lparr>bridge_edges := [], bridge_phases := []\<rparr>)"
    using reads_simple_deserializeBridge [of v joints edges springs pistons phases junk5 anchors]
    by blast
  have e: "length joints \<le> 4096 \<and> list_all joint_ok joints \<and> length edges \<le> 4096 \<and>
    list_all edge_ok edges \<and> length pistons \<le> 4096 \<and> list_all piston_ok pistons \<longrightarrow>
      reads (legacyBridge fixPistonNormalizedValue)
        ((writeCount joints @ concat (map serializeJoint joints)) @
         (writeCount edges @ concat (map (edgeWire (bridge_version emptyBridge)) edges)) @
         (writeCount pistons @ concat (map serializePiston pistons)))
        (emptyBridge\<lparr>bridge_joints := joints,
           bridge_edges := map (edgeAt (bridge_version emptyBridge)) edges,
           bridge_pistons :=
             map (pistonAt fixPistonNormalizedValue (bridge_version emptyBridge)) pistons\<rparr>)"
    using reads_legacyBridge [of joints edges pistons] by blast
  have f: "sint (bridge_version emptyBridge) < 8" by (simp add: emptyBridge_def)
  have g: "pistonAt fixPistonNormalizedValue v q = q\<lparr>piston_normalized_value :=
     (if sint v < 8 then fixPistonNormalizedValue (piston_normalized_value q)
      else piston_normalized_value q)\<rparr>"
    by (rule pistonAt_def)
  have h: "\<not> is_nan x \<longrightarrow>
      \<not> is_nan (fixPistonNormalizedValue x) \<and>
      (valof x < 1 / 4 \<longrightarrow>
         fixPistonNormalizedValue x =
           lerp 0x3F800000 0x3F000000 (clamp01 (fdiv x 0x3E800000)) \<and>
         1 / 2 \<le> valof (fixPistonNormalizedValue x) \<and> valof (fixPistonNormalizedValue x) \<le> 1) \<and>
      (3 / 4 < valof x \<longrightarrow>
         fixPistonNormalizedValue x =
           lerp 0x3F000000 0x3F800000 (clamp01 (fdiv (fsub x 0x3F400000) 0x3E800000)) \<and>
         1 / 2 \<le> valof (fixPistonNormalizedValue x) \<and> valof (fixPistonNormalizedValue x) \<le> 1) \<and>
      (1 / 4 \<le> valof x \<and> valof x \<le> 3 / 4 \<longrightarrow>
         fixPistonNormalizedValue x =
           lerp 0 0x3F000000 (clamp01 (fdiv (f_abs (fsub x 0x3F000000)) 0x3E800000)) \<and>
         0 \<le> valof (fixPistonNormalizedValue x) \<and>
         valof (fixPistonNormalizedValue x) \<le> 1 / 2)"
  proof (rule impI)
    assume n: "\<not> is_nan x"
    note r = fixPistonNormalizedValue_range [OF n]
    note c = flt_consts [OF n]
    have "valof x < 1 / 4 \<longrightarrow> fixPistonNormalizedValue x =
        lerp 0x3F800000 0x3F000000 (clamp01 (fdiv x 0x3E800000))"
      using c by (simp add: fixPistonNormalizedValue_def)
    moreover have "3 / 4 < valof x \<longrightarrow> fixPistonNormalizedValue x =
        lerp 0x3F000000 0x3F800000 (clamp01 (fdiv (fsub x 0x3F400000) 0x3E800000))"
      using c by (simp add: fixPistonNormalizedValue_def)
    moreover have "1 / 4 \<le> valof x \<and> valof x \<le> 3 / 4 \<longrightarrow> fixPistonNormalizedValue x =
        lerp 0 0x3F000000 (clamp01 (fdiv (f_abs (fsub x 0x3F000000)) 0x3E800000))"
      using c by (simp add: fixPistonNormalizedValue_def)
    ultimately show "\<not> is_nan (fixPistonNormalizedValue x) \<and>
      (valof x < 1 / 4 \<longrightarrow>
         fixPistonNormalizedValue x =
           lerp 0x3F800000 0x3F000000 (clamp01 (fdiv x 0x3E800000)) \<and>
         1 / 2 \<le> valof (fixPistonNormalizedValue x) \<and> valof (fixPistonNormalizedValue x) \<le> 1) \<and>
      (3 / 4 < valof x \<longrightarrow>
         fixPistonNormalizedValue x =
           lerp 0x3F000000 0x3F800000 (clamp01 (fdiv (fsub x 0x3F400000) 0x3E800000)) \<and>
         1 / 2 \<le> valof (fixPistonNormalizedValue x) \<and> valof (fixPistonNormalizedValue x) \<le> 1) \<and>
      (1 / 4 \<le> valof x \<and> valof x \<le> 3 / 4 \<longrightarrow>
         fixPistonNormalizedValue x =
           lerp 0 0x3F000000 (clamp01 (fdiv (f_abs (fsub x 0x3F000000)) 0x3E800000)) \<and>
         0 \<le> valof (fixPistonNormalizedValue x) \<and>
         valof (fixPistonNormalizedValue x) \<le> 1 / 2)"
      using r by blast
  qed
  have i: "is_nan x \<longrightarrow> is_nan (fixPistonNormalizedValue x)"
    using fixPistonNormalizedValue_nan [of x] by blast
  note j = fixPistonNormalizedValue_values(6)
  from a b c d e f g h i j show ?thesis by (intro conjI)
qed

theorem piston_correction_witness:
  "deserializePiston fixPistonNormalizedValue 7 (start (serializePiston exPiston01)) =
     Inr (exPiston01\<lparr>piston_normalized_value := 0x3F4CCCCD\<rparr>,
          (start (serializePiston exPiston01))\<lparr>cursor := 16\<rparr>) \<and>
   deserializePiston fixPistonNormalizedValue 8 (start (serializePiston exPiston01)) =
     Inr (exPiston01, (start (serializePiston exPiston01))\<lparr>cursor := 16\<rparr>) \<and>
   simple_piston fixPistonNormalizedValue 7 (start (serializePiston exPiston01)) =
     Inr (exPiston01\<lparr>piston_normalized_value := 0x3F4CCCCD\<rparr>,
          (start (serializePiston exPiston01))\<lparr>cursor := 16\<rparr>) \<and>
   deserializeBridge fixPistonNormalizedValue
       (start (bridgeWire 7 [] [] [] [exPiston01] [] [] [] False)) =
     Inr (\<lparr>bridge_version = 7, bridge_joints = [], bridge_edges = [], bridge_springs = [],
           bridge_pistons = [exPiston01\<lparr>piston_normalized_value := 0x3F4CCCCD\<rparr>],
           bridge_anchors = [], bridge_phases = []\<rparr>,
          (start (bridgeWire 7 [] [] [] [exPiston01] [] [] [] False))\<lparr>cursor := 45\<rparr>) \<and>
   simple_deserializeBridge fixPistonNormalizedValue
       (start (bridgeWire 7 [] [] [] [exPiston01] [] [] [] False)) =
     Inr (\<lparr>bridge_version = 7, bridge_joints = [], bridge_edges = [], bridge_springs = [],
           bridge_pistons = [exPiston01\<lparr>piston_normalized_value := 0x3F4CCCCD\<rparr>],
           bridge_anchors = [], bridge_phases = []\<rparr>,
          (start (bridgeWire 7 [] [] [] [exPiston01] [] [] [] False))\<lparr>cursor := 45\<rparr>) \<and>
   legacyBridge fixPistonNormalizedValue
       (start (writeInt32 0 @ writeInt32 0 @ writeInt32 1 @ serializePiston exPiston01)) =
     Inr (emptyBridge\<lparr>bridge_pistons := [exPiston01\<lparr>piston_normalized_value := 0x3F4CCCCD\<rparr>]\<rparr>,
          (start (writeInt32 0 @ writeInt32 0 @ writeInt32 1 @ serializePiston exPiston01))
            \<lparr>cursor := 28\<rparr>) \<and>
   fixPistonNormalizedValue 0x3DCCCCCD = 0x3F4CCCCD \<and>
   1 / 2 \<le> valof 0x3F4CCCCD \<and> valof 0x3F4CCCCD \<le> 1 \<and>
   fixPistonNormalizedValue 0x3F666666 = 0x3F4CCCCC \<and>
   1 / 2 \<le> valof 0x3F4CCCCC \<and> valof 0x3F4CCCCC \<le> 1 \<and>
   fixPistonNormalizedValue 0x3F19999A = 0x3E4CCCD0 \<and>
   0 \<le> valof 0x3E4CCCD0 \<and> valof 0x3E4CCCD0 \<le> 1 / 2 \<and>
   fixPistonNormalizedValue 0x3E800000 = 0x3F000000 \<and>
   fixPistonNormalizedValue 0x3F400000 = 0x3F000000 \<and>
   fixPistonNormalizedValue 0x3F000000 = 0"
proof -
  let ?w = "bridgeWire 7 [] [] [] [exPiston01] [] [] [] False"
  let ?l = "writeInt32 0 @ writeInt32 0 @ writeInt32 1 @ serializePiston exPiston01"
  let ?p = "exPiston01\<lparr>piston_normalized_value := 0x3F4CCCCD\<rparr>"
  have ok: "piston_ok exPiston01"
    by (simp add: piston_ok_def str_ok_def exPiston01_def exPiston_def ascii_def)
  have bok: "bridge_ok [] [] [] [exPiston01] [] [] []"
    using ok by (simp add: bridge_ok_def)
  have len: "length (serializePiston exPiston01) = 16" "length ?w = 45" "length ?l = 28"
    by (simp_all add: bridgeWire_def wr_defs exPiston01_def exPiston_def ascii_def)
  have at: "pistonAt fixPistonNormalizedValue 7 exPiston01 = ?p"
    "pistonAt fixPistonNormalizedValue 0 exPiston01 = ?p"
    "pistonAt fixPistonNormalizedValue 8 exPiston01 = exPiston01"
    by (simp_all add: pistonAt_def exPiston01_def fixPistonNormalizedValue_values)
  have d7: "deserializePiston fixPistonNormalizedValue 7 (start (serializePiston exPiston01)) =
      Inr (?p, (start (serializePiston exPiston01))\<lparr>cursor := 16\<rparr>)"
    using reads_start [OF reads_deserializePiston [OF ok], of fixPistonNormalizedValue 7 "[]"]
    by (simp add: at len)
  have d8: "deserializePiston fixPistonNormalizedValue 8 (start (serializePiston exPiston01)) =
      Inr (exPiston01, (start (serializePiston exPiston01))\<lparr>cursor := 16\<rparr>)"
    using reads_start [OF reads_deserializePiston [OF ok], of fixPistonNormalizedValue 8 "[]"]
    by (simp add: at len)
  have s7: "simple_piston fixPistonNormalizedValue 7 (start (serializePiston exPiston01)) =
      Inr (?p, (start (serializePiston exPiston01))\<lparr>cursor := 16\<rparr>)"
    using d7 by (simp add: simple_same)
  note T = piston_correction [where version = 7 and s = "start (serializePiston exPiston01)"
      and p = ?p and s' = "(start (serializePiston exPiston01))\<lparr>cursor := 16\<rparr>"
      and v = 7 and joints = "[]" and edges = "[]" and springs = "[]"
      and pistons = "[exPiston01]" and phases = "[]" and ?junk5.0 = "[]" and anchors = "[]"
      and junkBool = False and q = exPiston01 and x = "0x3DCCCCCD"]
  note U = piston_correction [where version = 8 and s = "start (serializePiston exPiston01)"
      and p = exPiston01 and s' = "(start (serializePiston exPiston01))\<lparr>cursor := 16\<rparr>"
      and v = 7 and joints = "[]" and edges = "[]" and springs = "[]"
      and pistons = "[exPiston01]" and phases = "[]" and ?junk5.0 = "[]" and anchors = "[]"
      and junkBool = False and q = exPiston01 and x = "0x3F666666"]
  note V = piston_correction [where version = 8 and s = "start (serializePiston exPiston01)"
      and p = exPiston01 and s' = "(start (serializePiston exPiston01))\<lparr>cursor := 16\<rparr>"
      and v = 7 and joints = "[]" and edges = "[]" and springs = "[]"
      and pistons = "[exPiston01]" and phases = "[]" and ?junk5.0 = "[]" and anchors = "[]"
      and junkBool = False and q = exPiston01 and x = "0x3F19999A"]
  from T bok have r1: "reads (deserializeBridge fixPistonNormalizedValue) ?w
      (bridgeAt fixPistonNormalizedValue 7 [] [] [] [exPiston01] [] [])" by simp
  from T bok have r2: "reads (simple_deserializeBridge fixPistonNormalizedValue) ?w
      ((bridgeAt fixPistonNormalizedValue 7 [] [] [] [exPiston01] [] [])
         \<lparr>bridge_edges := [], bridge_phases := []\<rparr>)" by simp
  from T ok have r3: "reads (legacyBridge fixPistonNormalizedValue)
      ((writeCount ([] :: BridgeJoint list) @ concat (map serializeJoint [])) @
       (writeCount ([] :: BridgeEdge list) @
          concat (map (edgeWire (bridge_version emptyBridge)) [])) @
       (writeCount [exPiston01] @ concat (map serializePiston [exPiston01])))
      (emptyBridge\<lparr>bridge_joints := [],
         bridge_edges := map (edgeAt (bridge_version emptyBridge)) [],
         bridge_pistons :=
           map (pistonAt fixPistonNormalizedValue (bridge_version emptyBridge)) [exPiston01]\<rparr>)"
    by simp
  have b1: "deserializeBridge fixPistonNormalizedValue (start ?w) =
     Inr (\<lparr>bridge_version = 7, bridge_joints = [], bridge_edges = [], bridge_springs = [],
           bridge_pistons = [?p], bridge_anchors = [], bridge_phases = []\<rparr>,
          (start ?w)\<lparr>cursor := 45\<rparr>)"
    using reads_start [OF r1, of "[]"] by (simp add: bridgeAt_def at len)
  have b2: "simple_deserializeBridge fixPistonNormalizedValue (start ?w) =
     Inr (\<lparr>bridge_version = 7, bridge_joints = [], bridge_edges = [], bridge_springs = [],
           bridge_pistons = [?p], bridge_anchors = [], bridge_phases = []\<rparr>,
          (start ?w)\<lparr>cursor := 45\<rparr>)"
    using reads_start [OF r2, of "[]"] by (simp add: bridgeAt_def at len)
  have l0: "(writeCount ([] :: BridgeJoint list) @ concat (map serializeJoint [])) @
       (writeCount ([] :: BridgeEdge list) @
          concat (map (edgeWire (bridge_version emptyBridge)) [])) @
       (writeCount [exPiston01] @ concat (map serializePiston [exPiston01])) = ?l"
    by (simp add: writeCount_def)
  have b3: "legacyBridge fixPistonNormalizedValue (start ?l) =
     Inr (emptyBridge\<lparr>bridge_pistons := [?p]\<rparr>, (start ?l)\<lparr>cursor := 28\<rparr>)"
    using reads_start [OF r3, of "[]"] unfolding l0
    by (simp add: at len emptyBridge_def writeInt32_def length_bytes32)
  from T pattern_values(1,2) have c1: "1 / 2 \<le> valof (fixPistonNormalizedValue 0x3DCCCCCD) \<and>
      valof (fixPistonNormalizedValue 0x3DCCCCCD) \<le> 1" by blast
  from U pattern_values(3,4) have c2: "1 / 2 \<le> valof (fixPistonNormalizedValue 0x3F666666) \<and>
      valof (fixPistonNormalizedValue 0x3F666666) \<le> 1" by blast
  from V pattern_values(5,6,7) have c3: "0 \<le> valof (fixPistonNormalizedValue 0x3F19999A) \<and>
      valof (fixPistonNormalizedValue 0x3F19999A) \<le> 1 / 2" by blast
  note fv = fixPistonNormalizedValue_values
  from d7 d8 s7 b1 b2 b3 c1 c2 c3 fv(1,2,3,4,5,6) show ?thesis
    by (simp only: fv simp_thms)
qed

end
